(* ===== verification/Go_Prelude.thy ===== *)
theory Go_Prelude
  imports Main "HOL-Library.Sublist" "HOL-Library.List_Lexorder" "HOL-Library.Char_ord"
begin

text \<open>
  The prelude of the development: the parts of the Go language and its standard library that the
  modelled packages share (byte strings of package \<open>strings\<close> and \<open>bytes\<close>, integer text of
  \<open>strconv\<close>, error values) and the generic lemmas the components use.

  A Go string is a sequence of bytes, here a \<^typ>\<open>string\<close> (a list of 8-bit characters). Case mapping
  and white space are the ASCII ones: on ASCII text, which is all the server admits in SMTP
  commands without SMTPUTF8, they agree with Go's Unicode-aware functions; bytes above 127 are left
  alone by this model.

  Collections: \<open>go_str\<close> for facts on strings that are safe as rewrite rules.
\<close>

named_theorems go_str \<open>rewrite rules on Go strings\<close>

section \<open>Error values\<close>

text \<open>
  Go errors: \<open>fmt.Errorf\<close> without and with a wrapped error (\<open>%w\<close>), the two error types
  that the relay inspects with \<open>errors.As\<close>, the sentinel \<open>sql.ErrNoRows\<close>, and a run-time panic.
\<close>

datatype go_error =
    Errorf string
  | Wrapf string go_error
  | TextprotoError int string
  | DNSError bool string
  | ErrNoRows
  | Panic string

type_synonym 'a res = "go_error + 'a"

section \<open>Decimal text of integers\<close>

fun nat_digits :: "nat \<Rightarrow> string" where
  "nat_digits n = (if n < 10 then [char_of (48 + n)]
                   else nat_digits (n div 10) @ [char_of (48 + n mod 10)])"

declare nat_digits.simps [simp del]

text \<open>\<open>strconv.Itoa\<close> and the verb \<open>%d\<close>.\<close>

definition Itoa :: "int \<Rightarrow> string" where
  "Itoa i = (if i < 0 then CHR ''-'' # nat_digits (nat (- i)) else nat_digits (nat i))"

fun err_text :: "go_error \<Rightarrow> string" where
  "err_text (Errorf m) = m"
| "err_text (Wrapf m e) = m @ err_text e"
| "err_text (TextprotoError code m) = Itoa code @ '' '' @ m"
| "err_text (DNSError nf m) = m"
| "err_text ErrNoRows = ''sql: no rows in result set''"
| "err_text (Panic m) = ''panic: '' @ m"

definition is_digit :: "char \<Rightarrow> bool" where
  "is_digit c \<longleftrightarrow> 48 \<le> (of_char c :: nat) \<and> (of_char c :: nat) \<le> 57"

definition digit_val :: "char \<Rightarrow> int" where
  "digit_val c = int (of_char c) - 48"

text \<open>
  \<open>strconv.ParseInt(s, 10, 64)\<close> and \<open>strconv.Atoi\<close>: an optional sign, at least one digit, only
  digits, and a value in the range of a 64-bit integer.
\<close>

definition parse_digits :: "string \<Rightarrow> int option" where
  "parse_digits s = (if s \<noteq> [] \<and> list_all is_digit s
                     then Some (foldl (\<lambda>a c. 10 * a + digit_val c) 0 s) else None)"

definition in_int64 :: "int \<Rightarrow> bool" where
  "in_int64 i \<longleftrightarrow> - 9223372036854775808 \<le> i \<and> i \<le> 9223372036854775807"

definition ParseInt :: "string \<Rightarrow> int option" where
  "ParseInt s =
     (let v = (case s of
                 [] \<Rightarrow> None
               | c # r \<Rightarrow> if c = CHR ''-'' then map_option uminus (parse_digits r)
                          else if c = CHR ''+'' then parse_digits r
                          else parse_digits s)
      in case v of None \<Rightarrow> None | Some i \<Rightarrow> if in_int64 i then Some i else None)"

section \<open>Package strings\<close>

definition lower_char :: "char \<Rightarrow> char" where
  "lower_char c = (if 65 \<le> (of_char c :: nat) \<and> (of_char c :: nat) \<le> 90
                   then char_of ((of_char c :: nat) + 32) else c)"

definition upper_char :: "char \<Rightarrow> char" where
  "upper_char c = (if 97 \<le> (of_char c :: nat) \<and> (of_char c :: nat) \<le> 122
                   then char_of ((of_char c :: nat) - 32) else c)"

definition ToLower :: "string \<Rightarrow> string" where
  "ToLower s = map lower_char s"

definition ToUpper :: "string \<Rightarrow> string" where
  "ToUpper s = map upper_char s"

abbreviation LF :: char where "LF \<equiv> CHR 0x0A"
abbreviation CR :: char where "CR \<equiv> CHR 0x0D"
abbreviation TAB :: char where "TAB \<equiv> CHR 0x09"
abbreviation NUL :: char where "NUL \<equiv> CHR 0x00"
abbreviation crlf :: string where "crlf \<equiv> [CR, LF]"

definition is_space :: "char \<Rightarrow> bool" where
  "is_space c \<longleftrightarrow> c = CHR '' '' \<or> c = TAB \<or> c = LF \<or> c = CHR 0x0B \<or> c = CHR 0x0C \<or> c = CR"

definition trim_left :: "(char \<Rightarrow> bool) \<Rightarrow> string \<Rightarrow> string" where
  "trim_left P s = dropWhile P s"

definition trim_right :: "(char \<Rightarrow> bool) \<Rightarrow> string \<Rightarrow> string" where
  "trim_right P s = rev (dropWhile P (rev s))"

definition TrimSpace :: "string \<Rightarrow> string" where
  "TrimSpace s = trim_right is_space (trim_left is_space s)"

text \<open>\<open>strings.TrimLeft\<close> and \<open>strings.TrimRight\<close> take a set of characters as a string.\<close>

definition TrimLeft :: "string \<Rightarrow> string \<Rightarrow> string" where
  "TrimLeft s cutset = trim_left (\<lambda>c. c \<in> set cutset) s"

definition TrimRight :: "string \<Rightarrow> string \<Rightarrow> string" where
  "TrimRight s cutset = trim_right (\<lambda>c. c \<in> set cutset) s"

definition HasPrefix :: "string \<Rightarrow> string \<Rightarrow> bool" where
  "HasPrefix s p \<longleftrightarrow> take (length p) s = p"

definition HasSuffix :: "string \<Rightarrow> string \<Rightarrow> bool" where
  "HasSuffix s p \<longleftrightarrow> length p \<le> length s \<and> drop (length s - length p) s = p"

definition TrimPrefix :: "string \<Rightarrow> string \<Rightarrow> string" where
  "TrimPrefix s p = (if HasPrefix s p then drop (length p) s else s)"

definition TrimSuffix :: "string \<Rightarrow> string \<Rightarrow> string" where
  "TrimSuffix s p = (if HasSuffix s p then take (length s - length p) s else s)"

definition CutPrefix :: "string \<Rightarrow> string \<Rightarrow> string option" where
  "CutPrefix s p = (if HasPrefix s p then Some (drop (length p) s) else None)"

text \<open>
  \<open>strings.IndexByte\<close> and \<open>strings.LastIndexByte\<close>; \<^term>\<open>None\<close> is Go's \<open>-1\<close>.
\<close>

fun IndexByte :: "string \<Rightarrow> char \<Rightarrow> nat option" where
  "IndexByte [] c = None"
| "IndexByte (x # s) c = (if x = c then Some 0 else map_option Suc (IndexByte s c))"

definition LastIndexByte :: "string \<Rightarrow> char \<Rightarrow> nat option" where
  "LastIndexByte s c = map_option (\<lambda>i. length s - 1 - i) (IndexByte (rev s) c)"

fun Index :: "string \<Rightarrow> string \<Rightarrow> nat option" where
  "Index [] p = (if p = [] then Some 0 else None)"
| "Index (x # s) p = (if HasPrefix (x # s) p then Some 0 else map_option Suc (Index s p))"

definition Contains :: "string \<Rightarrow> string \<Rightarrow> bool" where
  "Contains s p \<longleftrightarrow> Index s p \<noteq> None"

definition ContainsAny :: "string \<Rightarrow> string \<Rightarrow> bool" where
  "ContainsAny s chars \<longleftrightarrow> list_ex (\<lambda>c. c \<in> set chars) s"

text \<open>\<open>strings.Split\<close> and \<open>bytes.Split\<close> with a one-byte separator: at least one part.\<close>

fun SplitByte :: "char \<Rightarrow> string \<Rightarrow> string list" where
  "SplitByte c [] = [[]]"
| "SplitByte c (x # s) =
     (if x = c then [] # SplitByte c s
      else (case SplitByte c s of [] \<Rightarrow> [[x]] | p # ps \<Rightarrow> (x # p) # ps))"

text \<open>\<open>strings.Fields\<close>: the maximal runs of non-space characters.\<close>

function Fields :: "string \<Rightarrow> string list" where
  "Fields s = (let t = dropWhile is_space s in
               if t = [] then []
               else takeWhile (\<lambda>c. \<not> is_space c) t # Fields (dropWhile (\<lambda>c. \<not> is_space c) t))"
  by pat_completeness auto
termination
proof (relation "measure length", simp)
  fix s x
  assume x: "x = dropWhile is_space s" and ne: "x \<noteq> []"
  then have "\<not> is_space (hd x)" by (metis hd_dropWhile)
  with ne have "dropWhile (\<lambda>c. \<not> is_space c) x = dropWhile (\<lambda>c. \<not> is_space c) (tl x)"
    by (cases x) auto
  also have "length \<dots> \<le> length (tl x)" by (rule length_dropWhile_le)
  also have "\<dots> < length x" using ne by (cases x) auto
  also have "\<dots> \<le> length s" unfolding x by (rule length_dropWhile_le)
  finally show "(dropWhile (\<lambda>c. \<not> is_space c) x, s) \<in> measure length" by simp
qed

declare Fields.simps [simp del]

text \<open>\<open>strings.Cut\<close> and \<open>bytes.Cut\<close> at a one-byte separator.\<close>

definition Cut :: "string \<Rightarrow> char \<Rightarrow> (string \<times> string) option" where
  "Cut s c = (case IndexByte s c of None \<Rightarrow> None
              | Some i \<Rightarrow> Some (take i s, drop (Suc i) s))"

fun Join :: "string list \<Rightarrow> string \<Rightarrow> string" where
  "Join [] sep = []"
| "Join [x] sep = x"
| "Join (x # y # r) sep = x @ sep @ Join (y # r) sep"

definition EqualFold :: "string \<Rightarrow> string \<Rightarrow> bool" where
  "EqualFold a b \<longleftrightarrow> ToLower a = ToLower b"

text \<open>The verb \<open>%q\<close> on printable text without quotes or backslashes.\<close>

definition quoted :: "string \<Rightarrow> string" where
  "quoted s = CHR 0x22 # s @ [CHR 0x22]"

text \<open>The normal form of addresses and domains that the code writes everywhere:
  \<open>strings.ToLower(strings.TrimSpace(s))\<close>.\<close>

definition norm_addr :: "string \<Rightarrow> string" where
  "norm_addr s = ToLower (TrimSpace s)"

section \<open>Generic lemmas\<close>

subsection \<open>Characters and case\<close>

lemma lower_char_idem [simp]: "lower_char (lower_char c) = lower_char c"
  by (simp add: lower_char_def)

lemma lower_char_id: "(of_char c :: nat) < 65 \<or> 90 < (of_char c :: nat) \<Longrightarrow> lower_char c = c"
  by (auto simp: lower_char_def)

lemma lower_char_eq_iff:
  assumes "(of_char d :: nat) < 65 \<or> 90 < (of_char d :: nat) \<and> (of_char d :: nat) < 97 \<or>
           122 < (of_char d :: nat)"
  shows "lower_char c = d \<longleftrightarrow> c = d"
proof -
  have "(of_char (lower_char c) :: nat) = of_char d \<longleftrightarrow> (of_char c :: nat) = of_char d"
    using assms by (auto simp: lower_char_def)
  then show ?thesis by (simp only: of_char_eq_iff)
qed

lemma is_space_lower [simp]: "is_space (lower_char c) = is_space c"
  by (simp add: is_space_def lower_char_eq_iff)

lemma ToLower_Nil [simp]: "ToLower [] = []"
  by (simp add: ToLower_def)

lemma ToLower_eq_Nil [simp]: "ToLower s = [] \<longleftrightarrow> s = []"
  by (simp add: ToLower_def)

lemma length_ToLower [simp]: "length (ToLower s) = length s"
  by (simp add: ToLower_def)

lemma ToLower_idem [simp, go_str]: "ToLower (ToLower s) = ToLower s"
  by (simp add: ToLower_def)

lemma ToLower_append: "ToLower (s @ t) = ToLower s @ ToLower t"
  by (simp add: ToLower_def)

subsection \<open>Trimming\<close>

lemma dropWhile_idem: "dropWhile P (dropWhile P s) = dropWhile P s"
  by (induction s) auto

lemma trim_right_Nil [simp]: "trim_right P [] = []"
  by (simp add: trim_right_def)

lemma trim_right_idem [simp]: "trim_right P (trim_right P s) = trim_right P s"
  by (simp add: trim_right_def dropWhile_idem)

lemma trim_right_snoc:
  "trim_right P (s @ [c]) = (if P c then trim_right P s else s @ [c])"
  by (simp add: trim_right_def)

lemma trim_right_prefix: "\<exists>u. s = trim_right P s @ u \<and> list_all P u"
proof (induction s rule: rev_induct)
  case (snoc c s)
  then obtain u where "s = trim_right P s @ u" "list_all P u" by blast
  then show ?case
    by (cases "P c") (auto simp: trim_right_snoc intro: exI [of _ "u @ [c]"])
qed simp

lemma trim_right_id: "s = [] \<or> \<not> P (last s) \<Longrightarrow> trim_right P s = s"
  by (cases s rule: rev_cases) (auto simp: trim_right_snoc)

lemma trim_right_last: "trim_right P s \<noteq> [] \<Longrightarrow> \<not> P (last (trim_right P s))"
  by (induction s rule: rev_induct) (auto simp: trim_right_snoc split: if_splits)

lemma trim_right_all: "list_all P s \<Longrightarrow> trim_right P s = []"
  by (induction s rule: rev_induct) (auto simp: trim_right_snoc)

lemma trim_right_append_all: "list_all P u \<Longrightarrow> trim_right P (s @ u) = trim_right P s"
  by (induction u rule: rev_induct)
    (auto simp: trim_right_snoc simp flip: append_assoc)

lemma hd_trim_right: "trim_right P s \<noteq> [] \<Longrightarrow> hd (trim_right P s) = hd s"
  using trim_right_prefix [of s P] by (metis hd_append2)

lemma length_trim_right: "length (trim_right P s) \<le> length s"
  by (simp add: trim_right_def) (metis length_dropWhile_le length_rev)

lemma trim_left_right: "trim_left P (trim_right P (trim_left P s)) = trim_right P (trim_left P s)"
proof (cases "trim_right P (trim_left P s) = []")
  case False
  then have "hd (trim_right P (trim_left P s)) = hd (trim_left P s)" by (rule hd_trim_right)
  moreover have "trim_left P s \<noteq> []" using False by auto
  then have "\<not> P (hd (trim_left P s))"
    unfolding trim_left_def by (metis hd_dropWhile)
  ultimately show ?thesis
    using False unfolding trim_left_def by (cases "trim_right P (dropWhile P s)") auto
qed (simp add: trim_left_def)

lemma TrimSpace_idem [simp, go_str]: "TrimSpace (TrimSpace s) = TrimSpace s"
  by (simp add: TrimSpace_def trim_left_right)

lemma TrimSpace_Nil [simp]: "TrimSpace [] = []"
  by (simp add: TrimSpace_def trim_left_def)

lemma TrimSpace_ToLower: "TrimSpace (ToLower s) = ToLower (TrimSpace s)"
proof -
  have "is_space \<circ> lower_char = is_space" by (rule ext) simp
  then show ?thesis
    by (simp add: TrimSpace_def ToLower_def trim_left_def trim_right_def dropWhile_map rev_map)
qed

lemma norm_addr_idem [simp, go_str]: "norm_addr (norm_addr s) = norm_addr s"
  by (simp add: norm_addr_def TrimSpace_ToLower)

lemma norm_addr_Nil [simp]: "norm_addr [] = []"
  by (simp add: norm_addr_def)

lemma TrimSpace_norm_addr [simp, go_str]: "TrimSpace (norm_addr s) = norm_addr s"
  by (simp add: norm_addr_def TrimSpace_ToLower)

lemma ToLower_norm_addr [simp, go_str]: "ToLower (norm_addr s) = norm_addr s"
  by (simp add: norm_addr_def)

subsection \<open>Prefixes, cutting and splitting\<close>

lemma HasPrefix_iff: "HasPrefix s p \<longleftrightarrow> (\<exists>r. s = p @ r)"
  unfolding HasPrefix_def by (metis append_eq_conv_conj append_take_drop_id)

lemma HasPrefix_append [simp]: "HasPrefix (p @ r) p"
  by (auto simp: HasPrefix_iff)

lemma HasSuffix_iff: "HasSuffix s p \<longleftrightarrow> (\<exists>r. s = r @ p)"
proof
  assume "HasSuffix s p"
  then have "s = take (length s - length p) s @ p"
    unfolding HasSuffix_def by (metis append_take_drop_id)
  then show "\<exists>r. s = r @ p" ..
qed (auto simp: HasSuffix_def)

lemma Contains_byte: "Contains s [c] \<longleftrightarrow> c \<in> set s"
  by (induction s) (auto simp: Contains_def HasPrefix_def)

lemma IndexByte_None_iff: "IndexByte s c = None \<longleftrightarrow> c \<notin> set s"
  by (induction s) auto

lemma IndexByte_SomeD: "IndexByte s c = Some i \<Longrightarrow> s = take i s @ c # drop (Suc i) s \<and> c \<notin> set (take i s)"
  by (induction s arbitrary: i) (auto split: if_splits)

lemma IndexByte_append: "c \<notin> set a \<Longrightarrow> IndexByte (a @ c # b) c = Some (length a)"
  by (induction a) auto

lemma Cut_append: "c \<notin> set a \<Longrightarrow> Cut (a @ c # b) c = Some (a, b)"
  by (simp add: Cut_def IndexByte_append)

lemma Cut_SomeD: "Cut s c = Some (a, b) \<Longrightarrow> s = a @ c # b \<and> c \<notin> set a"
  by (auto simp: Cut_def split: option.splits dest!: IndexByte_SomeD)

lemma Cut_None_iff: "Cut s c = None \<longleftrightarrow> c \<notin> set s"
  by (auto simp: Cut_def split: option.splits simp flip: IndexByte_None_iff)

lemma SplitByte_ne [simp]: "SplitByte c s \<noteq> []"
  by (induction s) (auto split: list.splits)

lemma SplitByte_no_sep: "p \<in> set (SplitByte c s) \<Longrightarrow> c \<notin> set p"
  by (induction s arbitrary: p) (auto split: list.splits if_splits)

lemma Join_Cons: "r \<noteq> [] \<Longrightarrow> Join (x # r) sep = x @ sep @ Join r sep"
  by (cases r) auto

lemma Join_SplitByte: "Join (SplitByte c s) [c] = s"
proof (induction s)
  case (Cons x s)
  then show ?case
    by (cases "SplitByte c s") (auto simp: Join_Cons neq_Nil_conv split: list.splits,
        metis Join.simps(2,3) append_Cons neq_Nil_conv)
qed simp

lemma SplitByte_free: "c \<notin> set s \<Longrightarrow> SplitByte c s = [s]"
  by (induction s) auto

lemma SplitByte_append: "c \<notin> set a \<Longrightarrow> SplitByte c (a @ c # s) = a # SplitByte c s"
  by (induction a) auto

lemma SplitByte_concat:
  "list_all (\<lambda>l. c \<notin> set l) ls \<Longrightarrow>
   SplitByte c (concat (map (\<lambda>l. l @ [c]) ls) @ t) = ls @ SplitByte c t"
  by (induction ls) (auto simp: SplitByte_append)

lemma takeWhile_free: "list_all (\<lambda>c. \<not> P c) s \<Longrightarrow> takeWhile (\<lambda>c. \<not> P c) (s @ t) = s @ takeWhile (\<lambda>c. \<not> P c) t"
  by (induction s) auto

lemma dropWhile_free: "list_all (\<lambda>c. \<not> P c) s \<Longrightarrow> dropWhile (\<lambda>c. \<not> P c) (s @ t) = dropWhile (\<lambda>c. \<not> P c) t"
  by (induction s) auto

lemma dropWhile_head: "s \<noteq> [] \<Longrightarrow> list_all (\<lambda>c. \<not> P c) s \<Longrightarrow> dropWhile P (s @ t) = s @ t"
  by (cases s) auto

lemma Fields_Nil [simp]: "Fields [] = []"
  by (simp add: Fields.simps [of "[]"])

lemma Fields_word:
  assumes "w \<noteq> []" and "list_all (\<lambda>c. \<not> is_space c) w" and "r = [] \<or> is_space (hd r)"
  shows "Fields (w @ r) = w # Fields r"
proof -
  have "takeWhile (\<lambda>c. \<not> is_space c) r = []" "dropWhile (\<lambda>c. \<not> is_space c) r = r" using assms(3) by (cases r; simp)+
  then show ?thesis
    using assms(1,2) by (simp add: Fields.simps [of "w @ r"] dropWhile_head takeWhile_free dropWhile_free Let_def)
qed

lemma Fields_space: "is_space c \<Longrightarrow> Fields (c # r) = Fields r"
  by (subst (1 2) Fields.simps) simp

lemma TrimSpace_free: "list_all (\<lambda>c. \<not> is_space c) s \<Longrightarrow> TrimSpace s = s"
  using dropWhile_head [of s is_space "[]"] trim_right_id [of s is_space]
  by (cases "s = []") (auto simp: TrimSpace_def trim_left_def list_all_iff)

subsection \<open>Lists\<close>

lemma find_Some_iff_mem: "find P xs = Some x \<Longrightarrow> x \<in> set xs \<and> P x"
  by (induction xs) (auto split: if_splits)

lemma find_distinct_key:
  "distinct (map k xs) \<Longrightarrow> x \<in> set xs \<Longrightarrow> find (\<lambda>y. k y = k x) xs = Some x"
  by (induction xs) (auto simp: image_iff)

end
