(* ===== verification/Store_Base.thy ===== *)
theory Store_Base
  imports Go_Prelude "HOL-Library.Product_Lexorder"
begin

text \<open>
  The database handle of \<open>internal/storage\<close>: the Go types of \<open>storage.go\<close>, the six tables of
  \<open>schema.go\<close>, and how one SQL statement runs.

  A table is the list of its rows in insertion order; JSON columns (\<open>to_json\<close>, \<open>allowed_from\<close>,
  \<open>permanent_json\<close>) hold the decoded value, since every value written by \<open>toJSON\<close> is read back by
  \<open>fromJSON\<close>. A statement is atomic: it takes effect and succeeds, or it fails and changes nothing.
  Which statements fail is the environment's choice, recorded in \<open>faults\<close>: the head of that list
  is the outcome of the next statement (\<^term>\<open>Some e\<close> makes it fail with \<open>e\<close>), and statements
  after the end of the list succeed.

  Times are nanoseconds since the Unix epoch (\<^typ>\<open>int\<close>); \<^term>\<open>None\<close> is Go's zero time.
\<close>

section \<open>Types of storage.go\<close>

record account =
  Email :: string
  PasswordHash :: string
  AllowedFrom :: "string list"

record account_seed =
  SeedEmail :: string
  SeedPassword :: string
  SeedAllowedFrom :: "string list"

record dkim_key =
  Domain :: string
  Selector :: string
  KeyData :: string

type_synonym gotime = "int option"

record message =
  ID :: string
  From :: string
  To :: "string list"
  Attempts :: int
  NextAttempt :: gotime
  CreatedAt :: gotime
  LastError :: string
  Permanent :: "(string \<times> string) list"
  Data :: string

abbreviation StatusQueued :: string where "StatusQueued \<equiv> ''queued''"
abbreviation StatusDead :: string where "StatusDead \<equiv> ''dead''"
abbreviation StatusDelivered :: string where "StatusDelivered \<equiv> ''delivered''"

record upsert_summary =
  Created :: "string list"
  Updated :: "string list"
  Unchanged :: "string list"

definition Total :: "upsert_summary \<Rightarrow> nat" where
  "Total u = length (Created u) + length (Updated u) + length (Unchanged u)"

definition empty_summary :: upsert_summary where
  "empty_summary = \<lparr>Created = [], Updated = [], Unchanged = []\<rparr>"

record stats =
  Queued :: int
  Due :: int
  Dead :: int

record message_lite =
  LiteID :: string
  LiteSender :: string
  LiteTo :: "string list"
  LiteAttempts :: int
  LiteNextAttempt :: gotime
  LiteCreatedAt :: gotime
  LiteLastError :: string
  LitePermanent :: "(string \<times> string) list"

record send_log =
  LogID :: string
  LogFrom :: string
  LogTo :: "string list"
  LogSubject :: string
  LogStatus :: string
  LogAttempts :: int
  LogSize :: int
  LogTruncated :: bool
  LogLastError :: string
  LogHTML :: string
  LogText :: string
  LogRaw :: string
  LogQueuedAt :: gotime
  LogUpdatedAt :: gotime

section \<open>Rows of the tables of schema.go\<close>

record queue_row =
  q_id :: string
  q_sender :: string
  q_to :: "string list"
  q_data :: string
  q_attempts :: int
  q_next_attempt :: int
  q_status :: string
  q_lease_until :: int
  q_worker_id :: string
  q_created_at :: int
  q_last_error :: string
  q_permanent :: "(string \<times> string) list"

record sends_row =
  s_id :: string
  s_sender :: string
  s_to :: "string list"
  s_subject :: string
  s_status :: string
  s_attempts :: int
  s_size :: int
  s_truncated :: bool
  s_last_error :: string
  s_html :: string
  s_text :: string
  s_raw :: string
  s_queued_at :: int
  s_updated_at :: int

record counters_row =
  auth_success :: int
  auth_failure :: int
  messages_queued :: int
  delivery_attempts :: int
  messages_delivered :: int
  messages_dead :: int
  messages_requeued :: int
  updated_at :: int

section \<open>The store\<close>

text \<open>
  \<open>notify\<close> is the channel of capacity one: \<^term>\<open>True\<close> when it holds a token.
  \<open>schema_versions\<close> holds the versions recorded in \<open>schema_migrations\<close>.
\<close>

record store =
  accounts :: "account list"
  dkim_keys :: "dkim_key list"
  queue_messages :: "queue_row list"
  sends_log :: "sends_row list"
  stats_counters :: "counters_row option"
  schema_versions :: "nat list"
  dialect :: string
  instance_id :: string
  deadMax :: int
  notify :: bool
  faults :: "go_error option list"

definition SetDeadMax :: "int \<Rightarrow> store \<Rightarrow> store" where
  "SetDeadMax n s = s\<lparr>deadMax := n\<rparr>"

definition Dialect :: "store \<Rightarrow> string" where
  "Dialect s = dialect s"

definition Notify :: "store \<Rightarrow> bool" where
  "Notify s = notify s"

text \<open>A non-blocking send: a full channel is left as it is.\<close>

definition wake :: "store \<Rightarrow> store" where
  "wake s = (if notify s then s else s\<lparr>notify := True\<rparr>)"

definition timeFromMS :: "int \<Rightarrow> gotime" where
  "timeFromMS ms = (if ms \<le> 0 then None else Some (ms * 1000000))"

text \<open>\<open>time.Time.UnixMilli\<close>; the zero time is the year 1.\<close>

definition UnixMilli :: "gotime \<Rightarrow> int" where
  "UnixMilli t = (case t of None \<Rightarrow> - 62135596800000 | Some ns \<Rightarrow> ns div 1000000)"

definition hex_digit :: "nat \<Rightarrow> char" where
  "hex_digit n = (if n < 10 then char_of (48 + n) else char_of (87 + n))"

definition toHex :: "string \<Rightarrow> string" where
  "toHex b = concat (map (\<lambda>c. [hex_digit (of_char c div 16), hex_digit (of_char c mod 16)]) b)"

text \<open>
  \<open>NewID\<close>: \<open>stamp\<close> is the formatted time, \<open>rnd\<close> the four random bytes.
\<close>

definition NewID :: "string \<Rightarrow> string \<Rightarrow> string" where
  "NewID stamp rnd = stamp @ ''-'' @ toHex rnd"

text \<open>\<open>newInstanceID\<close>: the formatted time and six random bytes; without randomness the program panics.\<close>

definition newInstanceID :: "string \<Rightarrow> string res \<Rightarrow> string res" where
  "newInstanceID stamp rnd = (case rnd of
       Inl err \<Rightarrow> Inl (Panic (''crypto/rand unavailable: '' @ err_text err))
     | Inr b \<Rightarrow> Inr (stamp @ ''-'' @ toHex b))"

text \<open>
  One statement: \<open>f\<close> is its effect, which may itself be an error (a violated key, a dialect that
  rejects the syntax) and then leaves the store alone.
\<close>

definition sql :: "(store \<Rightarrow> 'a res \<times> store) \<Rightarrow> store \<Rightarrow> 'a res \<times> store" where
  "sql f s = (case faults s of
                Some e # fs \<Rightarrow> (Inl e, s\<lparr>faults := fs\<rparr>)
              | _ \<Rightarrow> f (s\<lparr>faults := tl (faults s)\<rparr>))"

text \<open>An \<open>UPDATE\<close> or \<open>DELETE\<close> on the queue; its result is \<open>RowsAffected\<close>.\<close>

definition update_queue ::
    "(queue_row \<Rightarrow> bool) \<Rightarrow> (queue_row \<Rightarrow> queue_row) \<Rightarrow> store \<Rightarrow> nat res \<times> store" where
  "update_queue P g s =
     (Inr (length (filter P (queue_messages s))),
      s\<lparr>queue_messages := map (\<lambda>r. if P r then g r else r) (queue_messages s)\<rparr>)"

definition delete_queue :: "(queue_row \<Rightarrow> bool) \<Rightarrow> store \<Rightarrow> nat res \<times> store" where
  "delete_queue P s =
     (Inr (length (filter P (queue_messages s))),
      s\<lparr>queue_messages := filter (\<lambda>r. \<not> P r) (queue_messages s)\<rparr>)"

definition insert_queue :: "queue_row \<Rightarrow> store \<Rightarrow> unit res \<times> store" where
  "insert_queue r s =
     (if q_id r \<in> set (map q_id (queue_messages s))
      then (Inl (Errorf ''UNIQUE constraint failed: queue_messages.id''), s)
      else (Inr (), s\<lparr>queue_messages := queue_messages s @ [r]\<rparr>))"

definition select :: "(store \<Rightarrow> 'a) \<Rightarrow> store \<Rightarrow> 'a res \<times> store" where
  "select q s = (Inr (q s), s)"

text \<open>The store a new database has after the migrations.\<close>

definition new_store :: "string \<Rightarrow> string \<Rightarrow> store" where
  "new_store d inst =
     \<lparr>accounts = [], dkim_keys = [], queue_messages = [], sends_log = [], stats_counters = None,
      schema_versions = [], dialect = d, instance_id = inst, deadMax = 0, notify = False,
      faults = []\<rparr>"

section \<open>Facts on statements\<close>

named_theorems store_defs \<open>definitions of statements\<close>

lemmas [store_defs] = update_queue_def delete_queue_def insert_queue_def select_def

lemma sql_cases [consumes 1, case_names fault run]:
  assumes "sql f s = (r, s')"
  obtains (fault) e where "r = Inl e" "s' = s\<lparr>faults := tl (faults s)\<rparr>"
        | (run) "f (s\<lparr>faults := tl (faults s)\<rparr>) = (r, s')"
  using assms by (auto simp: sql_def split: list.splits option.splits)

lemma faults_upd_id [simp]: "faults s = [] \<Longrightarrow> s\<lparr>faults := []\<rparr> = s"
  by (cases s) auto

lemma sql_no_fault: "faults s = [] \<Longrightarrow> sql f s = f s"
  by (simp add: sql_def)

lemma select_inv:
  assumes "sql (select q) s = (r, s')"
  shows "\<exists>fs. s' = s\<lparr>faults := fs\<rparr>" and "r = Inr v \<Longrightarrow> v = q (s\<lparr>faults := tl (faults s)\<rparr>)"
  using assms by (auto elim!: sql_cases simp: select_def)

lemma select_Inr:
  "sql (select q) s = (Inr v, s1) \<Longrightarrow>
   s1 = s\<lparr>faults := tl (faults s)\<rparr> \<and> v = q (s\<lparr>faults := tl (faults s)\<rparr>)"
  by (auto elim!: sql_cases simp: select_def)

lemma wake_simps [simp]:
  "queue_messages (wake s) = queue_messages s" "accounts (wake s) = accounts s"
  "dkim_keys (wake s) = dkim_keys s" "sends_log (wake s) = sends_log s"
  "stats_counters (wake s) = stats_counters s" "faults (wake s) = faults s"
  "deadMax (wake s) = deadMax s" "dialect (wake s) = dialect s" "notify (wake s)"
  "instance_id (wake s) = instance_id s"
  by (simp_all add: wake_def)

lemma timeFromMS_UnixMilli: "0 < ms \<Longrightarrow> UnixMilli (timeFromMS ms) = ms"
  by (simp add: timeFromMS_def UnixMilli_def)

section \<open>Invariants of statements\<close>

text \<open>
  The contract a table invariant offers to the operations: it does not depend on which statements
  fail. One law about \<^const>\<open>sql\<close> then serves every operation.
\<close>

locale table_invariant =
  fixes I :: "store \<Rightarrow> bool"
  assumes I_faults: "I (s\<lparr>faults := fs\<rparr>) = I s"
begin

lemma sql_keeps:
  assumes "I s" and "\<And>t. I t \<Longrightarrow> I (snd (f t))"
  shows "I (snd (sql f s))"
  using assms I_faults by (auto simp: sql_def split: list.splits option.splits)

lemma sql_keeps':
  assumes "sql f s = (r, s')" and "I s" and "\<And>t. I t \<Longrightarrow> I (snd (f t))"
  shows "I s'"
  using sql_keeps [of s f] assms by simp

lemma select_keeps: "sql (select q) s = (r, s') \<Longrightarrow> I s \<Longrightarrow> I s'"
  using select_inv [of q s r s'] I_faults by auto

end

end
