(* ===== verification/Store_Queue.thy ===== *)
theory Store_Queue
  imports Store_Base
begin

text \<open>
  The message queue of \<open>internal/storage/queue.go\<close>: enqueueing, claiming due rows under a lease,
  persisting progress, and the end of a row (delivered, dead, pruned, requeued), with the invariant
  of the table and the functional behaviour of each operation.

  \<open>ORDER BY created_at\<close> leaves the order of rows with equal times open; the model keeps them in
  insertion order.
\<close>

section \<open>Operations\<close>

definition new_row :: "int \<Rightarrow> string \<Rightarrow> string \<Rightarrow> string list \<Rightarrow> string \<Rightarrow> queue_row" where
  "new_row now_ms mid sender to data =
     \<lparr>q_id = mid, q_sender = sender, q_to = to, q_data = data, q_attempts = 0, q_next_attempt = 0,
      q_status = StatusQueued, q_lease_until = 0, q_worker_id = [], q_created_at = now_ms,
      q_last_error = [], q_permanent = []\<rparr>"

definition EnqueueWithID ::
    "int \<Rightarrow> string \<Rightarrow> string \<Rightarrow> string list \<Rightarrow> string \<Rightarrow> store \<Rightarrow> string res \<times> store" where
  "EnqueueWithID now_ms mid sender to data s =
     (if length to = 0 then (Inl (Errorf (''message '' @ mid @ '': no recipients'')), s)
      else case sql (insert_queue (new_row now_ms mid sender to data)) s of
             (Inl err, s1) \<Rightarrow> (Inl (Wrapf (''enqueueing '' @ mid @ '': '') err), s1)
           | (Inr _, s1) \<Rightarrow> (Inr mid, wake s1))"

definition Enqueue ::
    "int \<Rightarrow> string \<Rightarrow> string \<Rightarrow> string \<Rightarrow> string list \<Rightarrow> string \<Rightarrow> store \<Rightarrow> string res \<times> store" where
  "Enqueue now_ms stamp rnd sender to data s =
     EnqueueWithID now_ms (NewID stamp rnd) sender to data s"

definition scanMessage :: "queue_row \<Rightarrow> message" where
  "scanMessage r =
     \<lparr>ID = q_id r, From = q_sender r, To = q_to r, Attempts = q_attempts r,
      NextAttempt = timeFromMS (q_next_attempt r), CreatedAt = timeFromMS (q_created_at r),
      LastError = q_last_error r, Permanent = q_permanent r, Data = q_data r\<rparr>"

text \<open>\<open>LeaseTimeout\<close>: thirty minutes in nanoseconds.\<close>

definition LeaseTimeout :: int where
  "LeaseTimeout = 1800000000000"

definition row_due :: "int \<Rightarrow> queue_row \<Rightarrow> bool" where
  "row_due now_ms r \<longleftrightarrow> q_status r = StatusQueued \<and> (q_next_attempt r = 0 \<or> q_next_attempt r \<le> now_ms)"

definition due_rows :: "int \<Rightarrow> int \<Rightarrow> store \<Rightarrow> queue_row list" where
  "due_rows now_ms limit s =
     take (nat limit) (sort_key q_created_at (filter (row_due now_ms) (queue_messages s)))"

definition row_claimable :: "int \<Rightarrow> string \<Rightarrow> queue_row \<Rightarrow> bool" where
  "row_claimable now_ms mid r \<longleftrightarrow>
     q_id r = mid \<and> q_status r = StatusQueued \<and> (q_lease_until r = 0 \<or> q_lease_until r \<le> now_ms)"

definition claim :: "int \<Rightarrow> int \<Rightarrow> string \<Rightarrow> store \<Rightarrow> nat res \<times> store" where
  "claim lease now_ms mid s =
     sql (update_queue (row_claimable now_ms mid)
           (\<lambda>r. r\<lparr>q_lease_until := lease, q_worker_id := instance_id s\<rparr>)) s"

text \<open>The loop that claims the candidates; \<open>ready\<close> accumulates the claimed ones.\<close>

fun claim_all ::
    "int \<Rightarrow> int \<Rightarrow> message list \<Rightarrow> message list \<Rightarrow> store \<Rightarrow> message list res \<times> store" where
  "claim_all lease now_ms [] ready s = (Inr ready, s)"
| "claim_all lease now_ms (m # ms) ready s =
     (case claim lease now_ms (ID m) s of
        (Inl err, s1) \<Rightarrow> (Inl err, s1)
      | (Inr n, s1) \<Rightarrow> claim_all lease now_ms ms (if n = 1 then ready @ [m] else ready) s1)"

definition NextDue :: "int \<Rightarrow> int \<Rightarrow> store \<Rightarrow> message list res \<times> store" where
  "NextDue now limit s =
     (let lim = (if limit \<le> 0 then 100 else limit);
          now_ms = UnixMilli (Some now)
      in case sql (select (due_rows now_ms lim)) s of
           (Inl err, s1) \<Rightarrow> (Inl err, s1)
         | (Inr rows, s1) \<Rightarrow>
             claim_all (UnixMilli (Some (now + LeaseTimeout))) now_ms (map scanMessage rows) [] s1)"

definition Persist :: "message \<Rightarrow> store \<Rightarrow> unit res \<times> store" where
  "Persist m s =
     (if length (To m) = 0 then (Inr (), s)
      else let next = (if NextAttempt m = None then 0 else UnixMilli (NextAttempt m)) in
           case sql (update_queue (\<lambda>r. q_id r = ID m)
                  (\<lambda>r. r\<lparr>q_to := To m, q_permanent := Permanent m, q_attempts := Attempts m,
                         q_next_attempt := next, q_last_error := LastError m,
                         q_lease_until := 0, q_worker_id := []\<rparr>)) s of
             (Inl err, s1) \<Rightarrow> (Inl (Wrapf (''persisting '' @ ID m @ '': '') err), s1)
           | (Inr _, s1) \<Rightarrow> (Inr (), s1))"

definition Succeed :: "string \<Rightarrow> store \<Rightarrow> unit res \<times> store" where
  "Succeed mid s =
     (case sql (delete_queue (\<lambda>r. q_id r = mid \<and> q_status r = StatusQueued)) s of
        (Inl err, s1) \<Rightarrow> (Inl err, s1) | (Inr _, s1) \<Rightarrow> (Inr (), s1))"

definition Release :: "string \<Rightarrow> store \<Rightarrow> unit res \<times> store" where
  "Release mid s =
     (case sql (update_queue (\<lambda>r. q_id r = mid)
                  (\<lambda>r. r\<lparr>q_lease_until := 0, q_worker_id := []\<rparr>)) s of
        (Inl err, s1) \<Rightarrow> (Inl err, s1) | (Inr _, s1) \<Rightarrow> (Inr (), s1))"

definition dead_rows :: "store \<Rightarrow> queue_row list" where
  "dead_rows s = filter (\<lambda>r. q_status r = StatusDead) (queue_messages s)"

definition prune_victims :: "int \<Rightarrow> store \<Rightarrow> string list" where
  "prune_victims over s = map q_id (take (nat over) (sort_key q_created_at (dead_rows s)))"

fun delete_victims :: "string list \<Rightarrow> store \<Rightarrow> unit res \<times> store" where
  "delete_victims [] s = (Inr (), s)"
| "delete_victims (mid # ids) s =
     (case sql (delete_queue (\<lambda>r. q_id r = mid \<and> q_status r = StatusDead)) s of
        (Inl err, s1) \<Rightarrow> (Inl err, s1)
      | (Inr _, s1) \<Rightarrow> delete_victims ids s1)"

definition pruneDead :: "store \<Rightarrow> unit res \<times> store" where
  "pruneDead s =
     (if deadMax s \<le> 0 then (Inr (), s)
      else case sql (select (\<lambda>s. int (length (dead_rows s)))) s of
             (Inl err, s1) \<Rightarrow> (Inl err, s1)
           | (Inr n_dead, s1) \<Rightarrow>
               (let over = n_dead - deadMax s in
                if over \<le> 0 then (Inr (), s1)
                else case sql (select (prune_victims over)) s1 of
                       (Inl err, s2) \<Rightarrow> (Inl err, s2)
                     | (Inr victims, s2) \<Rightarrow> delete_victims victims s2))"

definition DeadLetter :: "string \<Rightarrow> string \<Rightarrow> store \<Rightarrow> unit res \<times> store" where
  "DeadLetter mid reason s =
     (case sql (update_queue (\<lambda>r. q_id r = mid)
                  (\<lambda>r. r\<lparr>q_status := StatusDead, q_last_error := reason, q_next_attempt := 0,
                         q_lease_until := 0, q_worker_id := []\<rparr>)) s of
        (Inl err, s1) \<Rightarrow> (Inl err, s1)
      | (Inr _, s1) \<Rightarrow> pruneDead s1)"

definition RequeueDead :: "string \<Rightarrow> store \<Rightarrow> unit res \<times> store" where
  "RequeueDead mid s =
     (case sql (update_queue (\<lambda>r. q_id r = mid \<and> q_status r = StatusDead)
                  (\<lambda>r. r\<lparr>q_status := StatusQueued, q_attempts := 0, q_next_attempt := 0,
                         q_last_error := [], q_lease_until := 0, q_worker_id := []\<rparr>)) s of
        (Inl err, s1) \<Rightarrow> (Inl err, s1)
      | (Inr n, s1) \<Rightarrow> if n = 0
                       then (Inl (Errorf (''message '' @ mid @ '' is not in dead state'')), s1)
                       else (Inr (), wake s1))"

definition lite_of_row :: "queue_row \<Rightarrow> message_lite" where
  "lite_of_row r =
     \<lparr>LiteID = q_id r, LiteSender = q_sender r, LiteTo = q_to r, LiteAttempts = q_attempts r,
      LiteNextAttempt = timeFromMS (q_next_attempt r), LiteCreatedAt = timeFromMS (q_created_at r),
      LiteLastError = q_last_error r, LitePermanent = q_permanent r\<rparr>"

definition ListMessages :: "string \<Rightarrow> int \<Rightarrow> store \<Rightarrow> message_lite list res \<times> store" where
  "ListMessages status limit s =
     (let lim = (if limit \<le> 0 then 100 else limit);
          lim = (if lim > 1000 then 1000 else lim)
      in sql (select (\<lambda>s. map lite_of_row (take (nat lim)
                (rev (sort_key q_created_at
                   (filter (\<lambda>r. q_status r = status) (queue_messages s))))))) s)"

definition count_rows :: "(queue_row \<Rightarrow> bool) \<Rightarrow> store \<Rightarrow> int res \<times> store" where
  "count_rows P s = sql (select (\<lambda>s. int (length (filter P (queue_messages s))))) s"

definition Stats :: "int \<Rightarrow> store \<Rightarrow> stats res \<times> store" where
  "Stats now s =
     (case count_rows (\<lambda>r. q_status r = StatusQueued) s of
        (Inl err, s1) \<Rightarrow> (Inl err, s1)
      | (Inr nq, s1) \<Rightarrow>
          (case count_rows (row_due (UnixMilli (Some now))) s1 of
             (Inl err, s2) \<Rightarrow> (Inl err, s2)
           | (Inr nd, s2) \<Rightarrow>
               (case count_rows (\<lambda>r. q_status r = StatusDead) s2 of
                  (Inl err, s3) \<Rightarrow> (Inl err, s3)
                | (Inr nx, s3) \<Rightarrow> (Inr \<lparr>Queued = nq, Due = nd, Dead = nx\<rparr>, s3))))"


section \<open>The invariant of the table\<close>

text \<open>
  Row ids are unique (the primary key), every row is queued or dead and has a recipient, and a row
  that no worker holds carries no lease.
\<close>

definition wf_row :: "queue_row \<Rightarrow> bool" where
  "wf_row r \<longleftrightarrow> (q_status r = StatusQueued \<or> q_status r = StatusDead) \<and> q_to r \<noteq> [] \<and>
               (q_worker_id r = [] \<longrightarrow> q_lease_until r = 0)"

definition queue_inv :: "store \<Rightarrow> bool" where
  "queue_inv s \<longleftrightarrow> distinct (map q_id (queue_messages s)) \<and> list_all wf_row (queue_messages s) \<and>
                  instance_id s \<noteq> []"

lemma queue_inv_faults [simp]: "queue_inv (s\<lparr>faults := fs\<rparr>) = queue_inv s"
  by (simp add: queue_inv_def)

lemma queue_inv_wake [simp]: "queue_inv (wake s) = queue_inv s"
  by (simp add: queue_inv_def)

interpretation q: table_invariant queue_inv
  by unfold_locales simp

lemma map_upd_ids:
  "(\<And>r. q_id (g r) = q_id r) \<Longrightarrow> map q_id (map (\<lambda>r. if P r then g r else r) rs) = map q_id rs"
  by (induction rs) auto

lemma update_queue_inv:
  assumes "queue_inv s" and "\<And>r. q_id (g r) = q_id r" and "\<And>r. wf_row r \<Longrightarrow> P r \<Longrightarrow> wf_row (g r)"
  shows "queue_inv (snd (update_queue P g s))"
  using assms map_upd_ids [of g P "queue_messages s"]
  by (auto simp: queue_inv_def update_queue_def list_all_iff simp del: map_map)

lemma delete_queue_inv: "queue_inv s \<Longrightarrow> queue_inv (snd (delete_queue P s))"
  by (auto simp: queue_inv_def delete_queue_def list_all_iff distinct_map inj_on_def)

lemma insert_queue_inv: "queue_inv s \<Longrightarrow> wf_row r \<Longrightarrow> queue_inv (snd (insert_queue r s))"
  by (auto simp: queue_inv_def insert_queue_def)

lemmas queue_stmt_inv = update_queue_inv delete_queue_inv insert_queue_inv

lemma EnqueueWithID_inv: "queue_inv s \<Longrightarrow> queue_inv (snd (EnqueueWithID t mid sender to data s))"
  by (auto simp: EnqueueWithID_def split: prod.splits sum.splits
        elim!: q.sql_keeps' intro!: insert_queue_inv simp: new_row_def wf_row_def)

lemma Persist_inv: "queue_inv s \<Longrightarrow> queue_inv (snd (Persist m s))"
  by (auto simp: Persist_def Let_def split: prod.splits sum.splits
        elim!: q.sql_keeps' intro!: update_queue_inv simp: wf_row_def)

lemma Succeed_inv: "queue_inv s \<Longrightarrow> queue_inv (snd (Succeed mid s))"
  by (auto simp: Succeed_def split: prod.splits sum.splits elim!: q.sql_keeps' intro!: delete_queue_inv)

lemma Release_inv: "queue_inv s \<Longrightarrow> queue_inv (snd (Release mid s))"
  by (auto simp: Release_def split: prod.splits sum.splits
        elim!: q.sql_keeps' intro!: update_queue_inv simp: wf_row_def)

lemma RequeueDead_inv: "queue_inv s \<Longrightarrow> queue_inv (snd (RequeueDead mid s))"
  by (auto simp: RequeueDead_def split: prod.splits sum.splits
        elim!: q.sql_keeps' intro!: update_queue_inv simp: wf_row_def)

lemma delete_victims_inv: "queue_inv s \<Longrightarrow> queue_inv (snd (delete_victims ids s))"
proof (induction ids arbitrary: s)
  case (Cons mid ids)
  obtain r s1 where e: "sql (delete_queue (\<lambda>r. q_id r = mid \<and> q_status r = StatusDead)) s = (r, s1)"
    by fastforce
  have "queue_inv s1"
    using e Cons.prems by (rule q.sql_keeps') (rule delete_queue_inv)
  then show ?case
    by (cases r) (simp_all add: e Cons.IH)
qed simp

lemma pruneDead_inv: "queue_inv s \<Longrightarrow> queue_inv (snd (pruneDead s))"
  by (auto simp: pruneDead_def Let_def delete_victims_inv split: prod.split sum.split
        dest!: q.select_keeps)

lemma DeadLetter_inv: 
  assumes "queue_inv s" shows "queue_inv (snd (DeadLetter mid reason s))"
proof -
  have "queue_inv s1" if "sql (update_queue (\<lambda>r. q_id r = mid)
      (\<lambda>r. r\<lparr>q_status := StatusDead, q_last_error := reason, q_next_attempt := 0,
             q_lease_until := 0, q_worker_id := []\<rparr>)) s = (r, s1)" for r s1
    using that assms by (rule q.sql_keeps') (rule update_queue_inv, auto simp: wf_row_def)
  then show ?thesis
    by (auto simp: DeadLetter_def pruneDead_inv split: prod.split sum.split)
qed

lemma claim_inv:
  assumes "queue_inv s" and "claim lease now_ms mid s = (r, s1)"
  shows "queue_inv s1"
proof -
  have "instance_id s \<noteq> []" using assms(1) by (simp add: queue_inv_def)
  then show ?thesis
    using assms(2,1) unfolding claim_def
    by (elim q.sql_keeps') (auto simp: wf_row_def intro!: update_queue_inv)
qed

lemma claim_all_inv: "queue_inv s \<Longrightarrow> queue_inv (snd (claim_all lease now_ms ms ready s))"
  by (induction ms arbitrary: s ready) (auto split: prod.split sum.split dest: claim_inv)

lemma NextDue_inv: "queue_inv s \<Longrightarrow> queue_inv (snd (NextDue now limit s))"
  by (auto simp: NextDue_def Let_def claim_all_inv split: prod.split sum.split dest!: q.select_keeps)

section \<open>The queue as a transition system\<close>

text \<open>
  The calls of the queue's interface, and one step of the system: a call by any worker, at any time,
  with any statements failing. \<open>step_env\<close> is the environment's move: another worker takes its turn
  (\<open>instance_id\<close> is the identity of the caller), other statements will fail, a token is taken from
  the channel.
\<close>

datatype queue_op =
    OpEnqueue int string string "string list" string
  | OpNextDue int int
  | OpPersist message
  | OpSucceed string
  | OpRelease string
  | OpDeadLetter string string
  | OpRequeue string

fun run_op :: "queue_op \<Rightarrow> store \<Rightarrow> store" where
  "run_op (OpEnqueue t mid sender to data) s = snd (EnqueueWithID t mid sender to data s)"
| "run_op (OpNextDue now limit) s = snd (NextDue now limit s)"
| "run_op (OpPersist m) s = snd (Persist m s)"
| "run_op (OpSucceed mid) s = snd (Succeed mid s)"
| "run_op (OpRelease mid) s = snd (Release mid s)"
| "run_op (OpDeadLetter mid reason) s = snd (DeadLetter mid reason s)"
| "run_op (OpRequeue mid) s = snd (RequeueDead mid s)"

inductive queue_step :: "store \<Rightarrow> store \<Rightarrow> bool" where
  step_env: "w \<noteq> [] \<Longrightarrow> queue_step s (s\<lparr>instance_id := w, faults := fs, notify := b\<rparr>)"
| step_op: "queue_step s (run_op oper s)"

text \<open>A transition system with an inductive invariant: what holds of every reachable state.\<close>

locale invariant_system =
  fixes init :: "'s \<Rightarrow> bool" and step :: "'s \<Rightarrow> 's \<Rightarrow> bool" and Inv :: "'s \<Rightarrow> bool"
  assumes init_inv: "init s \<Longrightarrow> Inv s"
    and step_inv: "step s t \<Longrightarrow> Inv s \<Longrightarrow> Inv t"
begin

lemma run_inv: "step\<^sup>*\<^sup>* s t \<Longrightarrow> Inv s \<Longrightarrow> Inv t"
  by (induction rule: rtranclp_induct) (auto intro: step_inv)

lemma reachable_inv: "init s \<Longrightarrow> step\<^sup>*\<^sup>* s t \<Longrightarrow> Inv t"
  using init_inv run_inv by blast

end

definition fresh_store :: "store \<Rightarrow> bool" where
  "fresh_store s \<longleftrightarrow> queue_messages s = [] \<and> instance_id s \<noteq> []"

lemma run_op_inv: "queue_inv s \<Longrightarrow> queue_inv (run_op oper s)"
  by (cases oper) (simp_all add: EnqueueWithID_inv NextDue_inv Persist_inv Succeed_inv Release_inv
      DeadLetter_inv RequeueDead_inv)

lemma queue_step_inv: "queue_step s t \<Longrightarrow> queue_inv s \<Longrightarrow> queue_inv t"
  by (induction rule: queue_step.induct) (simp_all add: run_op_inv, simp add: queue_inv_def)

interpretation qs: invariant_system fresh_store queue_step queue_inv
  by unfold_locales (simp add: fresh_store_def queue_inv_def, erule queue_step_inv)

end
