(* ===== verification/Queue_Laws.thy ===== *)
theory Queue_Laws
  imports Store_Queue
begin

text \<open>
  The functional laws of the queue of \<open>queue.go\<close>: what \<open>NextDue\<close> hands out and leases, exclusive
  claims and their expiry, the bound on dead rows, and the life cycle of a message as an abstract
  specification that the table operations refine.
\<close>

section \<open>What NextDue does when no statement fails\<close>

definition lease_free :: "int \<Rightarrow> queue_row \<Rightarrow> bool" where
  "lease_free t r \<longleftrightarrow> q_lease_until r = 0 \<or> q_lease_until r \<le> t"

definition claim_rows :: "int \<Rightarrow> int \<Rightarrow> string \<Rightarrow> string set \<Rightarrow> queue_row list \<Rightarrow> queue_row list" where
  "claim_rows lease t w ids rows =
     map (\<lambda>r. if q_id r \<in> ids \<and> q_status r = StatusQueued \<and> lease_free t r
              then r\<lparr>q_lease_until := lease, q_worker_id := w\<rparr> else r) rows"

lemma row_claimable_iff: "row_claimable t i r \<longleftrightarrow> q_id r = i \<and> q_status r = StatusQueued \<and> lease_free t r"
  by (auto simp: row_claimable_def lease_free_def)

lemma filter_key_length:
  "distinct (map q_id rows) \<Longrightarrow>
   length (filter (row_claimable t i) rows) = (if \<exists>r \<in> set rows. row_claimable t i r then 1 else 0)"
proof (induction rows)
  case (Cons r rows)
  then show ?case
    by (auto simp: row_claimable_iff filter_empty_conv image_iff)
qed simp

lemma claim_ok:
  "faults s = [] \<Longrightarrow> claim lease t i s =
     (Inr (length (filter (row_claimable t i) (queue_messages s))),
      s\<lparr>queue_messages := claim_rows lease t (instance_id s) {i} (queue_messages s)\<rparr>)"
  by (simp add: claim_def sql_no_fault update_queue_def claim_rows_def row_claimable_iff conj_assoc)

lemma claim_rows_ids [simp]: "map q_id (claim_rows lease t w ids rows) = map q_id rows"
  by (simp add: claim_rows_def)

lemma claim_rows_empty [simp]: "claim_rows lease t w {} rows = rows"
  by (simp add: claim_rows_def)

lemma claim_rows_insert:
  "i \<notin> ids \<Longrightarrow> claim_rows lease t w ids (claim_rows lease t w {i} rows) =
     claim_rows lease t w (insert i ids) rows"
  by (auto simp: claim_rows_def)

lemma claimable_after_claim:
  "i \<noteq> j \<Longrightarrow> (\<exists>r \<in> set (claim_rows lease t w {i} rows). row_claimable t j r) \<longleftrightarrow>
             (\<exists>r \<in> set rows. row_claimable t j r)"
  by (auto simp: claim_rows_def row_claimable_iff)

lemma claim_all_ok:
  assumes "faults s = []" and "distinct (map q_id (queue_messages s))" and "distinct (map ID ms)"
  shows "claim_all lease t ms ready s =
    (Inr (ready @ filter (\<lambda>m. \<exists>r \<in> set (queue_messages s). row_claimable t (ID m) r) ms),
     s\<lparr>queue_messages := claim_rows lease t (instance_id s) (ID ` set ms) (queue_messages s)\<rparr>)"
  using assms
proof (induction ms arbitrary: s ready)
  case (Cons m ms)
  let ?s = "s\<lparr>queue_messages := claim_rows lease t (instance_id s) {ID m} (queue_messages s)\<rparr>"
  have d: "distinct (map q_id (queue_messages ?s))" and n: "ID m \<notin> ID ` set ms"
    using Cons.prems by auto
  have same: "filter (\<lambda>m. \<exists>r \<in> set (queue_messages ?s). row_claimable t (ID m) r) ms =
      filter (\<lambda>m. \<exists>r \<in> set (queue_messages s). row_claimable t (ID m) r) ms"
    using n by (intro filter_cong) (auto simp: claimable_after_claim image_iff)
  show ?case
    using Cons.prems Cons.IH [OF _ d, of "ready @ [m]"] Cons.IH [OF _ d, of ready] same n
    by (auto simp: claim_ok filter_key_length claim_rows_insert)
qed simp

lemma distinct_map_take: "distinct (map f xs) \<Longrightarrow> distinct (map f (take n xs))"
  by (metis distinct_take take_map)

lemma due_rows_distinct:
  assumes "distinct (map q_id (queue_messages s))"
  shows "distinct (map q_id (due_rows t lim s))"
proof -
  have "distinct (map q_id (sort_key q_created_at (filter (row_due t) (queue_messages s))))"
    using assms by (simp add: distinct_map inj_on_def)
  then show ?thesis unfolding due_rows_def by (rule distinct_map_take)
qed

lemma set_due_rows: "r \<in> set (due_rows t lim s) \<Longrightarrow> r \<in> set (queue_messages s) \<and> row_due t r"
  unfolding due_rows_def by (auto dest!: in_set_takeD)

lemma scanMessage_ID [simp]: "ID (scanMessage r) = q_id r"
  by (simp add: scanMessage_def)

lemma unique_row:
  "distinct (map q_id rows) \<Longrightarrow> r \<in> set rows \<Longrightarrow> r' \<in> set rows \<Longrightarrow> q_id r = q_id r' \<Longrightarrow> r = r'"
  by (auto simp: distinct_map inj_on_def)

text \<open>The effective limit of \<open>NextDue\<close>.\<close>

abbreviation eff_limit :: "int \<Rightarrow> int" where
  "eff_limit limit \<equiv> (if limit \<le> 0 then 100 else limit)"

lemma NextDue_ok:
  assumes f: "faults s = []" and d: "distinct (map q_id (queue_messages s))"
  shows "NextDue now limit s =
    (let t = now div 1000000; due = due_rows t (eff_limit limit) s in
     (Inr (map scanMessage (filter (lease_free t) due)),
      s\<lparr>queue_messages := claim_rows ((now + LeaseTimeout) div 1000000) t (instance_id s)
                           (q_id ` set due) (queue_messages s)\<rparr>))"
proof -
  let ?t = "now div 1000000" and ?due = "due_rows (now div 1000000) (eff_limit limit) s"
  have "(\<exists>r' \<in> set (queue_messages s). row_claimable ?t (q_id r) r') = lease_free ?t r"
    if "r \<in> set ?due" for r
    using set_due_rows [OF that] d unique_row [of "queue_messages s" r]
    by (auto simp: row_claimable_iff row_due_def) metis+
  then have "filter ((\<lambda>m. \<exists>r \<in> set (queue_messages s). row_claimable ?t (ID m) r) \<circ> scanMessage) ?due =
      filter (lease_free ?t) ?due"
    by (intro filter_cong) auto
  then show ?thesis
    using f d due_rows_distinct [OF d, of ?t "eff_limit limit"]
    by (simp add: NextDue_def Let_def sql_no_fault select_def UnixMilli_def claim_all_ok
        filter_map image_image comp_def)
qed


section \<open>A row that a statement does not match stays as it is\<close>

interpretation rowk: table_invariant "\<lambda>s. row \<in> set (queue_messages s)" for row
  by unfold_locales simp

lemma update_queue_keeps:
  "row \<in> set (queue_messages s) \<Longrightarrow> \<not> P row \<Longrightarrow> row \<in> set (queue_messages (snd (update_queue P g s)))"
  by (auto simp: update_queue_def image_iff intro!: bexI [of _ row])

lemma delete_queue_keeps:
  "row \<in> set (queue_messages s) \<Longrightarrow> \<not> P row \<Longrightarrow> row \<in> set (queue_messages (snd (delete_queue P s)))"
  by (simp add: delete_queue_def)

lemma insert_queue_keeps:
  "row \<in> set (queue_messages s) \<Longrightarrow> row \<in> set (queue_messages (snd (insert_queue r s)))"
  by (simp add: insert_queue_def)

lemma sql_update_keeps:
  "sql (update_queue P g) s = (r, s1) \<Longrightarrow> row \<in> set (queue_messages s) \<Longrightarrow> \<not> P row \<Longrightarrow>
   row \<in> set (queue_messages s1)"
  by (erule rowk.sql_keeps') (auto intro: update_queue_keeps)

lemma sql_delete_keeps:
  "sql (delete_queue P) s = (r, s1) \<Longrightarrow> row \<in> set (queue_messages s) \<Longrightarrow> \<not> P row \<Longrightarrow>
   row \<in> set (queue_messages s1)"
  by (erule rowk.sql_keeps') (auto intro: delete_queue_keeps)

lemma sql_insert_keeps:
  "sql (insert_queue x) s = (r, s1) \<Longrightarrow> row \<in> set (queue_messages s) \<Longrightarrow>
   row \<in> set (queue_messages s1)"
  by (erule rowk.sql_keeps') (auto intro: insert_queue_keeps)

lemma EnqueueWithID_keeps:
  "row \<in> set (queue_messages s) \<Longrightarrow> row \<in> set (queue_messages (snd (EnqueueWithID t mid f to d s)))"
  by (auto simp: EnqueueWithID_def split: prod.split sum.split dest: sql_insert_keeps)

lemma Persist_keeps:
  "row \<in> set (queue_messages s) \<Longrightarrow> q_id row \<noteq> ID m \<Longrightarrow> row \<in> set (queue_messages (snd (Persist m s)))"
  by (auto simp: Persist_def Let_def split: prod.split sum.split dest: sql_update_keeps)

lemma Succeed_keeps:
  "row \<in> set (queue_messages s) \<Longrightarrow> q_id row \<noteq> mid \<Longrightarrow> row \<in> set (queue_messages (snd (Succeed mid s)))"
  by (auto simp: Succeed_def split: prod.split sum.split dest: sql_delete_keeps)

lemma Release_keeps:
  "row \<in> set (queue_messages s) \<Longrightarrow> q_id row \<noteq> mid \<Longrightarrow> row \<in> set (queue_messages (snd (Release mid s)))"
  by (auto simp: Release_def split: prod.split sum.split dest: sql_update_keeps)

lemma RequeueDead_keeps:
  "row \<in> set (queue_messages s) \<Longrightarrow> q_id row \<noteq> mid \<or> q_status row \<noteq> StatusDead \<Longrightarrow>
   row \<in> set (queue_messages (snd (RequeueDead mid s)))"
  by (auto simp: RequeueDead_def split: prod.split sum.split dest: sql_update_keeps)

lemma delete_victims_keeps:
  "row \<in> set (queue_messages s) \<Longrightarrow> q_status row \<noteq> StatusDead \<Longrightarrow>
   row \<in> set (queue_messages (snd (delete_victims ids s)))"
  by (induction ids arbitrary: s) (auto split: prod.split sum.split dest!: sql_delete_keeps)

lemma pruneDead_keeps:
  "row \<in> set (queue_messages s) \<Longrightarrow> q_status row \<noteq> StatusDead \<Longrightarrow>
   row \<in> set (queue_messages (snd (pruneDead s)))"
  by (auto simp: pruneDead_def Let_def delete_victims_keeps split: prod.split sum.split
        dest!: rowk.select_keeps)

lemma DeadLetter_keeps:
  "row \<in> set (queue_messages s) \<Longrightarrow> q_id row \<noteq> mid \<Longrightarrow> q_status row \<noteq> StatusDead \<Longrightarrow>
   row \<in> set (queue_messages (snd (DeadLetter mid reason s)))"
  by (auto simp: DeadLetter_def pruneDead_keeps split: prod.split sum.split dest: sql_update_keeps)

lemma claim_keeps:
  "claim lease t i s = (r, s1) \<Longrightarrow> row \<in> set (queue_messages s) \<Longrightarrow> \<not> lease_free t row \<Longrightarrow>
   row \<in> set (queue_messages s1)"
  unfolding claim_def by (erule sql_update_keeps) (auto simp: row_claimable_iff)

lemma claim_all_keeps:
  "row \<in> set (queue_messages s) \<Longrightarrow> \<not> lease_free t row \<Longrightarrow>
   row \<in> set (queue_messages (snd (claim_all lease t ms ready s)))"
  by (induction ms arbitrary: s ready) (auto split: prod.split sum.split dest: claim_keeps)

lemma NextDue_keeps:
  "row \<in> set (queue_messages s) \<Longrightarrow> \<not> lease_free (now div 1000000) row \<Longrightarrow>
   row \<in> set (queue_messages (snd (NextDue now limit s)))"
  by (auto simp: NextDue_def Let_def UnixMilli_def claim_all_keeps split: prod.split sum.split
        dest!: rowk.select_keeps)

lemmas queue_ops_keep = EnqueueWithID_keeps Persist_keeps Succeed_keeps Release_keeps
  RequeueDead_keeps DeadLetter_keeps NextDue_keeps

section \<open>Leases are exclusive until they expire\<close>

text \<open>
  The calls that leave the holder of \<open>mid\<close> alone: a claim before the lease \<open>L\<close> ends, and the other
  operations when they are about another message.
\<close>

fun respects_lease :: "string \<Rightarrow> int \<Rightarrow> queue_op \<Rightarrow> bool" where
  "respects_lease mid L (OpNextDue now limit) \<longleftrightarrow> now div 1000000 < L"
| "respects_lease mid L (OpPersist m) \<longleftrightarrow> ID m \<noteq> mid"
| "respects_lease mid L (OpSucceed i) \<longleftrightarrow> i \<noteq> mid"
| "respects_lease mid L (OpRelease i) \<longleftrightarrow> i \<noteq> mid"
| "respects_lease mid L (OpDeadLetter i reason) \<longleftrightarrow> i \<noteq> mid"
| "respects_lease mid L _ \<longleftrightarrow> True"

inductive lease_step :: "string \<Rightarrow> int \<Rightarrow> store \<Rightarrow> store \<Rightarrow> bool" for mid L where
  lease_env: "w \<noteq> [] \<Longrightarrow> lease_step mid L s (s\<lparr>instance_id := w, faults := fs, notify := b\<rparr>)"
| lease_op: "respects_lease mid L oper \<Longrightarrow> lease_step mid L s (run_op oper s)"

definition leased :: "queue_row \<Rightarrow> store \<Rightarrow> bool" where
  "leased row s \<longleftrightarrow> queue_inv s \<and> row \<in> set (queue_messages s) \<and> q_status row = StatusQueued"

lemma run_op_keeps_lease:
  assumes "row \<in> set (queue_messages s)" and "q_status row = StatusQueued"
    and "q_lease_until row \<noteq> 0" and "respects_lease (q_id row) (q_lease_until row) oper"
  shows "row \<in> set (queue_messages (run_op oper s))"
  using assms by (cases oper) (auto intro!: queue_ops_keep simp: lease_free_def)

lemma lease_step_leased:
  "lease_step (q_id row) (q_lease_until row) s t \<Longrightarrow> q_lease_until row \<noteq> 0 \<Longrightarrow> leased row s \<Longrightarrow> leased row t"
  by (induction rule: lease_step.induct)
    (auto simp: leased_def run_op_keeps_lease run_op_inv, simp add: queue_inv_def)

lemma claim_all_excludes:
  assumes "queue_inv s" and "row \<in> set (queue_messages s)" and "\<not> lease_free t row"
    and "claim_all lease t ms ready s = (Inr out, s1)" and "q_id row \<notin> ID ` set ready"
  shows "q_id row \<notin> ID ` set out"
  using assms
proof (induction ms arbitrary: s ready)
  case (Cons m ms)
  from Cons.prems(4) obtain n s2 where c: "claim lease t (ID m) s = (Inr n, s2)"
    and rest: "claim_all lease t ms (if n = 1 then ready @ [m] else ready) s2 = (Inr out, s1)"
    by (auto split: prod.splits sum.splits)
  have "n = 0" if "ID m = q_id row"
  proof -
    have "n = length (filter (row_claimable t (ID m)) (queue_messages s))"
      using c unfolding claim_def by (auto elim!: sql_cases simp: update_queue_def)
    moreover have "\<not> row_claimable t (ID m) r" if "r \<in> set (queue_messages s)" for r
      using that \<open>ID m = q_id row\<close> Cons.prems(1-3) unique_row [of "queue_messages s" r row]
      by (auto simp: row_claimable_iff queue_inv_def)
    ultimately show ?thesis by (simp add: filter_empty_conv)
  qed
  then have "q_id row \<notin> ID ` set (if n = 1 then ready @ [m] else ready)"
    using Cons.prems(5) by auto
  then show ?case
    using Cons.IH [OF claim_inv [OF Cons.prems(1) c] claim_keeps [OF c Cons.prems(2,3)]
        Cons.prems(3) rest] by blast
qed simp

lemma NextDue_excludes:
  assumes "leased row s" and "q_lease_until row \<noteq> 0" and "now div 1000000 < q_lease_until row"
    and "NextDue now limit s = (Inr out, s1)"
  shows "q_id row \<notin> ID ` set out"
proof -
  have free: "\<not> lease_free (now div 1000000) row" using assms(2,3) by (simp add: lease_free_def)
  from assms(4) obtain rows s2 where sel: "sql (select (due_rows (now div 1000000) (eff_limit limit))) s = (Inr rows, s2)"
    and cl: "claim_all ((now + LeaseTimeout) div 1000000) (now div 1000000) (map scanMessage rows) [] s2
             = (Inr out, s1)"
    by (auto simp: NextDue_def Let_def UnixMilli_def split: prod.splits sum.splits)
  have "queue_inv s2" "row \<in> set (queue_messages s2)"
    using assms(1) q.select_keeps [OF sel] rowk.select_keeps [OF sel] by (auto simp: leased_def)
  then show ?thesis using claim_all_excludes [OF _ _ free cl] by simp
qed

interpretation ls: invariant_system "leased row" "lease_step (q_id row) (q_lease_until row)"
    "\<lambda>s. q_lease_until row \<noteq> 0 \<longrightarrow> leased row s" for row
  by unfold_locales (auto dest: lease_step_leased)


definition holds_lease :: "string \<Rightarrow> int \<Rightarrow> string \<Rightarrow> store \<Rightarrow> bool" where
  "holds_lease w L mid s \<longleftrightarrow>
     (\<exists>row \<in> set (queue_messages s). q_id row = mid \<and> q_status row = StatusQueued \<and>
        q_lease_until row = L \<and> q_worker_id row = w)"

lemma map_upd_mem: "x \<in> set xs \<Longrightarrow> P x \<Longrightarrow> g x \<in> set (map (\<lambda>y. if P y then g y else y) xs)"
  by (auto simp: image_iff intro!: bexI [of _ x])

lemma holds_leaseI:
  assumes "row \<in> set rows" and "P row" and "q_status row = StatusQueued"
    and "queue_messages s = map (\<lambda>r. if P r then r\<lparr>q_lease_until := L, q_worker_id := w\<rparr> else r) rows"
  shows "holds_lease w L (q_id row) s"
proof -
  have "row\<lparr>q_lease_until := L, q_worker_id := w\<rparr> \<in> set (queue_messages s)"
    using map_upd_mem [of row rows P "\<lambda>r. r\<lparr>q_lease_until := L, q_worker_id := w\<rparr>"] assms by simp
  then show ?thesis using assms(3) unfolding holds_lease_def
    by (intro bexI [of _ "row\<lparr>q_lease_until := L, q_worker_id := w\<rparr>"]) auto
qed

lemma claim_instance: "claim lease t i s = (r, s1) \<Longrightarrow> instance_id s1 = instance_id s"
  unfolding claim_def by (auto elim!: sql_cases simp: update_queue_def)

lemma claim_holds:
  assumes "claim L t i s = (Inr n, s1)" and "n \<noteq> 0"
  shows "holds_lease (instance_id s) L i s1"
proof -
  from assms have n: "n = length (filter (row_claimable t i) (queue_messages s))"
    and s1: "queue_messages s1 = map (\<lambda>r. if row_claimable t i r
        then r\<lparr>q_lease_until := L, q_worker_id := instance_id s\<rparr> else r) (queue_messages s)"
    unfolding claim_def by (auto elim!: sql_cases simp: update_queue_def)
  from n assms(2) obtain row where "row \<in> set (queue_messages s)" "row_claimable t i row"
    by (auto simp: filter_empty_conv)
  with holds_leaseI [OF this(1), of "row_claimable t i", OF this(2) _ s1] show ?thesis
    by (simp add: row_claimable_iff)
qed

lemma holds_lease_claim:
  assumes "claim L' t i s = (r, s1)" and "holds_lease w L mid s" and "t < L" and "L \<noteq> 0"
  shows "holds_lease w L mid s1"
  using assms claim_keeps [OF assms(1)] unfolding holds_lease_def lease_free_def by fastforce

lemma claim_all_holds:
  assumes "claim_all L t ms ready s = (Inr out, s1)" and "t < L" and "L \<noteq> 0"
    and "\<forall>m \<in> set ready. holds_lease (instance_id s) L (ID m) s"
  shows "\<forall>m \<in> set out. holds_lease (instance_id s) L (ID m) s1"
  using assms
proof (induction ms arbitrary: s ready)
  case (Cons m ms)
  from Cons.prems(1) obtain n s2 where c: "claim L t (ID m) s = (Inr n, s2)"
    and rest: "claim_all L t ms (if n = 1 then ready @ [m] else ready) s2 = (Inr out, s1)"
    by (auto split: prod.splits sum.splits)
  have "\<forall>m \<in> set (if n = 1 then ready @ [m] else ready). holds_lease (instance_id s2) L (ID m) s2"
    using Cons.prems(2-4) claim_holds [OF c] holds_lease_claim [OF c] claim_instance [OF c] by auto
  from Cons.IH [OF rest Cons.prems(2,3) this] claim_instance [OF c] show ?case by simp
qed simp

lemma NextDue_holds:
  assumes "NextDue now limit s = (Inr out, s1)" and "0 \<le> now" and "m \<in> set out"
  shows "holds_lease (instance_id s) ((now + LeaseTimeout) div 1000000) (ID m) s1"
proof -
  from assms(1) obtain rows s2 where sel: "sql (select (due_rows (now div 1000000) (eff_limit limit))) s = (Inr rows, s2)"
    and cl: "claim_all ((now + LeaseTimeout) div 1000000) (now div 1000000) (map scanMessage rows) [] s2
             = (Inr out, s1)"
    by (auto simp: NextDue_def Let_def UnixMilli_def split: prod.splits sum.splits)
  have "instance_id s2 = instance_id s" using select_inv(1) [OF sel] by auto
  moreover have "now div 1000000 < (now + LeaseTimeout) div 1000000" "(now + LeaseTimeout) div 1000000 \<noteq> 0"
    using assms(2) by (simp_all add: LeaseTimeout_def)
  ultimately show ?thesis using claim_all_holds [OF cl] assms(3) by simp
qed

text \<open>
  C14. Claims are exclusive. When \<open>NextDue\<close> hands a message to a worker, no later \<open>NextDue\<close> of any
  worker returns that message before the lease of thirty minutes has run out, whatever happens in
  between: other claims, new messages, operations on other messages, failing statements.
\<close>

theorem lease_exclusive:
  assumes "queue_inv s0" and "0 \<le> now0" and "NextDue now0 limit0 s0 = (Inr ms, s)" and "m \<in> set ms"
    and "(lease_step (ID m) ((now0 + LeaseTimeout) div 1000000))\<^sup>*\<^sup>* s t"
    and "now div 1000000 < (now0 + LeaseTimeout) div 1000000"
    and "NextDue now limit t = (Inr out, u)"
  shows "ID m \<notin> ID ` set out"
proof -
  let ?L = "(now0 + LeaseTimeout) div 1000000"
  obtain row where row: "row \<in> set (queue_messages s)" "q_id row = ID m" "q_lease_until row = ?L"
      "q_status row = StatusQueued"
    using NextDue_holds [OF assms(3,2,4)] by (auto simp: holds_lease_def)
  have L: "?L \<noteq> 0" using assms(2) by (simp add: LeaseTimeout_def)
  have "leased row s"
    using row NextDue_inv [OF assms(1), of now0 limit0] assms(3) by (simp add: leased_def)
  with assms(5) L row have "leased row t"
    using ls.reachable_inv [of row s t] by simp
  then show ?thesis
    using NextDue_excludes [of row t now limit out u] assms(6,7) L row by simp
qed

definition demo_row :: "string \<Rightarrow> int \<Rightarrow> queue_row" where
  "demo_row i created = new_row created i ''a@x.org'' [''b@y.org''] ''hello''"

definition demo_store :: "queue_row list \<Rightarrow> store" where
  "demo_store rows = (new_store ''sqlite'' ''w1'')\<lparr>queue_messages := rows\<rparr>"

lemmas demo_defs = demo_row_def demo_store_def new_row_def new_store_def

lemma demo_inv:
  "distinct (map q_id rows) \<Longrightarrow> list_all wf_row rows \<Longrightarrow> queue_inv (demo_store rows)"
  by (simp add: queue_inv_def demo_store_def new_store_def)

lemma demo_row_wf [simp]: "wf_row (demo_row i c)"
  by (simp add: demo_row_def new_row_def wf_row_def)

lemma demo_store_simps [simp]:
  "faults (demo_store rows) = []" "queue_messages (demo_store rows) = rows"
  "instance_id (demo_store rows) = ''w1''" "deadMax (demo_store rows) = 0"
  by (simp_all add: demo_store_def new_store_def)

lemma demo_row_simps [simp]:
  "q_id (demo_row i c) = i" "q_status (demo_row i c) = StatusQueued" "q_created_at (demo_row i c) = c"
  "q_lease_until (demo_row i c) = 0" "q_next_attempt (demo_row i c) = 0"
  by (simp_all add: demo_row_def new_row_def)

lemma lease_exclusive_witness:
  "\<exists>ms s out u. NextDue 0 5 (demo_store [demo_row ''m1'' 1]) = (Inr ms, s) \<and>
     map ID ms = [''m1''] \<and>
     NextDue 60000000000 5 (s\<lparr>instance_id := ''w2'', faults := [], notify := False\<rparr>) = (Inr out, u) \<and>
     ''m1'' \<notin> ID ` set out"
proof -
  let ?s0 = "demo_store [demo_row ''m1'' 1]"
  obtain ms s where first: "NextDue 0 5 ?s0 = (Inr ms, s)" and ms: "map ID ms = [''m1'']"
    by (simp add: NextDue_ok due_rows_def row_due_def lease_free_def Let_def)
  let ?t = "s\<lparr>instance_id := ''w2'', faults := [], notify := False\<rparr>"
  have "queue_inv ?s0" by (rule demo_inv) simp_all
  have "queue_inv s" using NextDue_inv [OF \<open>queue_inv ?s0\<close>, of 0 5] first by simp
  then have "distinct (map q_id (queue_messages ?t))" by (simp add: queue_inv_def)
  then obtain out u where second: "NextDue 60000000000 5 ?t = (Inr out, u)"
    by (simp add: NextDue_ok Let_def)
  from ms obtain m where m: "m \<in> set ms" "ID m = ''m1''" by auto
  have "(lease_step (ID m) ((0 + LeaseTimeout) div 1000000))\<^sup>*\<^sup>* s ?t"
    by (rule r_into_rtranclp) (rule lease_env, simp)
  from lease_exclusive [OF \<open>queue_inv ?s0\<close> _ first m(1) this _ second] m(2) first ms second
  show ?thesis by (auto simp: LeaseTimeout_def)
qed

lemma NextDue_redelivers_core:
  assumes "queue_inv s" and "faults s = []" and "row \<in> set (queue_messages s)"
    and "row_due (now div 1000000) row" and "lease_free (now div 1000000) row"
    and "int (length (filter (row_due (now div 1000000)) (queue_messages s))) \<le> eff_limit limit"
  shows "\<exists>ms s'. NextDue now limit s = (Inr ms, s') \<and> scanMessage row \<in> set ms \<and>
           holds_lease (instance_id s) ((now + LeaseTimeout) div 1000000) (q_id row) s'"
proof -
  let ?t = "now div 1000000" and ?lim = "eff_limit limit"
  have d: "distinct (map q_id (queue_messages s))" using assms(1) by (simp add: queue_inv_def)
  have "due_rows ?t ?lim s = sort_key q_created_at (filter (row_due ?t) (queue_messages s))"
    using assms(6) unfolding due_rows_def by (intro take_all) simp
  then have in_due: "row \<in> set (due_rows ?t ?lim s)" using assms(3,4) by simp
  show ?thesis
  proof (intro exI conjI)
    show "NextDue now limit s = (Inr (map scanMessage (filter (lease_free ?t) (due_rows ?t ?lim s))),
        s\<lparr>queue_messages := claim_rows ((now + LeaseTimeout) div 1000000) ?t (instance_id s)
            (q_id ` set (due_rows ?t ?lim s)) (queue_messages s)\<rparr>)"
      by (simp add: NextDue_ok [OF assms(2) d] Let_def)
    show "scanMessage row \<in> set (map scanMessage (filter (lease_free ?t) (due_rows ?t ?lim s)))"
      using in_due assms(5) by simp
    show "holds_lease (instance_id s) ((now + LeaseTimeout) div 1000000) (q_id row)
        (s\<lparr>queue_messages := claim_rows ((now + LeaseTimeout) div 1000000) ?t (instance_id s)
            (q_id ` set (due_rows ?t ?lim s)) (queue_messages s)\<rparr>)"
      using in_due assms(3,4,5)
      by (intro holds_leaseI [of row "queue_messages s" "\<lambda>r. q_id r \<in> q_id ` set (due_rows ?t ?lim s) \<and>
            q_status r = StatusQueued \<and> lease_free ?t r"])
        (auto simp: claim_rows_def row_due_def)
  qed
qed

text \<open>
  C27. At-least-once. A queued row whose time has come and whose lease is absent or has expired is
  handed out again by the next \<open>NextDue\<close> that looks at enough rows: a crash between claim and
  progress delays a message, it never loses it.
\<close>

theorem NextDue_redelivers:
  assumes "queue_inv s" and "faults s = []" and "row \<in> set (queue_messages s)"
    and "row_due (now div 1000000) row" and "lease_free (now div 1000000) row"
    and "int (length (filter (row_due (now div 1000000)) (queue_messages s))) \<le> eff_limit limit"
  shows "\<exists>ms s'. NextDue now limit s = (Inr ms, s') \<and> scanMessage row \<in> set ms \<and>
           holds_lease (instance_id s) ((now + LeaseTimeout) div 1000000) (q_id row) s'"
  using assms by (rule NextDue_redelivers_core)

lemma NextDue_redelivers_witness:
  "\<exists>ms s'. NextDue 1800001000000 2 (demo_store [(demo_row ''m1'' 1)\<lparr>q_lease_until := 1800000, q_worker_id := ''w0''\<rparr>])
      = (Inr ms, s') \<and>
     scanMessage ((demo_row ''m1'' 1)\<lparr>q_lease_until := 1800000, q_worker_id := ''w0''\<rparr>) \<in> set ms"
proof -
  let ?r = "(demo_row ''m1'' 1)\<lparr>q_lease_until := 1800000, q_worker_id := ''w0''\<rparr>"
  have "queue_inv (demo_store [?r])" by (rule demo_inv) (simp_all add: demo_row_def new_row_def wf_row_def)
  from NextDue_redelivers [OF this, of ?r 1800001000000 2] show ?thesis
    by (auto simp: row_due_def lease_free_def)
qed

section \<open>Dead letters\<close>

lemma delete_victims_Inr:
  "delete_victims ids s = (Inr u, s') \<Longrightarrow>
   queue_messages s' = filter (\<lambda>r. \<not> (q_id r \<in> set ids \<and> q_status r = StatusDead)) (queue_messages s) \<and>
   deadMax s' = deadMax s"
proof (induction ids arbitrary: s)
  case (Cons i ids)
  from Cons.prems obtain n s1 where
      st: "sql (delete_queue (\<lambda>r. q_id r = i \<and> q_status r = StatusDead)) s = (Inr n, s1)"
      and rest: "delete_victims ids s1 = (Inr u, s')"
    by (auto split: prod.splits sum.splits)
  have s1: "queue_messages s1 = filter (\<lambda>r. \<not> (q_id r = i \<and> q_status r = StatusDead)) (queue_messages s)"
      "deadMax s1 = deadMax s"
    using st by (auto elim!: sql_cases simp: delete_queue_def)
  show ?case
    using Cons.IH [OF rest] s1 by (auto intro: filter_cong)
qed auto

text \<open>Taking the first rows by time leaves rows that are not older.\<close>

lemma take_sort_key_older:
  assumes "x \<in> set (take n (sort_key f xs))" and "y \<in> set (drop n (sort_key f xs))"
  shows "f x \<le> f y"
proof -
  have "sorted (map f (take n (sort_key f xs)) @ map f (drop n (sort_key f xs)))"
    by (metis append_take_drop_id map_append sorted_sort_key)
  then show ?thesis using assms by (auto simp: sorted_append)
qed

lemma length_filter_not_in:
  assumes "distinct (map k xs)" and "set vs \<subseteq> set xs" and "distinct (map k vs)"
  shows "length (filter (\<lambda>x. k x \<notin> set (map k vs)) xs) = length xs - length vs"
proof -
  have inj: "inj_on k (set xs)" using assms(1) by (simp add: distinct_map)
  have "set (filter (\<lambda>x. k x \<notin> set (map k vs)) xs) = set xs - set vs"
    using inj assms(2) by (auto simp: inj_on_def)
  moreover have "distinct (filter (\<lambda>x. k x \<notin> set (map k vs)) xs)" "distinct vs" "distinct xs"
    using assms(1,3) by (auto simp: distinct_map)
  ultimately show ?thesis
    using assms(2) by (metis List.finite_set card_Diff_subset distinct_card)
qed

lemma pruneDead_Inr:
  assumes d: "distinct (map q_id (queue_messages s))" and m: "0 < deadMax s"
    and ok: "pruneDead s = (Inr u, s')"
  shows "queue_messages s' = filter (\<lambda>r. \<not> (q_id r \<in>
           set (prune_victims (int (length (dead_rows s)) - deadMax s) s) \<and>
           q_status r = StatusDead)) (queue_messages s)"
proof -
  let ?n = "int (length (dead_rows s))" and ?s1 = "s\<lparr>faults := tl (faults s)\<rparr>"
  from ok m obtain n s1 where sel: "sql (select (\<lambda>s. int (length (dead_rows s)))) s = (Inr n, s1)"
    and c: "(if n - deadMax s \<le> 0 then (Inr (), s1)
       else case sql (select (prune_victims (n - deadMax s))) s1 of
          (Inl err, s2) \<Rightarrow> (Inl err, s2) | (Inr victims, s2) \<Rightarrow> delete_victims victims s2) = (Inr u, s')"
    unfolding pruneDead_def Let_def by (auto split: prod.splits sum.splits)
  have n: "n = ?n" and s1: "s1 = ?s1" using select_Inr [OF sel] by (auto simp: dead_rows_def)
  show ?thesis
  proof (cases "n - deadMax s \<le> 0")
    case True
    then show ?thesis using c s1 n by (auto simp: prune_victims_def)
  next
    case False
    with c obtain v s2 where sel2: "sql (select (prune_victims (n - deadMax s))) s1 = (Inr v, s2)"
        and del: "delete_victims v s2 = (Inr u, s')"
      by (auto split: prod.splits sum.splits)
    have "v = prune_victims (?n - deadMax s) s" "queue_messages s2 = queue_messages s"
      using select_Inr [OF sel2] False n s1 by (auto simp: prune_victims_def dead_rows_def)
    with delete_victims_Inr [OF del] show ?thesis by simp
  qed
qed

lemma pruneDead_bound:
  assumes "distinct (map q_id (queue_messages s))" and "0 < deadMax s" and "pruneDead s = (Inr u, s')"
  shows "int (length (dead_rows s')) \<le> deadMax s"
proof -
  let ?d = "dead_rows s" and ?n = "nat (int (length (dead_rows s)) - deadMax s)"
  let ?v = "take ?n (sort_key q_created_at ?d)"
  have dd: "distinct (map q_id ?d)"
    using assms(1) by (auto simp: dead_rows_def distinct_map inj_on_def)
  have dv: "distinct (map q_id ?v)"
    using dd by (intro distinct_map_take) (simp add: distinct_map)
  have "dead_rows s' = filter (\<lambda>r. q_id r \<notin> set (map q_id ?v)) ?d"
    using pruneDead_Inr [OF assms]
    by (auto simp: dead_rows_def prune_victims_def intro: filter_cong)
  moreover have "set ?v \<subseteq> set ?d" using set_take_subset by fastforce
  ultimately have "length (dead_rows s') = length ?d - length ?v"
    using length_filter_not_in [OF dd _ dv] by simp
  then show ?thesis using assms(2) by simp
qed

lemma pruneDead_older:
  assumes "distinct (map q_id (queue_messages s))" and "0 < deadMax s" and "pruneDead s = (Inr u, s')"
    and "x \<in> set (queue_messages s)" and "q_id x \<notin> q_id ` set (queue_messages s')"
    and "y \<in> set (dead_rows s')"
  shows "q_created_at x \<le> q_created_at y"
proof -
  let ?srt = "sort_key q_created_at (dead_rows s)" and ?n = "nat (int (length (dead_rows s)) - deadMax s)"
  note qm = pruneDead_Inr [OF assms(1-3)]
  have "x \<notin> set (queue_messages s')" using assms(5) by blast
  with qm assms(4) obtain x' where x': "x' \<in> set (take ?n ?srt)" "q_id x' = q_id x"
    by (auto simp: prune_victims_def)
  then have "x' \<in> set ?srt" by (rule_tac in_set_takeD)
  then have "x' \<in> set (queue_messages s)" by (simp add: dead_rows_def)
  with x' unique_row [OF assms(1) _ assms(4)] have x: "x \<in> set (take ?n ?srt)" by metis
  have "y \<in> set ?srt" "y \<notin> set (take ?n ?srt)"
    using assms(6) qm by (auto simp: dead_rows_def prune_victims_def)
  then have "y \<in> set (drop ?n ?srt)" by (metis UnE append_take_drop_id set_append)
  with x show ?thesis by (rule take_sort_key_older)
qed

text \<open>
  C28. The dead-letter cap. With a positive \<open>dead_max\<close>, a \<open>DeadLetter\<close> that reports success leaves
  at most that many dead rows, and every row it removed is at least as old as every dead row it
  kept.
\<close>

theorem DeadLetter_bounded:
  assumes "queue_inv s" and "0 < deadMax s" and "DeadLetter mid reason s = (Inr u, s')"
  shows "int (length (dead_rows s')) \<le> deadMax s \<and>
    (\<forall>x \<in> set (queue_messages s). \<forall>y \<in> set (dead_rows s').
       q_id x \<notin> q_id ` set (queue_messages s') \<longrightarrow> q_created_at x \<le> q_created_at y)"
proof -
  let ?g = "\<lambda>r. r\<lparr>q_status := StatusDead, q_last_error := reason, q_next_attempt := 0,
             q_lease_until := 0, q_worker_id := []\<rparr>"
  from assms(3) obtain n s1 where st: "sql (update_queue (\<lambda>r. q_id r = mid) ?g) s = (Inr n, s1)"
      and p: "pruneDead s1 = (Inr u, s')"
    by (auto simp: DeadLetter_def split: prod.splits sum.splits)
  have "queue_inv s1"
    using st assms(1) by (rule q.sql_keeps') (rule update_queue_inv, auto simp: wf_row_def)
  then have d1: "distinct (map q_id (queue_messages s1))" by (simp add: queue_inv_def)
  have m1: "deadMax s1 = deadMax s"
    and q1: "queue_messages s1 = map (\<lambda>r. if q_id r = mid then ?g r else r) (queue_messages s)"
    using st by (auto elim!: sql_cases simp: update_queue_def)
  have "\<exists>x' \<in> set (queue_messages s1). q_id x' = q_id x \<and> q_created_at x' = q_created_at x"
    if "x \<in> set (queue_messages s)" for x
    unfolding q1 set_map using that
    by (intro bexI [of _ "if q_id x = mid then ?g x else x"]) auto
  then show ?thesis
    using pruneDead_bound [OF d1 _ p] pruneDead_older [OF d1 _ p] m1 assms(2) by (metis (no_types, lifting))
qed

lemma DeadLetter_bounded_witness:
  "\<exists>s'. DeadLetter ''m2'' ''exhausted'' ((demo_store [(demo_row ''m1'' 1)\<lparr>q_status := StatusDead\<rparr>, demo_row ''m2'' 2])
      \<lparr>deadMax := 1\<rparr>) = (Inr (), s') \<and> int (length (dead_rows s')) \<le> 1"
proof -
  let ?s = "(demo_store [(demo_row ''m1'' 1)\<lparr>q_status := StatusDead\<rparr>, demo_row ''m2'' 2])\<lparr>deadMax := 1\<rparr>"
  have "queue_inv ?s"
    by (simp add: queue_inv_def demo_defs wf_row_def)
  moreover obtain u s' where r: "DeadLetter ''m2'' ''exhausted'' ?s = (Inr u, s')"
    by (simp add: DeadLetter_def pruneDead_def sql_def update_queue_def select_def dead_rows_def
        prune_victims_def delete_queue_def)
  ultimately show ?thesis using DeadLetter_bounded [of ?s _ _ u s'] by auto
qed


section \<open>The life cycle of a message\<close>

text \<open>
  The abstract specification: a message is absent, waiting or dead-lettered, and each operation may
  only move it along the arrows below. \<open>phase_of\<close> is the abstraction function from the table.
\<close>

datatype phase = Absent | Waiting | DeadLettered

definition row_of :: "string \<Rightarrow> store \<Rightarrow> queue_row option" where
  "row_of mid s = find (\<lambda>r. q_id r = mid) (queue_messages s)"

definition phase_of :: "string \<Rightarrow> store \<Rightarrow> phase" where
  "phase_of mid s = (case row_of mid s of None \<Rightarrow> Absent
                     | Some r \<Rightarrow> if q_status r = StatusDead then DeadLettered else Waiting)"

fun life_step :: "queue_op \<Rightarrow> string \<Rightarrow> phase \<Rightarrow> phase \<Rightarrow> bool" where
  "life_step (OpEnqueue t i sender to data) mid p p' \<longleftrightarrow>
     p' = p \<or> i = mid \<and> p = Absent \<and> p' = Waiting"
| "life_step (OpSucceed i) mid p p' \<longleftrightarrow> p' = p \<or> i = mid \<and> p = Waiting \<and> p' = Absent"
| "life_step (OpDeadLetter i reason) mid p p' \<longleftrightarrow>
     p' = p \<or> p = DeadLettered \<and> p' = Absent \<or> i = mid \<and> p = Waiting"
| "life_step (OpRequeue i) mid p p' \<longleftrightarrow> p' = p \<or> i = mid \<and> p = DeadLettered \<and> p' = Waiting"
| "life_step _ mid p p' \<longleftrightarrow> p' = p"

lemma row_of_faults [simp]: "row_of mid (s\<lparr>faults := fs\<rparr>) = row_of mid s"
  by (simp add: row_of_def)

lemma row_of_wake [simp]: "row_of mid (wake s) = row_of mid s"
  by (simp add: row_of_def)

lemma phase_of_cong: "row_of mid s' = row_of mid s \<Longrightarrow> phase_of mid s' = phase_of mid s"
  by (simp add: phase_of_def)

interpretation ph: table_invariant "\<lambda>s. phase_of mid s = p" for mid p
  by unfold_locales (simp add: phase_of_def)

lemma row_of_update:
  assumes "\<And>r. q_id (g r) = q_id r"
  shows "row_of mid (snd (update_queue P g s)) = map_option (\<lambda>r. if P r then g r else r) (row_of mid s)"
proof -
  have "find (\<lambda>r. q_id r = mid) (map (\<lambda>r. if P r then g r else r) rs) =
      map_option (\<lambda>r. if P r then g r else r) (find (\<lambda>r. q_id r = mid) rs)" for rs
    using assms by (induction rs) auto
  then show ?thesis by (simp add: row_of_def update_queue_def)
qed

lemma row_of_None: "row_of mid s = None \<longleftrightarrow> mid \<notin> set (map q_id (queue_messages s))"
  by (auto simp: row_of_def find_None_iff)

lemma find_filter_key:
  assumes "distinct (map q_id rs)"
  shows "find (\<lambda>r. q_id r = mid) (filter (\<lambda>r. \<not> P r) rs) =
    (case find (\<lambda>r. q_id r = mid) rs of None \<Rightarrow> None | Some r \<Rightarrow> if P r then None else Some r)"
  using assms
proof (induction rs)
  case (Cons a rs)
  have "find (\<lambda>r. q_id r = mid) rs = None" if "q_id a = mid"
    using Cons.prems that by (auto simp: find_None_iff image_iff)
  with Cons show ?case by auto
qed simp

lemma row_of_delete:
  assumes "distinct (map q_id (queue_messages s))"
  shows "row_of mid (snd (delete_queue P s)) =
    (case row_of mid s of None \<Rightarrow> None | Some r \<Rightarrow> if P r then None else Some r)"
  using find_filter_key [OF assms] by (simp add: row_of_def delete_queue_def)

lemma find_snoc: "find Q (rs @ [r]) = (case find Q rs of None \<Rightarrow> if Q r then Some r else None | Some x \<Rightarrow> Some x)"
  by (induction rs) auto

lemma row_of_insert:
  "row_of mid (snd (insert_queue r s)) =
    (if row_of mid s = None \<and> q_id r = mid then Some r else row_of mid s)"
proof (cases "q_id r \<in> q_id ` set (queue_messages s)")
  case True
  then show ?thesis using row_of_None [of mid s] by (auto simp: insert_queue_def)
next
  case False
  then show ?thesis by (auto simp: row_of_def insert_queue_def find_snoc split: option.splits)
qed

lemma phase_update_same:
  assumes "\<And>r. q_id (g r) = q_id r" and "\<And>r. q_status (g r) = q_status r"
  shows "phase_of mid (snd (update_queue P g s)) = phase_of mid s"
  using assms by (auto simp: phase_of_def row_of_update split: option.splits)

lemma sql_update_phase:
  assumes "sql (update_queue P g) s = (r, s1)" and "\<And>r. q_id (g r) = q_id r"
    and "\<And>r. q_status (g r) = q_status r"
  shows "phase_of mid s1 = phase_of mid s"
  using ph.sql_keeps' [OF assms(1), of mid "phase_of mid s"] phase_update_same [OF assms(2,3)] by simp

lemma claim_phase: "claim L t i s = (r, s1) \<Longrightarrow> phase_of mid s1 = phase_of mid s"
  unfolding claim_def by (erule sql_update_phase) simp_all

lemma claim_all_phase: "phase_of mid (snd (claim_all L t ms ready s)) = phase_of mid s"
  by (induction ms arbitrary: s ready) (auto split: prod.split sum.split dest: claim_phase)

lemma select_phase: "sql (select f) s = (r, s1) \<Longrightarrow> phase_of mid s1 = phase_of mid s"
  by (drule select_inv(1)) (auto simp: phase_of_def)

lemma delete_victims_phase:
  "queue_inv s \<Longrightarrow> phase_of mid (snd (delete_victims ids s)) = phase_of mid s \<or>
     phase_of mid s = DeadLettered \<and> phase_of mid (snd (delete_victims ids s)) = Absent"
proof (induction ids arbitrary: s)
  case (Cons i ids)
  let ?P = "\<lambda>r. q_id r = i \<and> q_status r = StatusDead"
  obtain r s1 where e: "sql (delete_queue ?P) s = (r, s1)" by fastforce
  have inv: "queue_inv s1" using e Cons.prems by (rule q.sql_keeps') (rule delete_queue_inv)
  have "phase_of mid s1 = phase_of mid s \<or> phase_of mid s = DeadLettered \<and> phase_of mid s1 = Absent"
    using e
  proof (cases rule: sql_cases)
    case (fault e)
    then show ?thesis by (simp add: phase_of_def)
  next
    case run
    then have "row_of mid s1 = row_of mid (snd (delete_queue ?P (s\<lparr>faults := tl (faults s)\<rparr>)))" by simp
    then show ?thesis
      using Cons.prems by (auto simp: row_of_delete queue_inv_def phase_of_def split: option.splits)
  qed
  then show ?case using Cons.IH [OF inv] by (cases r) (auto simp: e)
qed simp

lemma pruneDead_phase:
  assumes "queue_inv s"
  shows "phase_of mid (snd (pruneDead s)) = phase_of mid s \<or>
     phase_of mid s = DeadLettered \<and> phase_of mid (snd (pruneDead s)) = Absent"
proof -
  have "phase_of mid (snd (delete_victims v s2)) = phase_of mid s \<or>
      phase_of mid s = DeadLettered \<and> phase_of mid (snd (delete_victims v s2)) = Absent"
    if "sql (select f) s = (Inr n, s1)" "sql (select g) s1 = (Inr v, s2)" for f :: "store \<Rightarrow> int" and g n s1 s2 v
    using delete_victims_phase [of s2 mid v] select_phase [OF that(1)] select_phase [OF that(2)]
      q.select_keeps [OF that(2)] q.select_keeps [OF that(1)] assms by simp
  then show ?thesis
    unfolding pruneDead_def Let_def
    by (clarsimp simp: select_phase split: prod.split sum.split)
qed

lemma EnqueueWithID_phase:
  "life_step (OpEnqueue t i f to d) mid (phase_of mid s) (phase_of mid (snd (EnqueueWithID t i f to d s)))"
proof -
  let ?r = "new_row t i f to d"
  have st: "q_id ?r = i" "q_status ?r = StatusQueued" by (simp_all add: new_row_def)
  obtain r s1 where e: "sql (insert_queue ?r) s = (r, s1)" by fastforce
  have "row_of mid s1 = row_of mid s \<or> i = mid \<and> row_of mid s = None \<and> row_of mid s1 = Some ?r"
    using e
  proof (cases rule: sql_cases)
    case run
    then have "row_of mid s1 = row_of mid (snd (insert_queue ?r (s\<lparr>faults := tl (faults s)\<rparr>)))" by simp
    then show ?thesis by (auto simp: row_of_insert st)
  qed simp
  with e st show ?thesis by (cases r) (auto simp: EnqueueWithID_def phase_of_def)
qed

lemma sql_update_row:
  assumes "sql (update_queue P g) s = (r, s1)" and "\<And>r. q_id (g r) = q_id r"
  shows "row_of mid s1 = row_of mid s \<or>
    row_of mid s1 = map_option (\<lambda>r. if P r then g r else r) (row_of mid s)"
  using assms(1)
proof (cases rule: sql_cases)
  case run
  then have "row_of mid s1 = row_of mid (snd (update_queue P g (s\<lparr>faults := tl (faults s)\<rparr>)))" by simp
  then show ?thesis using row_of_update [OF assms(2)] by simp
qed simp

lemma sql_delete_row:
  assumes "sql (delete_queue P) s = (r, s1)" and "queue_inv s"
  shows "row_of mid s1 = row_of mid s \<or>
    row_of mid s1 = (case row_of mid s of None \<Rightarrow> None | Some r \<Rightarrow> if P r then None else Some r)"
  using assms(1)
proof (cases rule: sql_cases)
  case run
  then have "row_of mid s1 = row_of mid (snd (delete_queue P (s\<lparr>faults := tl (faults s)\<rparr>)))" by simp
  then show ?thesis using assms(2) by (simp add: row_of_delete queue_inv_def)
qed simp

lemma row_of_id: "row_of mid s = Some r \<Longrightarrow> q_id r = mid \<and> r \<in> set (queue_messages s)"
  by (auto simp: row_of_def find_Some_iff)

lemma row_of_wf: "queue_inv s \<Longrightarrow> row_of mid s = Some r \<Longrightarrow> wf_row r"
  using row_of_id [of mid s r] by (auto simp: queue_inv_def list_all_iff)

lemma Persist_phase: "phase_of mid (snd (Persist m s)) = phase_of mid s"
  by (auto simp: Persist_def Let_def split: prod.split sum.split dest!: sql_update_phase [where mid = mid])

lemma Release_phase: "phase_of mid (snd (Release i s)) = phase_of mid s"
  by (auto simp: Release_def split: prod.split sum.split dest!: sql_update_phase [where mid = mid])

lemma NextDue_phase: "phase_of mid (snd (NextDue now limit s)) = phase_of mid s"
  by (auto simp: NextDue_def Let_def claim_all_phase split: prod.split sum.split
      dest!: select_phase [where mid = mid])

lemma Succeed_phase:
  assumes "queue_inv s"
  shows "life_step (OpSucceed i) mid (phase_of mid s) (phase_of mid (snd (Succeed i s)))"
proof -
  obtain r s1 where e: "sql (delete_queue (\<lambda>r. q_id r = i \<and> q_status r = StatusQueued)) s = (r, s1)"
    by fastforce
  have "snd (Succeed i s) = s1" by (simp add: Succeed_def e split: sum.split)
  then show ?thesis using sql_delete_row [OF e assms, of mid] row_of_id [of mid s]
    by (cases "row_of mid s") (auto simp: phase_of_def split: if_splits)
qed

lemma RequeueDead_phase:
  "life_step (OpRequeue i) mid (phase_of mid s) (phase_of mid (snd (RequeueDead i s)))"
proof -
  obtain r s1 where e: "sql (update_queue (\<lambda>r. q_id r = i \<and> q_status r = StatusDead)
      (\<lambda>r. r\<lparr>q_status := StatusQueued, q_attempts := 0, q_next_attempt := 0,
             q_last_error := [], q_lease_until := 0, q_worker_id := []\<rparr>)) s = (r, s1)" by fastforce
  have "row_of mid (snd (RequeueDead i s)) = row_of mid s1"
    by (simp add: RequeueDead_def e split: sum.split)
  then show ?thesis using sql_update_row [OF e, of mid] row_of_id [of mid s]
    by (cases "row_of mid s") (auto simp: phase_of_def split: if_splits)
qed

lemma DeadLetter_phase:
  assumes "queue_inv s"
  shows "life_step (OpDeadLetter i reason) mid (phase_of mid s) (phase_of mid (snd (DeadLetter i reason s)))"
proof -
  let ?g = "\<lambda>r. r\<lparr>q_status := StatusDead, q_last_error := reason, q_next_attempt := 0,
             q_lease_until := 0, q_worker_id := []\<rparr>"
  obtain r s1 where e: "sql (update_queue (\<lambda>r. q_id r = i) ?g) s = (r, s1)" by fastforce
  have inv: "queue_inv s1"
    using e assms by (rule q.sql_keeps') (rule update_queue_inv, auto simp: wf_row_def)
  have "phase_of mid s1 = phase_of mid s \<or> i = mid \<and> phase_of mid s = Waiting \<and> phase_of mid s1 = DeadLettered"
    using sql_update_row [OF e, of mid] row_of_id [of mid s]
    by (cases "row_of mid s") (auto simp: phase_of_def split: if_splits)
  then show ?thesis using pruneDead_phase [OF inv, of mid]
    by (cases r) (auto simp: DeadLetter_def e)
qed

text \<open>
  C18. The table refines the life cycle: whatever statements fail, each operation of the queue moves a
  message only along an arrow of \<^const>\<open>life_step\<close>. In particular only \<open>Succeed\<close> on the message
  itself makes a waiting message leave the table without passing through the dead-letter state.
\<close>

theorem queue_op_refines:
  assumes "queue_inv s"
  shows "life_step oper mid (phase_of mid s) (phase_of mid (run_op oper s))"
  using EnqueueWithID_phase Succeed_phase [OF assms] DeadLetter_phase [OF assms] RequeueDead_phase
  by (cases oper) (simp_all add: Persist_phase Release_phase NextDue_phase)

lemma queue_op_refines_witness:
  "life_step (OpSucceed ''m1'') ''m1'' Waiting (phase_of ''m1'' (run_op (OpSucceed ''m1'') (demo_store [demo_row ''m1'' 1])))"
proof -
  have "queue_inv (demo_store [demo_row ''m1'' 1])"
    by (simp add: queue_inv_def demo_defs wf_row_def)
  from queue_op_refines [OF this, of "OpSucceed ''m1''" "''m1''"] show ?thesis
    by (simp add: phase_of_def row_of_def demo_defs)
qed

end
