(* ===== verification/Queue_Ops.thy ===== *)
theory Queue_Ops
  imports Queue_Laws
begin

text \<open>
  The functional behaviour of the queue's operations as a client sees it: what is enqueued is what
  is fetched, requeueing, the statistics, and two consequences of how leases are kept.
\<close>

section \<open>Enqueue, requeue, statistics\<close>

text \<open>
  C31. Enqueue, then fetch. A message stored by \<open>EnqueueWithID\<close> under a new id comes back from the
  next \<open>NextDue\<close> that looks at enough rows, with the sender, the recipients and the bytes it was
  stored with, no attempt counted and nobody rejected.
\<close>

theorem Enqueue_NextDue_roundtrip:
  assumes "queue_inv s" and "faults s = []" and "mid \<notin> q_id ` set (queue_messages s)" and "to \<noteq> []"
    and "EnqueueWithID t mid sender to data s = (r, s1)"
    and "int (length (filter (row_due (now div 1000000)) (queue_messages s))) < eff_limit limit"
  shows "r = Inr mid \<and> notify s1 \<and> (\<exists>ms s2 m. NextDue now limit s1 = (Inr ms, s2) \<and> m \<in> set ms \<and> ID m = mid \<and>
           From m = sender \<and> To m = to \<and> Data m = data \<and> Attempts m = 0 \<and> Permanent m = [])"
proof -
  let ?r = "new_row t mid sender to data"
  have s1: "r = Inr mid" "s1 = wake (s\<lparr>queue_messages := queue_messages s @ [?r]\<rparr>)"
    using assms(2-5) by (auto simp: EnqueueWithID_def sql_no_fault insert_queue_def new_row_def)
  have inv: "queue_inv s1" using EnqueueWithID_inv [OF assms(1), of t mid sender to data] assms(5) by simp
  have row: "row_due (now div 1000000) ?r" "lease_free (now div 1000000) ?r"
    by (simp_all add: new_row_def row_due_def lease_free_def)
  obtain ms s2 where "NextDue now limit s1 = (Inr ms, s2)" "scanMessage ?r \<in> set ms"
    using NextDue_redelivers_core [OF inv _ _ row, of limit] s1 assms(2,6) row by auto
  moreover have "From (scanMessage ?r) = sender" "To (scanMessage ?r) = to" "Data (scanMessage ?r) = data"
      "Attempts (scanMessage ?r) = 0" "Permanent (scanMessage ?r) = []" "q_id ?r = mid"
    by (simp_all add: scanMessage_def new_row_def)
  ultimately show ?thesis using s1 by (metis scanMessage_ID wake_simps(9))
qed

lemma Enqueue_NextDue_roundtrip_witness:
  "\<exists>s1 ms s2 m. EnqueueWithID 1 ''m1'' ''a@x.org'' [''b@y.org''] ''hello'' (demo_store []) = (Inr ''m1'', s1)
      \<and> NextDue 5 10 s1 = (Inr ms, s2) \<and> m \<in> set ms \<and> ID m = ''m1'' \<and> Data m = ''hello''"
proof -
  have "queue_inv (demo_store [])" by (rule demo_inv) simp_all
  moreover obtain r s1 where e: "EnqueueWithID 1 ''m1'' ''a@x.org'' [''b@y.org''] ''hello'' (demo_store []) = (r, s1)"
    by fastforce
  ultimately have "r = Inr ''m1'' \<and> (\<exists>ms s2 m. NextDue 5 10 s1 = (Inr ms, s2) \<and> m \<in> set ms \<and> ID m = ''m1'' \<and> Data m = ''hello'')"
    using Enqueue_NextDue_roundtrip [OF _ _ _ _ e, of 5 10] by auto
  with e show ?thesis by blast
qed

lemma map_if_not_mem: "(\<And>r. r \<in> set rs \<Longrightarrow> \<not> P r) \<Longrightarrow> map (\<lambda>r. if P r then g r else r) rs = rs"
  by (induction rs) auto

text \<open>
  \<open>RequeueDead\<close> when no statement fails: a dead-lettered message becomes a fresh queued one
  with its content kept and the worker is woken; any other id is an error that changes nothing.
\<close>

theorem RequeueDead_spec:
  assumes "queue_inv s" and "faults s = []" and "RequeueDead mid s = (r, s')"
  shows "if phase_of mid s = DeadLettered
         then r = Inr () \<and> notify s' \<and> (\<exists>row row'. row_of mid s = Some row \<and> row_of mid s' = Some row' \<and>
                row' = (new_row (q_created_at row) mid (q_sender row) (q_to row) (q_data row))
                         \<lparr>q_permanent := q_permanent row\<rparr>)
         else r = Inl (Errorf (''message '' @ mid @ '' is not in dead state'')) \<and> s' = s"
proof (cases "phase_of mid s = DeadLettered")
  case True
  then obtain row where row: "row_of mid s = Some row" "q_status row = StatusDead"
    by (auto simp: phase_of_def split: option.splits if_splits)
  note mem = row_of_id [OF row(1)]
  let ?P = "\<lambda>r. q_id r = mid \<and> q_status r = StatusDead"
  let ?g = "\<lambda>r. r\<lparr>q_status := StatusQueued, q_attempts := 0, q_next_attempt := 0,
             q_last_error := [], q_lease_until := 0, q_worker_id := []\<rparr>"
  have "filter ?P (queue_messages s) \<noteq> []" using mem row by (auto simp: filter_empty_conv)
  then have r: "r = Inr ()" "s' = wake (snd (update_queue ?P ?g s))"
    using assms(2,3) by (auto simp: RequeueDead_def sql_no_fault update_queue_def split: if_splits)
  have "row_of mid s' = Some (?g row)"
    using row_of_update [of ?g mid ?P s] row mem r by simp
  moreover have "?g row = (new_row (q_created_at row) mid (q_sender row) (q_to row) (q_data row))
                         \<lparr>q_permanent := q_permanent row\<rparr>"
    using mem by (simp add: new_row_def)
  ultimately show ?thesis using True r row by simp
next
  case False
  then have "\<not> (q_id x = mid \<and> q_status x = StatusDead)" if "x \<in> set (queue_messages s)" for x
    using that unique_row [of "queue_messages s" x] row_of_id [of mid s] assms(1) row_of_None [of mid s]
    by (auto simp: phase_of_def queue_inv_def split: option.splits if_splits)
  then show ?thesis
    using assms(2,3) False
    by (auto simp: RequeueDead_def sql_no_fault update_queue_def filter_empty_conv map_if_not_mem)
qed

lemma RequeueDead_spec_witness:
  "\<exists>s'. RequeueDead ''m1'' (demo_store [(demo_row ''m1'' 1)\<lparr>q_status := StatusDead\<rparr>]) = (Inr (), s') \<and>
        phase_of ''m1'' (demo_store [(demo_row ''m1'' 1)\<lparr>q_status := StatusDead\<rparr>]) = DeadLettered \<and> notify s'"
proof -
  let ?s = "demo_store [(demo_row ''m1'' 1)\<lparr>q_status := StatusDead\<rparr>]"
  have "queue_inv ?s" by (simp add: queue_inv_def demo_defs wf_row_def)
  moreover have "phase_of ''m1'' ?s = DeadLettered" by (simp add: phase_of_def row_of_def)
  moreover obtain r s' where "RequeueDead ''m1'' ?s = (r, s')" by fastforce
  ultimately show ?thesis using RequeueDead_spec [of ?s "''m1''" r s'] by auto
qed

text \<open>
  \<open>Stats\<close> accounts for the whole table: queued and dead rows together are all rows, and the due
  ones are among the queued.
\<close>

theorem Stats_accounts:
  assumes "queue_inv s" and "Stats now s = (Inr st, s')"
  shows "Queued st + Dead st = int (length (queue_messages s)) \<and> 0 \<le> Due st \<and> Due st \<le> Queued st \<and>
         queue_messages s' = queue_messages s"
proof -
  have "\<exists>fs1 fs2. s' = s\<lparr>faults := fs1\<rparr> \<and>
      Queued st = int (length (filter (\<lambda>r. q_status r = StatusQueued) (queue_messages s))) \<and>
      Due st = int (length (filter (row_due (now div 1000000)) (queue_messages s))) \<and>
      Dead st = int (length (filter (\<lambda>r. q_status r = StatusDead) (queue_messages s)))"
    using assms(2)
    by (auto simp: Stats_def count_rows_def UnixMilli_def split: prod.splits sum.splits dest!: select_Inr)
  moreover have "length (filter (\<lambda>r. q_status r = StatusQueued) rs) + length (filter (\<lambda>r. q_status r = StatusDead) rs)
      = length rs" if "list_all wf_row rs" for rs
    using that by (induction rs) (auto simp: wf_row_def)
  moreover have "length (filter (row_due t) rs) \<le> length (filter (\<lambda>r. q_status r = StatusQueued) rs)" for t rs
    by (induction rs) (auto simp: row_due_def)
  ultimately show ?thesis
    using assms(1) by (auto simp: queue_inv_def simp flip: of_nat_add)
qed

lemma Stats_accounts_witness:
  "\<exists>st s'. Stats 7 (demo_store [demo_row ''m1'' 1]) = (Inr st, s') \<and> Queued st + Dead st = 1"
proof -
  have "queue_inv (demo_store [demo_row ''m1'' 1])" by (rule demo_inv) simp_all
  moreover obtain st s' where "Stats 7 (demo_store [demo_row ''m1'' 1]) = (Inr st, s')"
    by (simp add: Stats_def count_rows_def sql_def select_def)
  ultimately show ?thesis using Stats_accounts [of _ 7 st s'] by fastforce
qed


section \<open>Two consequences of how leases are kept\<close>

text \<open>
  The candidate query of \<open>NextDue\<close> does not look at leases. While the oldest due rows, as many
  as the limit, are leased, the call returns nothing, however many younger rows nobody holds.
\<close>

theorem NextDue_head_of_line:
  assumes "queue_inv s" and "faults s = []"
    and "\<forall>r \<in> set (due_rows (now div 1000000) (eff_limit limit) s). \<not> lease_free (now div 1000000) r"
  shows "fst (NextDue now limit s) = Inr []"
  using assms by (simp add: NextDue_ok queue_inv_def Let_def filter_empty_conv)

lemma NextDue_head_of_line_witness:
  "fst (NextDue 0 1 (demo_store [(demo_row ''m1'' 1)\<lparr>q_lease_until := 9, q_worker_id := ''w0''\<rparr>, demo_row ''m2'' 2]))
     = Inr [] \<and> row_due 0 (demo_row ''m2'' 2) \<and> lease_free 0 (demo_row ''m2'' 2)"
proof -
  let ?s = "demo_store [(demo_row ''m1'' 1)\<lparr>q_lease_until := 9, q_worker_id := ''w0''\<rparr>, demo_row ''m2'' 2]"
  have "queue_inv ?s" by (simp add: queue_inv_def demo_defs wf_row_def)
  moreover have "\<forall>r \<in> set (due_rows (0 div 1000000) (eff_limit 1) ?s). \<not> lease_free (0 div 1000000) r"
    by (simp add: due_rows_def row_due_def lease_free_def)
  ultimately show ?thesis using NextDue_head_of_line [of ?s 0 1] by (simp add: row_due_def lease_free_def)
qed

lemma Persist_ok: "faults s = [] \<Longrightarrow> fst (Persist m s) = Inr ()"
  by (simp add: Persist_def Let_def sql_no_fault update_queue_def)

text \<open>
  \<open>Persist\<close> gives up the lease. After a worker has saved the progress of a message whose retry
  time has come or is unset, the row is free: the next \<open>NextDue\<close> that looks at enough rows hands it
  out at once, to whichever worker asks.
\<close>

theorem Persist_frees_row:
  assumes "queue_inv s" and "faults s = []" and "row_of (ID m) s = Some row" and "q_status row = StatusQueued"
    and "To m \<noteq> []" and "NextAttempt m = None" and "Persist m s = (r, s1)"
    and "int (length (queue_messages s)) \<le> eff_limit limit" and "w \<noteq> []"
  shows "\<exists>ms s2 m'. NextDue now limit (s1\<lparr>instance_id := w\<rparr>) = (Inr ms, s2) \<and> m' \<in> set ms \<and>
           ID m' = ID m \<and> To m' = To m"
proof -
  let ?g = "\<lambda>r. r\<lparr>q_to := To m, q_permanent := Permanent m, q_attempts := Attempts m,
     q_next_attempt := 0, q_last_error := LastError m, q_lease_until := 0, q_worker_id := []\<rparr>"
  let ?s1 = "s1\<lparr>instance_id := w\<rparr>" and ?t = "now div 1000000"
  have s1: "s1 = snd (update_queue (\<lambda>r. q_id r = ID m) ?g s)"
    using assms(2,5-7) by (simp add: Persist_def sql_no_fault update_queue_def)
  have row: "row_of (ID m) s1 = Some (?g row)"
    using row_of_update [of ?g "ID m" "\<lambda>r. q_id r = ID m" s] row_of_id [OF assms(3)] assms(3) s1 by simp
  have inv: "queue_inv ?s1"
    using Persist_inv [OF assms(1), of m] assms(7,9) by (simp add: queue_inv_def)
  have "int (length (filter (row_due ?t) (queue_messages ?s1))) \<le> eff_limit limit"
  proof -
    have "length (queue_messages s1) = length (queue_messages s)" by (simp add: s1 update_queue_def)
    then have "length (filter (row_due ?t) (queue_messages ?s1)) \<le> length (queue_messages s)"
      using length_filter_le [of "row_due ?t" "queue_messages s1"] by simp
    with assms(8) show ?thesis by linarith
  qed
  moreover have "row_due ?t (?g row)" "lease_free ?t (?g row)"
    using assms(4) by (simp_all add: row_due_def lease_free_def)
  moreover have "?g row \<in> set (queue_messages ?s1)" using row_of_id [OF row] by simp
  moreover have "faults ?s1 = []" using assms(2) by (simp add: s1 update_queue_def)
  ultimately obtain ms s2 where "NextDue now limit ?s1 = (Inr ms, s2)" "scanMessage (?g row) \<in> set ms"
    using NextDue_redelivers_core [OF inv, of "?g row" now limit] by blast
  moreover have "ID (scanMessage (?g row)) = ID m" "To (scanMessage (?g row)) = To m"
    using row_of_id [OF assms(3)] by (simp_all add: scanMessage_def)
  ultimately show ?thesis by blast
qed

lemma Persist_frees_row_witness:
  "\<exists>m s1 ms s2 m'. Persist m (demo_store [(demo_row ''m1'' 1)\<lparr>q_lease_until := 9, q_worker_id := ''w0''\<rparr>]) = (Inr (), s1) \<and>
     NextDue 0 5 (s1\<lparr>instance_id := ''w2''\<rparr>) = (Inr ms, s2) \<and> m' \<in> set ms \<and> ID m' = ID m"
proof -
  let ?row = "(demo_row ''m1'' 1)\<lparr>q_lease_until := 9, q_worker_id := ''w0''\<rparr>"
  let ?s = "demo_store [?row]" and ?m = "scanMessage (demo_row ''m1'' 1)"
  have "queue_inv ?s" by (simp add: queue_inv_def demo_defs wf_row_def)
  moreover have "row_of (ID ?m) ?s = Some ?row" "To ?m \<noteq> []" "NextAttempt ?m = None"
    by (simp_all add: row_of_def scanMessage_def demo_row_def new_row_def timeFromMS_def)
  moreover obtain s1 where e: "Persist ?m ?s = (Inr (), s1)"
    using Persist_ok [of ?s ?m] by (cases "Persist ?m ?s") auto
  ultimately have "\<exists>ms s2 m'. NextDue 0 5 (s1\<lparr>instance_id := ''w2''\<rparr>) = (Inr ms, s2) \<and> m' \<in> set ms \<and> ID m' = ID ?m"
    using Persist_frees_row [OF _ _ _ _ _ _ e, of ?row 5 "''w2''" 0] by fastforce
  with e show ?thesis by blast
qed

end
