(* ===== verification/Json.thy ===== *)
theory Json
  imports Store_Base
begin

text \<open>
  The JSON text of a list of strings, as \<open>toJSON\<close> and \<open>fromJSON\<close> of \<open>internal/storage/storage.go\<close>
  write and read it (\<open>to_json\<close>, \<open>allowed_from\<close>): \<open>encoding/json\<close> with its default escaping of
  \<open><\<close>, \<open>>\<close> and \<open>&\<close>. Bytes from 128 on are part of valid UTF-8 text and pass unchanged. The reader
  covers what the writer produces, without white space between tokens.
\<close>

section \<open>Strings\<close>

definition json_escape :: "char \<Rightarrow> string" where
  "json_escape c =
     (let n = of_char c :: nat in
      if c = CHR 0x22 then [CHR 0x5C, CHR 0x22]
      else if c = CHR 0x5C then [CHR 0x5C, CHR 0x5C]
      else if c = CHR 0x08 then [CHR 0x5C, CHR ''b'']
      else if c = CHR 0x0C then [CHR 0x5C, CHR ''f'']
      else if c = LF then [CHR 0x5C, CHR ''n'']
      else if c = CR then [CHR 0x5C, CHR ''r'']
      else if c = TAB then [CHR 0x5C, CHR ''t'']
      else if n < 32 \<or> c = CHR ''<'' \<or> c = CHR ''>'' \<or> c = CHR ''&''
      then [CHR 0x5C, CHR ''u'', CHR ''0'', CHR ''0'', hex_digit (n div 16), hex_digit (n mod 16)]
      else [c])"

definition json_string :: "string \<Rightarrow> string" where
  "json_string s = CHR 0x22 # concat (map json_escape s) @ [CHR 0x22]"

definition hex_val :: "char \<Rightarrow> nat option" where
  "hex_val c = (let n = of_char c :: nat in
     if 48 \<le> n \<and> n \<le> 57 then Some (n - 48)
     else if 97 \<le> n \<and> n \<le> 102 then Some (n - 87)
     else if 65 \<le> n \<and> n \<le> 70 then Some (n - 55) else None)"

text \<open>What follows a backslash: the character it stands for and the rest of the text.\<close>

definition unescape :: "string \<Rightarrow> (char \<times> string) option" where
  "unescape s = (case s of
       [] \<Rightarrow> None
     | c # r \<Rightarrow>
        if c = CHR 0x22 \<or> c = CHR 0x5C \<or> c = CHR ''/'' then Some (c, r)
        else if c = CHR ''b'' then Some (CHR 0x08, r)
        else if c = CHR ''f'' then Some (CHR 0x0C, r)
        else if c = CHR ''n'' then Some (LF, r)
        else if c = CHR ''r'' then Some (CR, r)
        else if c = CHR ''t'' then Some (TAB, r)
        else if c = CHR ''u'' then
          (case r of
             a # b # x # y # r' \<Rightarrow>
               (case (hex_val a, hex_val b, hex_val x, hex_val y) of
                  (Some i, Some j, Some h, Some l) \<Rightarrow>
                    if i = 0 \<and> j = 0 \<and> 16 * h + l < 128 then Some (char_of (16 * h + l), r') else None
                | _ \<Rightarrow> None)
           | _ \<Rightarrow> None)
        else None)"

lemma unescape_shorter: "unescape s = Some (c, r) \<Longrightarrow> length r < length s"
  by (auto simp: unescape_def split: list.splits if_splits option.splits nat.splits)

function dec_string :: "string \<Rightarrow> (string \<times> string) option" where
  "dec_string [] = None"
| "dec_string (c # r) =
     (if c = CHR 0x22 then Some ([], r)
      else if c = CHR 0x5C then
        (case unescape r of None \<Rightarrow> None
         | Some (d, r') \<Rightarrow> map_option (apfst (Cons d)) (dec_string r'))
      else if (of_char c :: nat) < 32 then None
      else map_option (apfst (Cons c)) (dec_string r))"
  by pat_completeness auto
termination
  by (relation "measure length") (auto dest: unescape_shorter)

section \<open>Lists of strings\<close>

definition toJSON_list :: "string list \<Rightarrow> string" where
  "toJSON_list xs = ''['' @ Join (map json_string xs) '','' @ '']''"

lemma dec_string_shorter: "dec_string s = Some (x, r) \<Longrightarrow> length r < length s"
  by (induction s arbitrary: x r rule: dec_string.induct)
    (fastforce split: if_splits option.splits prod.splits dest: unescape_shorter)+

text \<open>The elements after \<open>[\<close>, at least one.\<close>

function dec_elems :: "string \<Rightarrow> (string list \<times> string) option" where
  "dec_elems s = (case s of
       [] \<Rightarrow> None
     | q # t \<Rightarrow> if q \<noteq> CHR 0x22 then None else
        (case dec_string t of
           None \<Rightarrow> None
         | Some (x, []) \<Rightarrow> None
         | Some (x, c # r) \<Rightarrow>
             if c = CHR '','' then map_option (apfst (Cons x)) (dec_elems r)
             else if c = CHR '']'' then Some ([x], r) else None))"
  by pat_completeness auto
termination
  by (relation "measure length") (auto dest: dec_string_shorter)

declare dec_elems.simps [simp del]

definition fromJSON_list :: "string \<Rightarrow> string list option" where
  "fromJSON_list raw =
     (if raw = [] then Some []
      else if raw = ''null'' then Some []
      else if hd raw \<noteq> CHR ''['' then None
      else if tl raw = '']'' then Some []
      else case dec_elems (tl raw) of Some (xs, []) \<Rightarrow> Some xs | _ \<Rightarrow> None)"

section \<open>What is written is what is read\<close>

lemma hex_val_digit: "n < 16 \<Longrightarrow> hex_val (hex_digit n) = Some n"
  by (auto simp: hex_val_def hex_digit_def Let_def)

lemma unescape_u:
  assumes "h < 8" and "l < 16"
  shows "unescape (CHR ''u'' # CHR ''0'' # CHR ''0'' # hex_digit h # hex_digit l # r) = Some (char_of (16 * h + l), r)"
proof -
  have "hex_val CHR ''0'' = Some 0" by (simp add: hex_val_def)
  moreover have "16 * h + l < 128" using assms by simp
  ultimately show ?thesis
    using assms by (simp add: unescape_def hex_val_digit del: of_char_of)
qed

lemma unescape_u_char:
  assumes "(of_char c :: nat) < 128"
  shows "unescape (CHR ''u'' # CHR ''0'' # CHR ''0'' # hex_digit (of_char c div 16) # hex_digit (of_char c mod 16) # r)
    = Some (c, r)"
proof -
  define n where "n = (of_char c :: nat)"
  have "char_of (16 * (n div 16) + n mod 16) = c" by (simp add: n_def)
  then show ?thesis using unescape_u [of "n div 16" "n mod 16" r] assms unfolding n_def by simp
qed

lemma unescape_simple:
  "unescape (CHR 0x22 # r) = Some (CHR 0x22, r)" "unescape (CHR 0x5C # r) = Some (CHR 0x5C, r)"
  "unescape (CHR ''b'' # r) = Some (CHR 0x08, r)" "unescape (CHR ''f'' # r) = Some (CHR 0x0C, r)"
  "unescape (CHR ''n'' # r) = Some (LF, r)" "unescape (CHR ''r'' # r) = Some (CR, r)"
  "unescape (CHR ''t'' # r) = Some (TAB, r)"
  by (simp_all add: unescape_def)

lemma json_escape_u:
  assumes "json_escape c = [CHR 0x5C, CHR ''u'', CHR ''0'', CHR ''0'', hex_digit (of_char c div 16), hex_digit (of_char c mod 16)]"
    and "(of_char c :: nat) < 128"
  shows "dec_string (json_escape c @ r) = map_option (apfst (Cons c)) (dec_string r)"
  using assms(1) unescape_u_char [OF assms(2), of r] by simp

lemma dec_string_escape: "dec_string (json_escape c @ r) = map_option (apfst (Cons c)) (dec_string r)"
proof (cases "c \<in> {CHR 0x22, CHR 0x5C, CHR 0x08, CHR 0x0C, LF, CR, TAB}")
  case True
  then show ?thesis by (auto simp: json_escape_def unescape_simple)
next
  case other: False
  show ?thesis
  proof (cases "(of_char c :: nat) < 32 \<or> c = CHR ''<'' \<or> c = CHR ''>'' \<or> c = CHR ''&''")
    case True
    then have "(of_char c :: nat) < 128" by auto
    moreover have "json_escape c = [CHR 0x5C, CHR ''u'', CHR ''0'', CHR ''0'', hex_digit (of_char c div 16), hex_digit (of_char c mod 16)]"
      unfolding json_escape_def Let_def using True other by (simp only: insert_iff empty_iff de_Morgan_disj simp_thms if_True if_False)
    ultimately show ?thesis by (rule json_escape_u [rotated])
  next
    case False
    then have "json_escape c = [c]"
      unfolding json_escape_def Let_def using other by (simp only: insert_iff empty_iff de_Morgan_disj simp_thms if_True if_False)
    then show ?thesis using False other by simp
  qed
qed

lemma dec_string_json: "dec_string (concat (map json_escape s) @ CHR 0x22 # r) = Some (s, r)"
  by (induction s) (simp_all add: dec_string_escape)

lemma dec_elems_json:
  "xs \<noteq> [] \<Longrightarrow> dec_elems (Join (map json_string xs) '','' @ CHR '']'' # r) = Some (xs, r)"
proof (induction xs)
  case (Cons x xs)
  then show ?case
    by (cases "xs = []") (subst dec_elems.simps, simp add: json_string_def [of x] dec_string_json Join_Cons)+
qed simp

theorem fromJSON_toJSON: "fromJSON_list (toJSON_list xs) = Some xs"
proof (cases "xs = []")
  case False
  then obtain y ys where xs: "xs = y # ys" by (cases xs) auto
  have "\<exists>t. Join (map json_string xs) '','' = CHR 0x22 # t"
    unfolding xs by (cases ys) (simp_all add: json_string_def Join_Cons)
  then show ?thesis using dec_elems_json [OF False, of "[]"] by (auto simp: fromJSON_list_def toJSON_list_def)
qed (simp add: fromJSON_list_def toJSON_list_def)

lemma toJSON_list_inj: "toJSON_list a = toJSON_list b \<longleftrightarrow> a = b"
  by (metis fromJSON_toJSON option.inject)

end
