(* ===== verification/Store_Upsert.thy ===== *)
theory Store_Upsert
  imports Store_Base
begin

text \<open>
  What \<open>UpsertAccounts\<close> and \<open>UpsertDKIM\<close> have in common: tables looked up by a key, and the loop that
  brings a list of seeds into such a table while it builds the summary.
\<close>

section \<open>The loop\<close>

datatype change = ChCreated | ChUpdated | ChUnchanged

fun record_change :: "change \<Rightarrow> string \<Rightarrow> upsert_summary \<Rightarrow> upsert_summary" where
  "record_change ChCreated k u = u\<lparr>Created := Created u @ [k]\<rparr>"
| "record_change ChUpdated k u = u\<lparr>Updated := Updated u @ [k]\<rparr>"
| "record_change ChUnchanged k u = u\<lparr>Unchanged := Unchanged u @ [k]\<rparr>"

text \<open>\<open>(UpsertSummary, error)\<close>: an error comes with the summary of the rounds before it.\<close>

fun upsert_loop ::
    "('x \<Rightarrow> store \<Rightarrow> (change \<times> string) res \<times> store) \<Rightarrow> 'x list \<Rightarrow> upsert_summary \<Rightarrow> store \<Rightarrow>
     (upsert_summary \<times> go_error option) \<times> store" where
  "upsert_loop one [] summary s = ((summary, None), s)"
| "upsert_loop one (x # xs) summary s =
     (case one x s of
        (Inl err, s1) \<Rightarrow> ((summary, Some err), s1)
      | (Inr (c, k), s1) \<Rightarrow> upsert_loop one xs (record_change c k summary) s1)"

lemma Total_record_change [simp]: "Total (record_change c k u) = Suc (Total u)"
  by (cases c) (simp_all add: Total_def)

lemma upsert_loop_inv:
  assumes "I s" and "\<And>x s. I s \<Longrightarrow> I (snd (one x s))"
  shows "I (snd (upsert_loop one xs summary s))"
  using assms(1)
proof (induction xs arbitrary: summary s)
  case (Cons x xs)
  show ?case using Cons assms(2) [of s x] by (auto split: prod.split sum.split)
qed simp

section \<open>Tables with a key\<close>

text \<open>
  What the accounts and DKIM tables offer: a lookup by key, a statement that stores a row under its
  key and one that deletes a key. The laws are those of a finite map; they do not depend on which
  statements fail.
\<close>

locale keyed_table =
  fixes get :: "string \<Rightarrow> store \<Rightarrow> 'r option" and key :: "'r \<Rightarrow> string"
    and put :: "'r \<Rightarrow> store \<Rightarrow> unit res \<times> store" and del :: "string \<Rightarrow> store \<Rightarrow> unit res \<times> store"
  assumes get_faults: "get k (s\<lparr>faults := fs\<rparr>) = get k s"
    and get_put: "get k (snd (put r s)) = (if k = key r then Some r else get k s)"
    and get_del: "get k (snd (del k' s)) = (if k = k' then None else get k s)"
    and put_ok: "fst (put r s) = Inr ()" and del_ok: "fst (del k s) = Inr ()"
begin

lemma sql_get: "sql (select (get k)) s = (Inr v, s1) \<Longrightarrow> v = get k s \<and> (\<forall>k'. get k' s1 = get k' s)"
  using get_faults by (auto dest!: select_Inr)

lemma sql_get_frame: "sql (select (get k)) s = (r, s1) \<Longrightarrow> get k' s1 = get k' s"
  using get_faults select_inv(1) [of "get k" s r s1] by auto

lemma sql_put_Inr: "sql (put r) s = (Inr u, s1) \<Longrightarrow> get k s1 = (if k = key r then Some r else get k s)"
  by (erule sql_cases) (use get_put get_faults in \<open>auto dest!: arg_cong [where f = snd]\<close>)

lemma sql_put_Inl: "sql (put r) s = (Inl e, s1) \<Longrightarrow> get k s1 = get k s"
  by (erule sql_cases) (use put_ok get_faults in \<open>auto dest!: arg_cong [where f = fst]\<close>)

lemma sql_put_other: "sql (put r) s = (x, s1) \<Longrightarrow> k \<noteq> key r \<Longrightarrow> get k s1 = get k s"
  using sql_put_Inr sql_put_Inl by (cases x) auto

lemma sql_del_Inr: "sql (del k') s = (Inr u, s1) \<Longrightarrow> get k s1 = (if k = k' then None else get k s)"
  by (erule sql_cases) (use get_del get_faults in \<open>auto dest!: arg_cong [where f = snd]\<close>)

lemma sql_del_Inl: "sql (del k') s = (Inl e, s1) \<Longrightarrow> get k s1 = get k s"
  by (erule sql_cases) (use del_ok get_faults in \<open>auto dest!: arg_cong [where f = fst]\<close>)

end

lemma find_map_key:
  "(\<And>x. key (g x) = key x) \<Longrightarrow>
   find (\<lambda>x. key x = k) (map (\<lambda>x. if key x = k' then g x else x) xs) =
   map_option (\<lambda>x. if k = k' then g x else x) (find (\<lambda>x. key x = k) xs)"
  by (induction xs) auto

lemma find_append: "find P (xs @ ys) = (case find P xs of None \<Rightarrow> find P ys | Some x \<Rightarrow> Some x)"
  by (induction xs) auto

lemma find_filter_neq:
  "find (\<lambda>x. key x = k) (filter (\<lambda>x. key x \<noteq> k') xs) = (if k = k' then None else find (\<lambda>x. key x = k) xs)"
  by (induction xs) auto

lemma find_key_in: "find (\<lambda>x. key x = k) xs = Some y \<Longrightarrow> key y = k \<and> y \<in> set xs"
  by (auto simp: find_Some_iff)

lemma find_key_None: "find (\<lambda>x. key x = k) xs = None \<longleftrightarrow> k \<notin> key ` set xs"
  by (auto simp: find_None_iff)

section \<open>Bringing seeds into a table\<close>

text \<open>
  The contract of one round: on success the row of the seed's key satisfies the seed and no other
  row changed; on an error nothing changed; a seed that the table satisfies already is left alone.
\<close>

locale upserting =
  fixes one :: "'x \<Rightarrow> store \<Rightarrow> (change \<times> string) res \<times> store" and name :: "'x \<Rightarrow> string"
    and get :: "string \<Rightarrow> store \<Rightarrow> 'r option" and sat :: "'x \<Rightarrow> 'r \<Rightarrow> bool" and valid :: "'x \<Rightarrow> bool"
  assumes one_ok: "one x s = (Inr (c, k), s1) \<Longrightarrow> valid x \<and> k = name x \<and> (\<exists>r. get k s1 = Some r \<and> sat x r)"
    and one_frame: "one x s = (Inr (c, k), s1) \<Longrightarrow> k' \<noteq> name x \<Longrightarrow> get k' s1 = get k' s"
    and one_err: "one x s = (Inl e, s1) \<Longrightarrow> get k' s1 = get k' s"
    and one_same: "valid x \<Longrightarrow> faults s = [] \<Longrightarrow> get (name x) s = Some r \<Longrightarrow> sat x r \<Longrightarrow>
      one x s = (Inr (ChUnchanged, name x), s)"
begin

lemma loop_frame:
  "upsert_loop one xs u s = ((u', e), s') \<Longrightarrow> k \<notin> name ` set xs \<Longrightarrow> get k s' = get k s"
proof (induction xs arbitrary: u s)
  case (Cons x xs)
  then show ?case using one_frame one_err by (fastforce split: prod.splits sum.splits)
qed simp

lemma loop_sat:
  assumes "upsert_loop one (pre @ x # post) u s = ((u', None), s')" and "name x \<notin> name ` set post"
  shows "valid x \<and> (\<exists>r. get (name x) s' = Some r \<and> sat x r)"
  using assms
proof (induction pre arbitrary: u s)
  case Nil
  then obtain c k s1 where one: "one x s = (Inr (c, k), s1)"
      and rest: "upsert_loop one post (record_change c k u) s1 = ((u', None), s')"
    by (auto split: prod.splits sum.splits)
  show ?case using one_ok [OF one] loop_frame [OF rest Nil.prems(2)] by auto
next
  case (Cons p pre)
  then show ?case by (auto split: prod.splits sum.splits)
qed

lemma loop_total: "upsert_loop one xs u s = ((u', None), s') \<Longrightarrow> Total u' = Total u + length xs"
  by (induction xs arbitrary: u s) (fastforce split: prod.splits sum.splits)+

lemma loop_valid: "upsert_loop one xs u s = ((u', None), s') \<Longrightarrow> x \<in> set xs \<Longrightarrow> valid x"
  by (induction xs arbitrary: u s) (auto split: prod.splits sum.splits dest: one_ok)

lemma loop_all_same:
  assumes "faults s = []" and "\<And>x. x \<in> set xs \<Longrightarrow> valid x \<and> (\<exists>r. get (name x) s = Some r \<and> sat x r)"
  shows "upsert_loop one xs u s = ((u\<lparr>Unchanged := Unchanged u @ map name xs\<rparr>, None), s)"
  using assms(2)
proof (induction xs arbitrary: u)
  case (Cons x xs)
  from Cons.prems [of x] have "one x s = (Inr (ChUnchanged, name x), s)" using one_same assms(1) by auto
  then show ?case using Cons by simp
qed simp

text \<open>A second run of the same seeds changes nothing and reports every one of them unchanged.\<close>

lemma loop_idem:
  assumes "upsert_loop one xs empty_summary s = ((u', None), s')" and "distinct (map name xs)" and "faults s' = []"
  shows "upsert_loop one xs empty_summary s' = ((empty_summary\<lparr>Unchanged := map name xs\<rparr>, None), s')"
proof -
  have "valid x \<and> (\<exists>r. get (name x) s' = Some r \<and> sat x r)" if "x \<in> set xs" for x
  proof -
    from that obtain pre post where xs: "xs = pre @ x # post" by (auto dest: split_list)
    with assms(2) have "name x \<notin> name ` set post" by auto
    with loop_sat assms(1) xs show ?thesis by blast
  qed
  from loop_all_same [OF assms(3) this] show ?thesis by (simp add: empty_summary_def)
qed

end

end
