(* ===== verification/Store_Accounts.thy ===== *)
theory Store_Accounts
  imports Json Store_Upsert
begin

text \<open>
  Accounts of \<open>internal/storage/accounts.go\<close>: password hashing, lookup, seeding, editing, and who
  may send as whom. Package bcrypt is not part of the repository: its two functions are the
  arguments \<open>gen\<close> (\<open>GenerateFromPassword\<close>, which draws a salt) and \<open>cmp\<close>
  (\<open>CompareHashAndPassword\<close> returns nil).
\<close>

section \<open>Passwords\<close>

record bcrypt =
  GenerateFromPassword :: "string \<Rightarrow> string res"
  CompareHashAndPassword :: "string \<Rightarrow> string \<Rightarrow> bool"

definition HashPassword :: "bcrypt \<Rightarrow> string \<Rightarrow> string res" where
  "HashPassword bc plain =
     (if plain = [] then Inl (Errorf ''password must not be empty'')
      else case GenerateFromPassword bc plain of Inl err \<Rightarrow> Inl err | Inr h \<Rightarrow> Inr h)"

definition VerifyPassword :: "bcrypt \<Rightarrow> string \<Rightarrow> string \<Rightarrow> bool" where
  "VerifyPassword bc hash plain = CompareHashAndPassword bc hash plain"

text \<open>The documented law of bcrypt: a generated hash matches its password.\<close>

definition bcrypt_ok :: "bcrypt \<Rightarrow> bool" where
  "bcrypt_ok bc \<longleftrightarrow> (\<forall>p h. GenerateFromPassword bc p = Inr h \<longrightarrow> CompareHashAndPassword bc h p)"

section \<open>Operations\<close>

definition account_row :: "string \<Rightarrow> store \<Rightarrow> account option" where
  "account_row email s = find (\<lambda>a. Email a = email) (accounts s)"

text \<open>\<open>(Account, bool, error)\<close>: \<^term>\<open>Inr None\<close> is \<open>(Account{}, false, nil)\<close>.\<close>

definition GetAccount :: "string \<Rightarrow> store \<Rightarrow> account option res \<times> store" where
  "GetAccount email0 s =
     (let email = ToLower (TrimSpace email0) in
      sql (select (account_row email)) s)"

definition ListAccounts :: "store \<Rightarrow> account list res \<times> store" where
  "ListAccounts s = sql (select (\<lambda>s. sort_key (\<lambda>a. map of_char (Email a) :: nat list) (accounts s))) s"

fun normalize_loop :: "string list \<Rightarrow> string list \<Rightarrow> string list \<Rightarrow> string list" where
  "normalize_loop seen out [] = out"
| "normalize_loop seen out (f0 # extra) =
     (let f = ToLower (TrimSpace f0) in
      if f = [] \<or> f \<in> set seen then normalize_loop seen out extra
      else normalize_loop (f # seen) (out @ [f]) extra)"

definition normalizeAllowed :: "string \<Rightarrow> string list \<Rightarrow> string list" where
  "normalizeAllowed email extra = normalize_loop [email] [email] extra"

definition jsonEqual :: "string list \<Rightarrow> string list \<Rightarrow> bool" where
  "jsonEqual a b = (if length a \<noteq> length b then False else toJSON_list a = toJSON_list b)"

definition AllowsFrom :: "account \<Rightarrow> string \<Rightarrow> bool" where
  "AllowsFrom a from0 = (let from = ToLower (TrimSpace from0) in from \<in> set (AllowedFrom a))"

text \<open>
  The upsert statement; its two spellings (\<open>ON DUPLICATE KEY\<close>, \<open>ON CONFLICT\<close>) do the same in
  their dialects.
\<close>

definition put_account :: "account \<Rightarrow> store \<Rightarrow> unit res \<times> store" where
  "put_account a s =
     (Inr (), s\<lparr>accounts :=
        (if Email a \<in> set (map Email (accounts s))
         then map (\<lambda>x. if Email x = Email a
                       then x\<lparr>PasswordHash := PasswordHash a, AllowedFrom := AllowedFrom a\<rparr> else x) (accounts s)
         else accounts s @ [a])\<rparr>)"

text \<open>
  One round of the loop of \<open>UpsertAccounts\<close>: under which heading of the summary the address goes.
\<close>

definition upsert_account :: "bcrypt \<Rightarrow> account_seed \<Rightarrow> store \<Rightarrow> (change \<times> string) res \<times> store" where
  "upsert_account bc seed s =
     (let email = ToLower (TrimSpace (SeedEmail seed)) in
      if email = [] then (Inl (Errorf ''account with empty email''), s)
      else if SeedPassword seed = [] then (Inl (Errorf (''account '' @ email @ '': empty password'')), s)
      else let allowed = normalizeAllowed email (SeedAllowedFrom seed) in
        case GetAccount email s of
          (Inl err, s1) \<Rightarrow> (Inl err, s1)
        | (Inr existing, s1) \<Rightarrow>
            if (case existing of None \<Rightarrow> False
                | Some a \<Rightarrow> VerifyPassword bc (PasswordHash a) (SeedPassword seed) \<and> jsonEqual (AllowedFrom a) allowed)
            then (Inr (ChUnchanged, email), s1)
            else case HashPassword bc (SeedPassword seed) of
                Inl err \<Rightarrow> (Inl (Wrapf (''account '' @ email @ '': '') err), s1)
              | Inr hash \<Rightarrow>
                  (case sql (put_account \<lparr>Email = email, PasswordHash = hash, AllowedFrom = allowed\<rparr>) s1 of
                     (Inl err, s2) \<Rightarrow> (Inl (Wrapf (''upserting account '' @ email @ '': '') err), s2)
                   | (Inr _, s2) \<Rightarrow> (Inr (if existing \<noteq> None then ChUpdated else ChCreated, email), s2)))"

definition UpsertAccounts ::
    "bcrypt \<Rightarrow> account_seed list \<Rightarrow> store \<Rightarrow> (upsert_summary \<times> go_error option) \<times> store" where
  "UpsertAccounts bc seeds s = upsert_loop (upsert_account bc) seeds empty_summary s"

definition del_account :: "string \<Rightarrow> store \<Rightarrow> unit res \<times> store" where
  "del_account email s = (Inr (), s\<lparr>accounts := filter (\<lambda>a. Email a \<noteq> email) (accounts s)\<rparr>)"

definition DeleteAccount :: "string \<Rightarrow> store \<Rightarrow> unit res \<times> store" where
  "DeleteAccount email0 s = (let email = ToLower (TrimSpace email0) in sql (del_account email) s)"

definition edit_account :: "string \<Rightarrow> (account \<Rightarrow> account) \<Rightarrow> store \<Rightarrow> unit res \<times> store" where
  "edit_account email g s =
     (Inr (), s\<lparr>accounts := map (\<lambda>a. if Email a = email then g a else a) (accounts s)\<rparr>)"

definition UpdateAccount :: "bcrypt \<Rightarrow> string \<Rightarrow> string list \<Rightarrow> string \<Rightarrow> store \<Rightarrow> unit res \<times> store" where
  "UpdateAccount bc email0 allowedFrom newPassword s =
     (let email = ToLower (TrimSpace email0) in
      case GetAccount email s of
        (Inl err, s1) \<Rightarrow> (Inl err, s1)
      | (Inr None, s1) \<Rightarrow> (Inl (Errorf (''account '' @ email @ '' not found'')), s1)
      | (Inr (Some _), s1) \<Rightarrow>
          let allowed = normalizeAllowed email allowedFrom in
          if newPassword \<noteq> [] then
            (case HashPassword bc newPassword of
               Inl err \<Rightarrow> (Inl (Wrapf (''account '' @ email @ '': '') err), s1)
             | Inr hash \<Rightarrow>
                 (case sql (edit_account email (\<lambda>a. a\<lparr>AllowedFrom := allowed, PasswordHash := hash\<rparr>)) s1 of
                    (Inl err, s2) \<Rightarrow> (Inl (Wrapf (''updating account '' @ email @ '': '') err), s2)
                  | (Inr _, s2) \<Rightarrow> (Inr (), s2)))
          else
            (case sql (edit_account email (\<lambda>a. a\<lparr>AllowedFrom := allowed\<rparr>)) s1 of
               (Inl err, s2) \<Rightarrow> (Inl (Wrapf (''updating account '' @ email @ '': '') err), s2)
             | (Inr _, s2) \<Rightarrow> (Inr (), s2)))"

lemma account_row_put:
  "account_row k (snd (put_account a s)) = (if k = Email a then Some a else account_row k s)"
proof (cases "Email a \<in> set (map Email (accounts s))")
  case True
  let ?g = "\<lambda>x. x\<lparr>PasswordHash := PasswordHash a, AllowedFrom := AllowedFrom a\<rparr>"
  have f: "find (\<lambda>x. Email x = k) (map (\<lambda>x. if Email x = Email a then ?g x else x) (accounts s)) =
      map_option (\<lambda>x. if k = Email a then ?g x else x) (find (\<lambda>x. Email x = k) (accounts s))"
    by (rule find_map_key) simp
  show ?thesis
  proof (cases "k = Email a")
    case True
    then obtain y where y: "find (\<lambda>x. Email x = k) (accounts s) = Some y"
      using \<open>Email a \<in> _\<close> find_key_None [of Email k "accounts s"] by fastforce
    have "?g y = a" using find_key_in [OF y] True by (cases y, cases a) simp
    then show ?thesis using f y \<open>Email a \<in> _\<close> True by (simp add: account_row_def put_account_def)
  next
    case False
    then show ?thesis using f \<open>Email a \<in> _\<close>
      by (simp add: account_row_def put_account_def option.map_ident)
  qed
next
  case False
  then show ?thesis
    using find_key_None [of Email "Email a" "accounts s"]
    by (auto simp: account_row_def put_account_def find_append split: option.split)
qed

interpretation acct: keyed_table account_row Email put_account del_account
  by unfold_locales
    (simp_all add: account_row_put, simp_all add: account_row_def put_account_def del_account_def find_filter_neq)

lemma GetAccount_ok:
  "GetAccount email s = (Inr v, s1) \<Longrightarrow> v = account_row (norm_addr email) s \<and> (\<forall>k. account_row k s1 = account_row k s)"
  unfolding GetAccount_def Let_def norm_addr_def [symmetric] by (rule acct.sql_get)

lemma GetAccount_frame: "GetAccount email s = (r, s1) \<Longrightarrow> account_row k s1 = account_row k s"
  unfolding GetAccount_def Let_def by (rule acct.sql_get_frame)

section \<open>Who may send as whom\<close>

lemma normalize_loop_set:
  "set (normalize_loop seen out extra) = set out \<union> (norm_addr ` set extra - {[]} - set seen)"
  by (induction seen out extra rule: normalize_loop.induct) (auto simp: Let_def norm_addr_def)

lemma normalize_loop_distinct:
  "distinct out \<Longrightarrow> set out \<subseteq> set seen \<Longrightarrow> distinct (normalize_loop seen out extra)"
  by (induction seen out extra rule: normalize_loop.induct) (auto simp: Let_def)

lemma normalize_loop_hd: "out \<noteq> [] \<Longrightarrow> normalize_loop seen out extra \<noteq> [] \<and> hd (normalize_loop seen out extra) = hd out"
  by (induction seen out extra rule: normalize_loop.induct) (auto simp: Let_def)

lemma normalize_loop_fixed:
  "(\<And>x. x \<in> set xs \<Longrightarrow> norm_addr x = x \<and> x \<noteq> [] \<and> x \<notin> set seen) \<Longrightarrow> distinct xs \<Longrightarrow>
   normalize_loop seen out xs = out @ xs"
proof (induction xs arbitrary: seen out)
  case (Cons x xs)
  have "ToLower (TrimSpace x) = x" "x \<noteq> []" "x \<notin> set seen" using Cons.prems(1) [of x] by (simp_all add: norm_addr_def)
  moreover have "normalize_loop (x # seen) (out @ [x]) xs = (out @ [x]) @ xs"
    using Cons.prems by (intro Cons.IH) auto
  ultimately show ?case by (simp add: Let_def)
qed simp

lemma set_normalizeAllowed: "set (normalizeAllowed email extra) = insert email (norm_addr ` set extra - {[]})"
  by (auto simp: normalizeAllowed_def normalize_loop_set)

lemma distinct_normalizeAllowed: "distinct (normalizeAllowed email extra)"
  by (simp add: normalizeAllowed_def normalize_loop_distinct)

lemma hd_normalizeAllowed: "normalizeAllowed email extra \<noteq> []" "hd (normalizeAllowed email extra) = email"
  using normalize_loop_hd [of "[email]"] by (simp_all add: normalizeAllowed_def)

lemma normalizeAllowed_elem: "norm_addr email = email \<Longrightarrow> f \<in> set (normalizeAllowed email extra) \<Longrightarrow> norm_addr f = f"
  by (auto simp: set_normalizeAllowed)

lemma normalizeAllowed_idem:
  assumes "norm_addr email = email"
  shows "normalizeAllowed email (normalizeAllowed email extra) = normalizeAllowed email extra"
proof -
  obtain xs where xs: "normalizeAllowed email extra = email # xs"
    using hd_normalizeAllowed [of email extra] by (metis list.collapse)
  have d: "distinct (email # xs)" using distinct_normalizeAllowed [of email extra] xs by simp
  have el: "set (email # xs) = insert email (norm_addr ` set extra - {[]})"
    using set_normalizeAllowed [of email extra] xs by simp
  have "normalize_loop [email] [email] xs = [email] @ xs"
  proof (rule normalize_loop_fixed)
    fix x assume x: "x \<in> set xs"
    with d have "x \<noteq> email" by auto
    moreover from x el have "x \<in> insert email (norm_addr ` set extra - {[]})" by (metis list.set_intros(2))
    ultimately show "norm_addr x = x \<and> x \<noteq> [] \<and> x \<notin> set [email]" by auto
  qed (use d in simp)
  moreover have "ToLower (TrimSpace email) = email" using assms by (simp only: norm_addr_def)
  ultimately show ?thesis unfolding xs by (simp add: normalizeAllowed_def)
qed

lemma jsonEqual_iff: "jsonEqual a b \<longleftrightarrow> a = b"
  by (auto simp: jsonEqual_def toJSON_list_inj)

section \<open>The invariant of the table\<close>

definition wf_account :: "account \<Rightarrow> bool" where
  "wf_account a \<longleftrightarrow> norm_addr (Email a) = Email a \<and> Email a \<noteq> [] \<and> Email a \<in> set (AllowedFrom a) \<and>
     distinct (AllowedFrom a) \<and> (\<forall>f \<in> set (AllowedFrom a). norm_addr f = f \<and> f \<noteq> [])"

definition accounts_inv :: "store \<Rightarrow> bool" where
  "accounts_inv s \<longleftrightarrow> distinct (map Email (accounts s)) \<and> list_all wf_account (accounts s)"

lemma accounts_inv_faults [simp]: "accounts_inv (s\<lparr>faults := fs\<rparr>) = accounts_inv s"
  by (simp add: accounts_inv_def)


interpretation ai: table_invariant accounts_inv
  by unfold_locales simp

lemma wf_account_new:
  "norm_addr email = email \<Longrightarrow> email \<noteq> [] \<Longrightarrow>
   wf_account \<lparr>Email = email, PasswordHash = h, AllowedFrom = normalizeAllowed email extra\<rparr>"
  by (auto simp: wf_account_def set_normalizeAllowed distinct_normalizeAllowed)

lemma map_Email_upd:
  "(\<And>a. Email (g a) = Email a) \<Longrightarrow> map Email (map (\<lambda>a. if Email a = email then g a else a) xs) = map Email xs"
  by (induction xs) auto

lemma put_account_inv:
  assumes "accounts_inv s" and "wf_account a" shows "accounts_inv (snd (put_account a s))"
proof -
  let ?g = "\<lambda>x. x\<lparr>PasswordHash := PasswordHash a, AllowedFrom := AllowedFrom a\<rparr>"
  have "wf_account (?g x)" if "Email x = Email a" for x using that assms(2) by (simp add: wf_account_def)
  then show ?thesis
    using assms map_Email_upd [of ?g "Email a" "accounts s"]
    by (auto simp: accounts_inv_def put_account_def list_all_iff simp del: map_map)
qed

lemma del_account_inv: "accounts_inv s \<Longrightarrow> accounts_inv (snd (del_account k s))"
  by (auto simp: accounts_inv_def del_account_def list_all_iff distinct_map inj_on_def)

lemma edit_account_inv:
  assumes "accounts_inv s" and "\<And>a. Email (g a) = Email a"
    and "\<And>a. wf_account a \<Longrightarrow> Email a = email \<Longrightarrow> wf_account (g a)"
  shows "accounts_inv (snd (edit_account email g s))"
  using assms map_Email_upd [of g email "accounts s"]
  by (auto simp: accounts_inv_def edit_account_def list_all_iff simp del: map_map)

lemma GetAccount_inv: "GetAccount email s = (r, s1) \<Longrightarrow> accounts_inv s \<Longrightarrow> accounts_inv s1"
  unfolding GetAccount_def Let_def by (rule ai.select_keeps)

lemma upsert_account_inv:
  assumes "accounts_inv s" shows "accounts_inv (snd (upsert_account bc seed s))"
proof -
  let ?email = "norm_addr (SeedEmail seed)"
  have put: "accounts_inv s2"
    if "sql (put_account \<lparr>Email = ?email, PasswordHash = h, AllowedFrom = normalizeAllowed ?email (SeedAllowedFrom seed)\<rparr>) s1 = (r, s2)"
      "accounts_inv s1" "?email \<noteq> []" for h r s1 s2
    using that(1,2) by (rule ai.sql_keeps') (rule put_account_inv, auto intro!: wf_account_new that(3))
  show ?thesis
    using assms
    by (auto simp: upsert_account_def Let_def norm_addr_def [symmetric] split: prod.split sum.split option.split
        dest: GetAccount_inv put)
qed

lemma UpsertAccounts_inv: "accounts_inv s \<Longrightarrow> accounts_inv (snd (UpsertAccounts bc seeds s))"
  unfolding UpsertAccounts_def by (rule upsert_loop_inv) (auto intro: upsert_account_inv)

lemma DeleteAccount_inv: "accounts_inv s \<Longrightarrow> accounts_inv (snd (DeleteAccount email s))"
  unfolding DeleteAccount_def Let_def by (erule ai.sql_keeps) (rule del_account_inv)

lemma wf_account_edit:
  "wf_account a \<Longrightarrow> Email a = e \<Longrightarrow> wf_account (a\<lparr>AllowedFrom := normalizeAllowed e extra, PasswordHash := h\<rparr>)"
  "wf_account a \<Longrightarrow> Email a = e \<Longrightarrow> wf_account (a\<lparr>AllowedFrom := normalizeAllowed e extra\<rparr>)"
  by (auto simp: wf_account_def set_normalizeAllowed distinct_normalizeAllowed)

lemma UpdateAccount_inv:
  assumes "accounts_inv s" shows "accounts_inv (snd (UpdateAccount bc email allowed pw s))"
proof -
  let ?email = "norm_addr email"
  have ed: "accounts_inv s2" if "sql (edit_account ?email g) s1 = (r, s2)" "accounts_inv s1"
    "\<And>a. Email (g a) = Email a" "\<And>a. wf_account a \<Longrightarrow> Email a = ?email \<Longrightarrow> wf_account (g a)" for g r s1 s2
    using that(1,2) by (rule ai.sql_keeps') (rule edit_account_inv, auto intro: that(3,4))
  show ?thesis
    using assms wf_account_edit
    by (auto simp: UpdateAccount_def Let_def norm_addr_def [symmetric] split: prod.split sum.split option.split
        dest!: GetAccount_inv elim!: ed)
qed


section \<open>Seeding\<close>

text \<open>A row that makes a seed true: its password verifies and its list is the seed's.\<close>

definition seed_sat :: "bcrypt \<Rightarrow> account_seed \<Rightarrow> account \<Rightarrow> bool" where
  "seed_sat bc seed a \<longleftrightarrow> Email a = norm_addr (SeedEmail seed) \<and>
     VerifyPassword bc (PasswordHash a) (SeedPassword seed) \<and>
     AllowedFrom a = normalizeAllowed (norm_addr (SeedEmail seed)) (SeedAllowedFrom seed)"

definition seed_valid :: "account_seed \<Rightarrow> bool" where
  "seed_valid seed \<longleftrightarrow> norm_addr (SeedEmail seed) \<noteq> [] \<and> SeedPassword seed \<noteq> []"

abbreviation seed_name :: "account_seed \<Rightarrow> string" where
  "seed_name seed \<equiv> norm_addr (SeedEmail seed)"

lemma account_row_Email: "account_row k s = Some a \<Longrightarrow> Email a = k"
  unfolding account_row_def by (drule find_key_in) simp

lemma upsert_account_Inr:
  assumes "upsert_account bc seed s = (Inr (c, k), s2)"
  obtains (same) a where "seed_valid seed" "k = seed_name seed" "GetAccount k s = (Inr (Some a), s2)" "c = ChUnchanged"
      "seed_sat bc seed a"
    | (put) s1 h where "seed_valid seed" "k = seed_name seed" "GenerateFromPassword bc (SeedPassword seed) = Inr h"
      "\<forall>k'. account_row k' s1 = account_row k' s"
      "sql (put_account \<lparr>Email = k, PasswordHash = h, AllowedFrom = normalizeAllowed k (SeedAllowedFrom seed)\<rparr>) s1
         = (Inr (), s2)" "c \<noteq> ChUnchanged"
proof -
  have v: "seed_valid seed" "k = seed_name seed"
    using assms
    by (auto simp: upsert_account_def Let_def seed_valid_def norm_addr_def split: prod.splits sum.splits if_splits)
  from assms v obtain ex s1 where g: "GetAccount k s = (Inr ex, s1)"
    by (auto simp: upsert_account_def Let_def norm_addr_def [symmetric] split: prod.splits sum.splits if_splits)
  show ?thesis
  proof (cases "case ex of None \<Rightarrow> False
                | Some a \<Rightarrow> VerifyPassword bc (PasswordHash a) (SeedPassword seed) \<and>
                     jsonEqual (AllowedFrom a) (normalizeAllowed k (SeedAllowedFrom seed))")
    case True
    then obtain a where ex: "ex = Some a" by (auto split: option.splits)
    then have "Email a = k" using GetAccount_ok [OF g] v account_row_Email by simp
    with True ex v have "seed_sat bc seed a" by (simp add: seed_sat_def jsonEqual_iff)
    with True ex show ?thesis using assms v g
      by (intro same [OF v]) (auto simp: upsert_account_def Let_def norm_addr_def [symmetric] seed_valid_def)
  next
    case False
    then obtain h where "GenerateFromPassword bc (SeedPassword seed) = Inr h"
      and "sql (put_account \<lparr>Email = k, PasswordHash = h, AllowedFrom = normalizeAllowed k (SeedAllowedFrom seed)\<rparr>) s1
         = (Inr (), s2)" "c \<noteq> ChUnchanged"
      using assms v g
      by (auto simp: upsert_account_def Let_def norm_addr_def [symmetric] seed_valid_def HashPassword_def
          split: prod.splits sum.splits if_splits)
    then show ?thesis using GetAccount_ok [OF g] by (intro put [OF v]) auto
  qed
qed

lemma upsert_account_Inl:
  assumes "upsert_account bc seed s = (Inl e, s2)"
  shows "account_row k s2 = account_row k s"
  using assms
  by (auto simp: upsert_account_def Let_def split: prod.splits sum.splits if_splits
      dest!: GetAccount_frame [where k = k] acct.sql_put_Inl [where k = k])

lemma acct_upserting:
  assumes "bcrypt_ok bc"
  shows "upserting (upsert_account bc) seed_name account_row (seed_sat bc) seed_valid"
proof
  fix x s c k s1 assume "upsert_account bc x s = (Inr (c, k), s1)"
  then show "seed_valid x \<and> k = seed_name x \<and> (\<exists>r. account_row k s1 = Some r \<and> seed_sat bc x r)"
  proof (cases rule: upsert_account_Inr)
    case (same a)
    then show ?thesis using GetAccount_ok [OF same(3)] by (metis norm_addr_idem)
  next
    case (put s1 h)
    then show ?thesis using acct.sql_put_Inr [OF put(5)] assms
      by (auto simp: seed_sat_def VerifyPassword_def bcrypt_ok_def)
  qed
next
  fix x s c k s1 k' assume "upsert_account bc x s = (Inr (c, k), s1)" and n: "k' \<noteq> seed_name x"
  then show "account_row k' s1 = account_row k' s"
  proof (cases rule: upsert_account_Inr)
    case (same a)
    then show ?thesis using GetAccount_frame by blast
  next
    case (put s1 h)
    then show ?thesis using acct.sql_put_other [OF put(5), of k'] n by simp
  qed
next
  fix x s e s1 k' assume "upsert_account bc x s = (Inl e, s1)"
  then show "account_row k' s1 = account_row k' s" by (rule upsert_account_Inl)
next
  fix x s r assume "seed_valid x" "faults s = []" "account_row (seed_name x) s = Some r" "seed_sat bc x r"
  then show "upsert_account bc x s = (Inr (ChUnchanged, seed_name x), s)"
    by (simp add: upsert_account_def Let_def GetAccount_def sql_no_fault select_def seed_valid_def seed_sat_def
        jsonEqual_iff norm_addr_def [symmetric])
qed


text \<open>
  Seeding. When \<open>UpsertAccounts\<close> reports no error, the account of each seed exists (the last
  seed of an address wins): its password verifies, its allow-list is the normalized list of the
  seed, no other account changed, and the summary counts every seed. Running the same seeds again
  changes nothing and reports all of them unchanged.
\<close>

theorem UpsertAccounts_seeds:
  assumes "bcrypt_ok bc" and "UpsertAccounts bc (pre @ seed # post) s = ((u, None), s')"
    and "seed_name seed \<notin> seed_name ` set post"
  shows "(\<exists>a. account_row (seed_name seed) s' = Some a \<and> seed_sat bc seed a) \<and>
         Total u = length pre + length post + 1 \<and>
         (\<forall>k. k \<notin> seed_name ` set (pre @ seed # post) \<longrightarrow> account_row k s' = account_row k s)"
proof -
  note up = acct_upserting [OF assms(1)]
  note run = assms(2) [unfolded UpsertAccounts_def]
  have "Total empty_summary = 0" by (simp add: Total_def empty_summary_def)
  then show ?thesis
    using upserting.loop_sat [OF up run assms(3)] upserting.loop_total [OF up run]
      upserting.loop_frame [OF up run] by auto
qed

definition demo_bcrypt :: bcrypt where
  "demo_bcrypt = \<lparr>GenerateFromPassword = (\<lambda>p. Inr (''$2a$'' @ p)),
                   CompareHashAndPassword = (\<lambda>h p. h = ''$2a$'' @ p)\<rparr>"

lemma demo_bcrypt_ok: "bcrypt_ok demo_bcrypt"
  by (simp add: bcrypt_ok_def demo_bcrypt_def)

definition demo_seed :: account_seed where
  "demo_seed = \<lparr>SeedEmail = '' Ann@X.org'', SeedPassword = ''pw'', SeedAllowedFrom = [''info@x.org'', ''ANN@x.org'']\<rparr>"

lemma UpsertAccounts_seeds_witness:
  "\<exists>u s' a. UpsertAccounts demo_bcrypt [demo_seed] (new_store ''sqlite'' ''w1'') = ((u, None), s') \<and>
     account_row ''ann@x.org'' s' = Some a \<and> AllowedFrom a = [''ann@x.org'', ''info@x.org'']"
proof -
  have n: "seed_name demo_seed = ''ann@x.org''" by code_simp
  have l: "normalizeAllowed ''ann@x.org'' [''info@x.org'', ''ANN@x.org''] = [''ann@x.org'', ''info@x.org'']" by code_simp
  obtain u s' where r: "UpsertAccounts demo_bcrypt [demo_seed] (new_store ''sqlite'' ''w1'') = ((u, None), s')"
    using n by (simp add: UpsertAccounts_def upsert_account_def Let_def norm_addr_def [symmetric] demo_seed_def
        GetAccount_def sql_def select_def new_store_def account_row_def HashPassword_def demo_bcrypt_def put_account_def)
  have "\<exists>a. account_row ''ann@x.org'' s' = Some a \<and> seed_sat demo_bcrypt demo_seed a"
    using UpsertAccounts_seeds [OF demo_bcrypt_ok, of "[]" demo_seed "[]"] r n by simp
  with r n l show ?thesis by (auto simp: seed_sat_def demo_seed_def)
qed

text \<open>
  C37. Seeding twice is seeding once: after a run without error, the same seeds (one per address)
  find every account as it should be. Nothing is hashed again or written.
\<close>

theorem UpsertAccounts_idempotent:
  assumes "bcrypt_ok bc" and "UpsertAccounts bc seeds s = ((u, None), s')" and "distinct (map seed_name seeds)"
    and "faults s' = []"
  shows "UpsertAccounts bc seeds s' = ((\<lparr>Created = [], Updated = [], Unchanged = map seed_name seeds\<rparr>, None), s')"
  using upserting.loop_idem [OF acct_upserting [OF assms(1)] assms(2) [unfolded UpsertAccounts_def] assms(3,4)]
  by (simp add: UpsertAccounts_def empty_summary_def)

lemma UpsertAccounts_idempotent_witness:
  "\<exists>u s'. UpsertAccounts demo_bcrypt [demo_seed] (new_store ''sqlite'' ''w1'') = ((u, None), s') \<and>
     UpsertAccounts demo_bcrypt [demo_seed] s' =
       ((\<lparr>Created = [], Updated = [], Unchanged = [''ann@x.org'']\<rparr>, None), s')"
proof -
  have n: "seed_name demo_seed = ''ann@x.org''" by code_simp
  obtain u s' where r: "UpsertAccounts demo_bcrypt [demo_seed] (new_store ''sqlite'' ''w1'') = ((u, None), s')"
      "faults s' = []"
    using n by (simp add: UpsertAccounts_def upsert_account_def Let_def norm_addr_def [symmetric] demo_seed_def
        GetAccount_def sql_def select_def new_store_def account_row_def HashPassword_def demo_bcrypt_def put_account_def)
  with UpsertAccounts_idempotent [OF demo_bcrypt_ok r(1)] n show ?thesis by auto
qed

text \<open>
  The allow-list of an account: its own address first, then the extra addresses once each,
  trimmed and in lower case, empty ones dropped; and \<open>AllowsFrom\<close> accepts exactly the addresses that
  normalize to one of these.
\<close>

theorem normalizeAllowed_AllowsFrom:
  assumes "norm_addr email = email" and "AllowedFrom a = normalizeAllowed email extra"
  shows "(AllowsFrom a from \<longleftrightarrow>
            norm_addr from = email \<or> norm_addr from \<noteq> [] \<and> norm_addr from \<in> norm_addr ` set extra) \<and>
         distinct (AllowedFrom a) \<and> hd (AllowedFrom a) = email \<and>
         normalizeAllowed email (AllowedFrom a) = AllowedFrom a"
  using assms distinct_normalizeAllowed hd_normalizeAllowed normalizeAllowed_idem
  by (auto simp: AllowsFrom_def Let_def norm_addr_def [symmetric] set_normalizeAllowed)

lemma normalizeAllowed_AllowsFrom_witness:
  "AllowsFrom \<lparr>Email = ''a@x'', PasswordHash = [], AllowedFrom = normalizeAllowed ''a@x'' ['' B@x '']\<rparr> ''b@X''"
proof -
  have "norm_addr ''a@x'' = ''a@x''" "norm_addr ''b@X'' = ''b@x''" "norm_addr '' B@x '' = ''b@x''" by code_simp+
  with normalizeAllowed_AllowsFrom [of "''a@x''" "\<lparr>Email = ''a@x'', PasswordHash = [], AllowedFrom = normalizeAllowed ''a@x'' ['' B@x '']\<rparr>"
      "['' B@x '']" "''b@X''"] show ?thesis by simp
qed

section \<open>Editing and deleting\<close>

lemma account_row_edit:
  "(\<And>a. Email (g a) = Email a) \<Longrightarrow>
   account_row k (snd (edit_account email g s)) = map_option (\<lambda>a. if k = email then g a else a) (account_row k s)"
  unfolding account_row_def edit_account_def by (simp add: find_map_key [of Email])

text \<open>
  \<open>UpdateAccount\<close> when no statement fails: an unknown address is an error that changes nothing; a
  known account gets the normalized list and, only when one is given, the new password; every other
  account and the rest of the store stay as they are.
\<close>

theorem UpdateAccount_spec:
  assumes "bcrypt_ok bc" and "faults s = []" and "UpdateAccount bc email allowed pw s = (r, s')"
    and "GenerateFromPassword bc pw = Inr h"
  shows "case account_row (norm_addr email) s of
      None \<Rightarrow> r = Inl (Errorf (''account '' @ norm_addr email @ '' not found'')) \<and> s' = s
    | Some a \<Rightarrow> r = Inr () \<and> (\<exists>a'. account_row (norm_addr email) s' = Some a' \<and>
         AllowedFrom a' = normalizeAllowed (norm_addr email) allowed \<and>
         (if pw = [] then PasswordHash a' = PasswordHash a else VerifyPassword bc (PasswordHash a') pw)) \<and>
         (\<forall>k. k \<noteq> norm_addr email \<longrightarrow> account_row k s' = account_row k s) \<and>
         queue_messages s' = queue_messages s \<and> dkim_keys s' = dkim_keys s"
proof (cases "account_row (norm_addr email) s")
  case None
  with assms(2,3) show ?thesis
    by (auto simp: UpdateAccount_def Let_def GetAccount_def norm_addr_def [symmetric] sql_no_fault select_def)
next
  case (Some a)
  let ?al = "normalizeAllowed (norm_addr email) allowed"
  let ?g = "if pw = [] then (\<lambda>a. a\<lparr>AllowedFrom := ?al\<rparr>) else (\<lambda>a. a\<lparr>AllowedFrom := ?al, PasswordHash := h\<rparr>)"
  have s': "r = Inr ()" "s' = snd (edit_account (norm_addr email) ?g s)"
    using Some assms(2-4)
    by (auto simp: UpdateAccount_def Let_def GetAccount_def norm_addr_def [symmetric] sql_no_fault select_def
        edit_account_def HashPassword_def split: if_splits)
  have "account_row k s' = map_option (\<lambda>a. if k = norm_addr email then ?g a else a) (account_row k s)" for k
    unfolding s'(2) by (rule account_row_edit) simp
  then show ?thesis using Some s' assms(1,4)
    by (auto simp: VerifyPassword_def bcrypt_ok_def edit_account_def option.map_ident)
qed

lemma UpdateAccount_spec_witness:
  "\<exists>r s' a'. UpdateAccount demo_bcrypt ''A@x'' [] ''new''
      ((new_store ''sqlite'' ''w1'')\<lparr>accounts := [\<lparr>Email = ''a@x'', PasswordHash = ''old'', AllowedFrom = []\<rparr>]\<rparr>) = (r, s') \<and>
    r = Inr () \<and> account_row ''a@x'' s' = Some a' \<and> VerifyPassword demo_bcrypt (PasswordHash a') ''new''"
proof -
  let ?s = "(new_store ''sqlite'' ''w1'')\<lparr>accounts := [\<lparr>Email = ''a@x'', PasswordHash = ''old'', AllowedFrom = []\<rparr>]\<rparr>"
  obtain r s' where r: "UpdateAccount demo_bcrypt ''A@x'' [] ''new'' ?s = (r, s')" by fastforce
  have n: "norm_addr ''A@x'' = ''a@x''" by code_simp
  have "account_row ''a@x'' ?s = Some \<lparr>Email = ''a@x'', PasswordHash = ''old'', AllowedFrom = []\<rparr>" "faults ?s = []"
    by (simp_all add: account_row_def new_store_def)
  moreover have "GenerateFromPassword demo_bcrypt ''new'' = Inr (''$2a$'' @ ''new'')" by (simp add: demo_bcrypt_def)
  ultimately have "r = Inr () \<and> (\<exists>a'. account_row ''a@x'' s' = Some a' \<and> VerifyPassword demo_bcrypt (PasswordHash a') ''new'')"
    using UpdateAccount_spec [OF demo_bcrypt_ok _ r] n by auto
  with r show ?thesis by blast
qed

end
