(* ===== verification/Store_Tables.thy ===== *)
theory Store_Tables
  imports Store_Queue Store_Accounts
begin

text \<open>
  The other tables of \<open>internal/storage\<close>: DKIM keys (\<open>dkim.go\<close>), the send history (\<open>sends.go\<close>), the
  lifetime counters (\<open>counters.go\<close>), and opening a store (\<open>Open\<close> and \<open>migrate\<close>).
\<close>

section \<open>DKIM keys\<close>

definition dkim_row :: "string \<Rightarrow> store \<Rightarrow> dkim_key option" where
  "dkim_row domain s = find (\<lambda>k. Domain k = domain) (dkim_keys s)"

definition GetDKIM :: "string \<Rightarrow> store \<Rightarrow> dkim_key option res \<times> store" where
  "GetDKIM domain0 s = (let domain = ToLower (TrimSpace domain0) in sql (select (dkim_row domain)) s)"

definition ListDKIM :: "store \<Rightarrow> dkim_key list res \<times> store" where
  "ListDKIM s = sql (select (\<lambda>s. sort_key (\<lambda>k. map of_char (Domain k) :: nat list) (dkim_keys s))) s"

definition put_dkim :: "dkim_key \<Rightarrow> store \<Rightarrow> unit res \<times> store" where
  "put_dkim k s =
     (Inr (), s\<lparr>dkim_keys :=
        (if Domain k \<in> set (map Domain (dkim_keys s))
         then map (\<lambda>x. if Domain x = Domain k
                       then x\<lparr>Selector := Selector k, KeyData := KeyData k\<rparr> else x) (dkim_keys s)
         else dkim_keys s @ [k])\<rparr>)"

definition upsert_dkim :: "dkim_key \<Rightarrow> store \<Rightarrow> (change \<times> string) res \<times> store" where
  "upsert_dkim k s =
     (let domain = ToLower (TrimSpace (Domain k)) in
      if domain = [] \<or> Selector k = [] \<or> TrimSpace (KeyData k) = []
      then (Inl (Errorf ''dkim: domain, selector and key_data are required''), s)
      else case GetDKIM domain s of
          (Inl err, s1) \<Rightarrow> (Inl err, s1)
        | (Inr existing, s1) \<Rightarrow>
            if (case existing of None \<Rightarrow> False
                | Some e \<Rightarrow> Selector e = Selector k \<and> KeyData e = KeyData k)
            then (Inr (ChUnchanged, domain), s1)
            else case sql (put_dkim \<lparr>Domain = domain, Selector = Selector k, KeyData = KeyData k\<rparr>) s1 of
                (Inl err, s2) \<Rightarrow> (Inl err, s2)
              | (Inr _, s2) \<Rightarrow> (Inr (if existing \<noteq> None then ChUpdated else ChCreated, domain), s2))"

definition UpsertDKIM :: "dkim_key list \<Rightarrow> store \<Rightarrow> (upsert_summary \<times> go_error option) \<times> store" where
  "UpsertDKIM keys s = upsert_loop upsert_dkim keys empty_summary s"

definition del_dkim :: "string \<Rightarrow> store \<Rightarrow> unit res \<times> store" where
  "del_dkim domain s = (Inr (), s\<lparr>dkim_keys := filter (\<lambda>k. Domain k \<noteq> domain) (dkim_keys s)\<rparr>)"

definition DeleteDKIM :: "string \<Rightarrow> store \<Rightarrow> unit res \<times> store" where
  "DeleteDKIM domain0 s = (let domain = ToLower (TrimSpace domain0) in sql (del_dkim domain) s)"

section \<open>The send history\<close>

text \<open>
  \<open>ON CONFLICT\<close> is not MySQL's syntax; a statement that uses it is an error in that dialect.
\<close>

definition conflict_clause :: "(store \<Rightarrow> unit res \<times> store) \<Rightarrow> store \<Rightarrow> unit res \<times> store" where
  "conflict_clause f s = (if dialect s = ''mysql''
     then (Inl (Errorf ''You have an error in your SQL syntax near CONFLICT''), s) else f s)"

definition row_of_log :: "send_log \<Rightarrow> sends_row" where
  "row_of_log l =
     \<lparr>s_id = LogID l, s_sender = LogFrom l, s_to = LogTo l, s_subject = LogSubject l, s_status = LogStatus l,
      s_attempts = LogAttempts l, s_size = LogSize l, s_truncated = LogTruncated l, s_last_error = LogLastError l,
      s_html = LogHTML l, s_text = LogText l, s_raw = LogRaw l, s_queued_at = UnixMilli (LogQueuedAt l),
      s_updated_at = UnixMilli (LogUpdatedAt l)\<rparr>"

definition put_log :: "sends_row \<Rightarrow> store \<Rightarrow> unit res \<times> store" where
  "put_log r s =
     (Inr (), s\<lparr>sends_log :=
        (if s_id r \<in> set (map s_id (sends_log s))
         then map (\<lambda>x. if s_id x = s_id r then r\<lparr>s_queued_at := s_queued_at x\<rparr> else x) (sends_log s)
         else sends_log s @ [r])\<rparr>)"

definition InsertSendLog :: "send_log \<Rightarrow> store \<Rightarrow> unit res \<times> store" where
  "InsertSendLog l s =
     (case sql (conflict_clause (put_log (row_of_log l))) s of
        (Inl err, s1) \<Rightarrow> (Inl (Wrapf (''logging send '' @ LogID l @ '': '') err), s1)
      | (Inr _, s1) \<Rightarrow> (Inr (), s1))"

definition update_log :: "string \<Rightarrow> (sends_row \<Rightarrow> sends_row) \<Rightarrow> store \<Rightarrow> nat res \<times> store" where
  "update_log i g s =
     (Inr (length (filter (\<lambda>r. s_id r = i) (sends_log s))),
      s\<lparr>sends_log := map (\<lambda>r. if s_id r = i then g r else r) (sends_log s)\<rparr>)"

definition UpdateSendLogStatus :: "int \<Rightarrow> string \<Rightarrow> string \<Rightarrow> int \<Rightarrow> string \<Rightarrow> store \<Rightarrow> unit res \<times> store" where
  "UpdateSendLogStatus now_ms i status att lastError s =
     (case sql (update_log i (\<lambda>r. r\<lparr>s_status := status, s_attempts := att, s_last_error := lastError,
                  s_updated_at := now_ms\<rparr>)) s of
        (Inl err, s1) \<Rightarrow> (Inl (Wrapf (''updating send '' @ i @ '': '') err), s1)
      | (Inr n, s1) \<Rightarrow> if n = 0 then (Inl (Errorf (''send '' @ i @ '' not in history'')), s1) else (Inr (), s1))"

definition SetSendStatus :: "int \<Rightarrow> string \<Rightarrow> string \<Rightarrow> string \<Rightarrow> store \<Rightarrow> unit res \<times> store" where
  "SetSendStatus now_ms i status lastError s =
     (case sql (update_log i (\<lambda>r. r\<lparr>s_status := status, s_last_error := lastError, s_updated_at := now_ms\<rparr>)) s of
        (Inl err, s1) \<Rightarrow> (Inl (Wrapf (''updating send '' @ i @ '': '') err), s1)
      | (Inr n, s1) \<Rightarrow> if n = 0 then (Inl (Errorf (''send '' @ i @ '' not in history'')), s1) else (Inr (), s1))"

definition BumpSendAttempt :: "int \<Rightarrow> string \<Rightarrow> store \<Rightarrow> store" where
  "BumpSendAttempt now_ms i s =
     snd (sql (update_log i (\<lambda>r. r\<lparr>s_attempts := s_attempts r + 1, s_updated_at := now_ms\<rparr>)) s)"

definition del_log :: "(sends_row \<Rightarrow> bool) \<Rightarrow> store \<Rightarrow> nat res \<times> store" where
  "del_log P s = (Inr (length (filter P (sends_log s))), s\<lparr>sends_log := filter (\<lambda>r. \<not> P r) (sends_log s)\<rparr>)"

definition DeleteSendLog :: "string \<Rightarrow> store \<Rightarrow> store" where
  "DeleteSendLog i s = snd (sql (del_log (\<lambda>r. s_id r = i)) s)"

definition log_of_row :: "sends_row \<Rightarrow> send_log" where
  "log_of_row r =
     \<lparr>LogID = s_id r, LogFrom = s_sender r, LogTo = s_to r, LogSubject = s_subject r, LogStatus = s_status r,
      LogAttempts = s_attempts r, LogSize = s_size r, LogTruncated = s_truncated r, LogLastError = s_last_error r,
      LogHTML = s_html r, LogText = s_text r, LogRaw = s_raw r, LogQueuedAt = timeFromMS (s_queued_at r),
      LogUpdatedAt = timeFromMS (s_updated_at r)\<rparr>"

text \<open>The list leaves the bodies out.\<close>

definition list_entry :: "sends_row \<Rightarrow> send_log" where
  "list_entry r = (log_of_row r)\<lparr>LogHTML := [], LogText := [], LogRaw := []\<rparr>"

definition log_order :: "sends_row \<Rightarrow> int \<times> nat list" where
  "log_order r = (s_queued_at r, map of_char (s_id r))"

definition ListSendLogs :: "int \<Rightarrow> store \<Rightarrow> send_log list res \<times> store" where
  "ListSendLogs limit s =
     (let lim = (if limit \<le> 0 then 50 else limit);
          lim = (if lim > 1000 then 1000 else lim)
      in sql (select (\<lambda>s. map list_entry (take (nat lim) (rev (sort_key log_order (sends_log s)))))) s)"

definition log_row :: "string \<Rightarrow> store \<Rightarrow> sends_row option" where
  "log_row i s = find (\<lambda>r. s_id r = i) (sends_log s)"

definition GetSendLog :: "string \<Rightarrow> store \<Rightarrow> send_log option res \<times> store" where
  "GetSendLog i s = sql (select (\<lambda>s. map_option log_of_row (log_row i s))) s"

text \<open>\<open>now\<close> is in nanoseconds; the number of days fits \<open>time.Duration\<close> (up to 106,751 days).\<close>

definition PruneSendLogs :: "int \<Rightarrow> int \<Rightarrow> store \<Rightarrow> nat res \<times> store" where
  "PruneSendLogs now retentionDays s =
     (if retentionDays \<le> 0 then (Inr 0, s)
      else let cutoff = UnixMilli (Some (now - retentionDays * 86400000000000)) in
        case sql (del_log (\<lambda>r. s_queued_at r < cutoff)) s of
          (Inl err, s1) \<Rightarrow> (Inl (Wrapf ''pruning send history: '' err), s1)
        | (Inr n, s1) \<Rightarrow> (Inr n, s1))"

section \<open>Lifetime counters\<close>

definition counter_names :: "string list" where
  "counter_names = [''auth_success'', ''auth_failure'', ''messages_queued'', ''delivery_attempts'',
     ''messages_delivered'', ''messages_dead'', ''messages_requeued'']"

definition put_counters :: "int \<Rightarrow> store \<Rightarrow> unit res \<times> store" where
  "put_counters now_ms s = (Inr (), case stats_counters s of
      Some _ \<Rightarrow> s
    | None \<Rightarrow> s\<lparr>stats_counters := Some \<lparr>auth_success = 0, auth_failure = 0, messages_queued = 0,
        delivery_attempts = 0, messages_delivered = 0, messages_dead = 0, messages_requeued = 0,
        updated_at = now_ms\<rparr>\<rparr>)"

definition ensureCountersRow :: "int \<Rightarrow> store \<Rightarrow> unit res \<times> store" where
  "ensureCountersRow now_ms s = sql (conflict_clause (put_counters now_ms)) s"

definition bump :: "string \<Rightarrow> int \<Rightarrow> counters_row \<Rightarrow> counters_row" where
  "bump col d r =
     (if col = ''auth_success'' then r\<lparr>auth_success := auth_success r + d\<rparr>
      else if col = ''auth_failure'' then r\<lparr>auth_failure := auth_failure r + d\<rparr>
      else if col = ''messages_queued'' then r\<lparr>messages_queued := messages_queued r + d\<rparr>
      else if col = ''delivery_attempts'' then r\<lparr>delivery_attempts := delivery_attempts r + d\<rparr>
      else if col = ''messages_delivered'' then r\<lparr>messages_delivered := messages_delivered r + d\<rparr>
      else if col = ''messages_dead'' then r\<lparr>messages_dead := messages_dead r + d\<rparr>
      else if col = ''messages_requeued'' then r\<lparr>messages_requeued := messages_requeued r + d\<rparr>
      else r)"

definition add_counter :: "int \<Rightarrow> string \<Rightarrow> int \<Rightarrow> store \<Rightarrow> unit res \<times> store" where
  "add_counter now_ms col d s =
     (Inr (), s\<lparr>stats_counters := map_option (\<lambda>r. (bump col d r)\<lparr>updated_at := now_ms\<rparr>) (stats_counters s)\<rparr>)"

definition AddCounter :: "int \<Rightarrow> string \<Rightarrow> int \<Rightarrow> store \<Rightarrow> unit res \<times> store" where
  "AddCounter now_ms nm delta s =
     (if nm \<notin> set counter_names then (Inl (Errorf (''unknown counter '' @ quoted nm)), s)
      else if delta = 0 then (Inr (), s)
      else case ensureCountersRow now_ms s of
          (Inl err, s1) \<Rightarrow> (Inl err, s1)
        | (Inr _, s1) \<Rightarrow> sql (add_counter now_ms nm delta) s1)"

definition counter_vals :: "counters_row \<Rightarrow> int list" where
  "counter_vals r = [auth_success r, auth_failure r, messages_queued r, delivery_attempts r,
                     messages_delivered r, messages_dead r, messages_requeued r]"

definition GetCounters :: "int \<Rightarrow> store \<Rightarrow> (string \<times> int) list res \<times> store" where
  "GetCounters now_ms s =
     (case ensureCountersRow now_ms s of
        (Inl err, s1) \<Rightarrow> (Inl err, s1)
      | (Inr _, s1) \<Rightarrow>
          (case sql (select stats_counters) s1 of
             (Inl err, s2) \<Rightarrow> (Inl err, s2)
           | (Inr None, s2) \<Rightarrow> (Inl ErrNoRows, s2)
           | (Inr (Some r), s2) \<Rightarrow> (Inr (zip counter_names (counter_vals r)), s2)))"

section \<open>Opening a store\<close>

text \<open>
  A migration runs in a transaction: begin, the DDL, the record of its version, commit; a failure
  of any of them leaves the schema as it was. The DDL statements are \<open>IF NOT EXISTS\<close>; the tables
  they create are the fields of \<^typ>\<open>store\<close>.
\<close>

definition migration_count :: nat where
  "migration_count = 7"

definition record_version :: "nat \<Rightarrow> store \<Rightarrow> unit res \<times> store" where
  "record_version v s =
     (if v \<in> set (schema_versions s) then (Inl (Errorf ''UNIQUE constraint failed: schema_migrations.version''), s)
      else (Inr (), s\<lparr>schema_versions := schema_versions s @ [v]\<rparr>))"

definition noop :: "store \<Rightarrow> unit res \<times> store" where
  "noop s = (Inr (), s)"

definition apply_migration :: "nat \<Rightarrow> store \<Rightarrow> unit res \<times> store" where
  "apply_migration version s =
     (case sql noop s of
        (Inl err, s1) \<Rightarrow> (Inl err, s1)
      | (Inr _, s1) \<Rightarrow>
         (case sql noop s1 of
            (Inl err, s2) \<Rightarrow> (Inl (Wrapf (''applying migration '' @ nat_digits version @ '': '') err), s2)
          | (Inr _, s2) \<Rightarrow>
             (case sql (record_version version) s2 of
                (Inl err, s3) \<Rightarrow> (Inl (Wrapf (''recording migration '' @ nat_digits version @ '': '') err), s3)
              | (Inr _, s3) \<Rightarrow>
                 (case sql noop s3 of
                    (Inl err, s4) \<Rightarrow> (Inl err, s4\<lparr>schema_versions := schema_versions s\<rparr>)
                  | (Inr _, s4) \<Rightarrow> (Inr (), s4)))))"

fun run_migrations :: "nat list \<Rightarrow> store \<Rightarrow> unit res \<times> store" where
  "run_migrations [] s = (Inr (), s)"
| "run_migrations (version # vs) s =
     (case sql (select (\<lambda>s. version \<in> set (schema_versions s))) s of
        (Inl err, s1) \<Rightarrow> (Inl (Wrapf (''checking migration '' @ nat_digits version @ '': '') err), s1)
      | (Inr True, s1) \<Rightarrow> run_migrations vs s1
      | (Inr False, s1) \<Rightarrow>
          (case apply_migration version s1 of
             (Inl err, s2) \<Rightarrow> (Inl err, s2)
           | (Inr _, s2) \<Rightarrow> run_migrations vs s2))"

definition migrate :: "store \<Rightarrow> unit res \<times> store" where
  "migrate s =
     (case sql noop s of
        (Inl err, s1) \<Rightarrow> (Inl (Wrapf ''creating schema_migrations: '' err), s1)
      | (Inr _, s1) \<Rightarrow> run_migrations [1..<migration_count + 1] s1)"

fun run_pragmas :: "string list \<Rightarrow> store \<Rightarrow> unit res \<times> store" where
  "run_pragmas [] s = (Inr (), s)"
| "run_pragmas (p # ps) s =
     (case sql noop s of
        (Inl err, s1) \<Rightarrow> (Inl (Wrapf (''sqlite pragma '' @ quoted p @ '': '') err), s1)
      | (Inr _, s1) \<Rightarrow> run_pragmas ps s1)"

definition pragmas :: "string list" where
  "pragmas = [''PRAGMA journal_mode=WAL'', ''PRAGMA synchronous=NORMAL'', ''PRAGMA busy_timeout=10000'',
              ''PRAGMA foreign_keys=ON'']"

text \<open>
  \<open>db\<close> is the database behind the path (its tables, and which statements will fail); a new handle
  has its own instance id, no dead-letter cap and an empty channel.
\<close>

definition Open :: "string \<Rightarrow> string \<Rightarrow> string \<Rightarrow> store \<Rightarrow> store res" where
  "Open kind0 path inst db =
     (let kind = (if kind0 = [] then ''sqlite'' else kind0) in
      if kind \<noteq> ''sqlite'' \<and> kind \<noteq> ''mysql''
      then Inl (Errorf (''unsupported storage type '' @ quoted kind @ '' (use sqlite or mysql)''))
      else if path = [] then Inl (Errorf (''storage '' @ kind @ '' requires a path/DSN''))
      else case sql noop db of
          (Inl err, _) \<Rightarrow> Inl (Wrapf (''opening '' @ kind @ '' database: '') err)
        | (Inr _, d1) \<Rightarrow>
           (case (if kind = ''sqlite''
                  then (case sql noop d1 of (Inl err, d2) \<Rightarrow> (Inl err, d2) | (Inr _, d2) \<Rightarrow> run_pragmas pragmas d2)
                  else (Inr (), d1)) of
              (Inl err, _) \<Rightarrow> Inl err
            | (Inr _, d3) \<Rightarrow>
               (case sql noop d3 of
                  (Inl err, _) \<Rightarrow> Inl (Wrapf (''pinging '' @ kind @ '' database: '') err)
                | (Inr _, d4) \<Rightarrow>
                   (case migrate (d4\<lparr>dialect := kind, instance_id := inst, deadMax := 0, notify := False\<rparr>) of
                      (Inl err, _) \<Rightarrow> Inl err
                    | (Inr _, s) \<Rightarrow> Inr s))))"

end
