(* ===== verification/Store_Laws.thy ===== *)
theory Store_Laws
  imports Store_Tables
begin

text \<open>
  Laws of the tables of \<open>Store_Tables\<close>: DKIM keys as a map, the send history, the counters, and that
  the migrations are applied once.
\<close>

section \<open>DKIM keys\<close>

lemma dkim_row_put: "dkim_row d (snd (put_dkim k s)) = (if d = Domain k then Some k else dkim_row d s)"
proof (cases "Domain k \<in> set (map Domain (dkim_keys s))")
  case True
  let ?g = "\<lambda>x. x\<lparr>Selector := Selector k, KeyData := KeyData k\<rparr>"
  have f: "find (\<lambda>x. Domain x = d) (map (\<lambda>x. if Domain x = Domain k then ?g x else x) (dkim_keys s)) =
      map_option (\<lambda>x. if d = Domain k then ?g x else x) (find (\<lambda>x. Domain x = d) (dkim_keys s))"
    by (rule find_map_key) simp
  show ?thesis
  proof (cases "d = Domain k")
    case True
    then obtain y where y: "find (\<lambda>x. Domain x = d) (dkim_keys s) = Some y"
      using \<open>Domain k \<in> _\<close> find_key_None [of Domain d "dkim_keys s"] by fastforce
    have "?g y = k" using find_key_in [OF y] True by (cases y, cases k) simp
    then show ?thesis using f y \<open>Domain k \<in> _\<close> True by (simp add: dkim_row_def put_dkim_def)
  next
    case False
    then show ?thesis using f \<open>Domain k \<in> _\<close> by (simp add: dkim_row_def put_dkim_def option.map_ident)
  qed
next
  case False
  then show ?thesis
    using find_key_None [of Domain "Domain k" "dkim_keys s"]
    by (auto simp: dkim_row_def put_dkim_def find_append split: option.split)
qed

interpretation dk: keyed_table dkim_row Domain put_dkim del_dkim
  by unfold_locales
    (simp_all add: dkim_row_put, simp_all add: dkim_row_def put_dkim_def del_dkim_def find_filter_neq)

definition dkim_sat :: "dkim_key \<Rightarrow> dkim_key \<Rightarrow> bool" where
  "dkim_sat k r \<longleftrightarrow> r = k\<lparr>Domain := norm_addr (Domain k)\<rparr>"

definition dkim_valid :: "dkim_key \<Rightarrow> bool" where
  "dkim_valid k \<longleftrightarrow> norm_addr (Domain k) \<noteq> [] \<and> Selector k \<noteq> [] \<and> TrimSpace (KeyData k) \<noteq> []"

abbreviation dkim_name :: "dkim_key \<Rightarrow> string" where
  "dkim_name k \<equiv> norm_addr (Domain k)"

lemma dkim_row_Domain: "dkim_row d s = Some k \<Longrightarrow> Domain k = d"
  unfolding dkim_row_def by (drule find_key_in) simp

lemma GetDKIM_ok:
  "GetDKIM d s = (Inr v, s1) \<Longrightarrow> v = dkim_row (norm_addr d) s \<and> (\<forall>k. dkim_row k s1 = dkim_row k s)"
  unfolding GetDKIM_def Let_def norm_addr_def [symmetric] by (rule dk.sql_get)

lemma GetDKIM_frame: "GetDKIM d s = (r, s1) \<Longrightarrow> dkim_row k s1 = dkim_row k s"
  unfolding GetDKIM_def Let_def by (rule dk.sql_get_frame)

lemma upsert_dkim_Inr:
  assumes "upsert_dkim x s = (Inr (c, k), s2)"
  shows "dkim_valid x \<and> k = dkim_name x \<and> dkim_row k s2 = Some (x\<lparr>Domain := k\<rparr>) \<and>
    (\<forall>k'. k' \<noteq> k \<longrightarrow> dkim_row k' s2 = dkim_row k' s)"
proof -
  have v: "dkim_valid x" "k = dkim_name x"
    using assms
    by (auto simp: upsert_dkim_def Let_def dkim_valid_def norm_addr_def split: prod.splits sum.splits if_splits)
  then obtain ex s1 where g: "GetDKIM k s = (Inr ex, s1)"
    using assms
    by (auto simp: upsert_dkim_def Let_def norm_addr_def [symmetric] split: prod.splits sum.splits if_splits)
  note get = GetDKIM_ok [OF g]
  let ?new = "\<lparr>Domain = k, Selector = Selector x, KeyData = KeyData x\<rparr>"
  have new: "?new = x\<lparr>Domain := k\<rparr>" by (cases x) simp
  consider e where "ex = Some e" "Selector e = Selector x" "KeyData e = KeyData x" "s2 = s1"
    | "sql (put_dkim ?new) s1 = (Inr (), s2)"
    using assms v g
    by (auto simp: upsert_dkim_def Let_def norm_addr_def [symmetric] dkim_valid_def
        split: prod.splits sum.splits if_splits option.splits)
  then show ?thesis
  proof cases
    case 1
    then have "Domain e = k" using get dkim_row_Domain v by simp
    with 1 have "e = ?new" by (cases e) simp
    with 1 get v new show ?thesis by (metis norm_addr_idem)
  next
    case 2
    with dk.sql_put_Inr [OF 2] get v new show ?thesis by simp
  qed
qed

lemma upsert_dkim_Inl: "upsert_dkim x s = (Inl e, s2) \<Longrightarrow> dkim_row k s2 = dkim_row k s"
  by (auto simp: upsert_dkim_def Let_def split: prod.splits sum.splits if_splits
      dest!: GetDKIM_frame [where k = k] dk.sql_put_Inl [where k = k])

interpretation ud: upserting upsert_dkim dkim_name dkim_row dkim_sat dkim_valid
proof
  fix x s r assume "dkim_valid x" "faults s = []" "dkim_row (dkim_name x) s = Some r" "dkim_sat x r"
  then show "upsert_dkim x s = (Inr (ChUnchanged, dkim_name x), s)"
    by (simp add: upsert_dkim_def Let_def GetDKIM_def sql_no_fault select_def dkim_valid_def dkim_sat_def
        norm_addr_def [symmetric])
qed (use upsert_dkim_Inr upsert_dkim_Inl in \<open>auto simp: dkim_sat_def\<close>)

text \<open>
  DKIM keys behave as a map from lower-case domains. After \<open>UpsertDKIM\<close> without error, looking a
  seeded domain up in any spelling finds the selector and key of its last seed, other domains are
  untouched, and deleting the domain makes the next lookup find nothing.
\<close>

theorem UpsertDKIM_GetDKIM:
  assumes "UpsertDKIM (pre @ k # post) s = ((u, None), s1)" and "dkim_name k \<notin> dkim_name ` set post"
    and "faults s1 = []" and "norm_addr d = dkim_name k"
  shows "GetDKIM d s1 = (Inr (Some \<lparr>Domain = dkim_name k, Selector = Selector k, KeyData = KeyData k\<rparr>), s1) \<and>
         (\<exists>s2. DeleteDKIM d s1 = (Inr (), s2) \<and> GetDKIM d s2 = (Inr None, s2)) \<and>
         (\<forall>d'. d' \<notin> dkim_name ` set (pre @ k # post) \<longrightarrow> dkim_row d' s1 = dkim_row d' s)"
proof -
  note run = assms(1) [unfolded UpsertDKIM_def]
  have new: "k\<lparr>Domain := dkim_name k\<rparr> = \<lparr>Domain = dkim_name k, Selector = Selector k, KeyData = KeyData k\<rparr>"
    by (cases k) simp
  have "GetDKIM d s1 = (Inr (Some \<lparr>Domain = dkim_name k, Selector = Selector k, KeyData = KeyData k\<rparr>), s1)"
    using ud.loop_sat [OF run assms(2)] assms(3,4) new
    by (auto simp: GetDKIM_def Let_def norm_addr_def [symmetric] sql_no_fault select_def dkim_sat_def)
  moreover have "\<exists>s2. DeleteDKIM d s1 = (Inr (), s2) \<and> GetDKIM d s2 = (Inr None, s2)"
    using assms(3) dk.get_del [of "norm_addr d" "norm_addr d" s1]
    by (auto simp: DeleteDKIM_def GetDKIM_def Let_def norm_addr_def [symmetric] sql_no_fault select_def del_dkim_def)
  ultimately show ?thesis using ud.loop_frame [OF run] by auto
qed


lemma UpsertDKIM_GetDKIM_witness:
  "\<exists>u s1. UpsertDKIM [\<lparr>Domain = ''X.org'', Selector = ''s1'', KeyData = ''pem''\<rparr>] (new_store ''sqlite'' ''w1'') = ((u, None), s1) \<and>
     GetDKIM ''x.ORG'' s1 = (Inr (Some \<lparr>Domain = ''x.org'', Selector = ''s1'', KeyData = ''pem''\<rparr>), s1)"
proof -
  let ?k = "\<lparr>Domain = ''X.org'', Selector = ''s1'', KeyData = ''pem''\<rparr>"
  have n: "norm_addr ''X.org'' = ''x.org''" "norm_addr ''x.ORG'' = ''x.org''" "TrimSpace ''pem'' = ''pem''" by code_simp+
  obtain u s1 where r: "UpsertDKIM [?k] (new_store ''sqlite'' ''w1'') = ((u, None), s1)" "faults s1 = []"
    using n by (simp add: UpsertDKIM_def upsert_dkim_def Let_def norm_addr_def [symmetric]
        GetDKIM_def sql_def select_def new_store_def dkim_row_def put_dkim_def)
  with UpsertDKIM_GetDKIM [of "[]" ?k "[]" _ u s1 "''x.ORG''"] n show ?thesis by auto
qed

section \<open>The send history\<close>

lemma log_row_faults [simp]: "log_row i (s\<lparr>faults := fs\<rparr>) = log_row i s"
  by (simp add: log_row_def)

lemma log_row_put:
  "log_row i (snd (put_log r s)) =
     (if i = s_id r then Some (case log_row i s of None \<Rightarrow> r | Some x \<Rightarrow> r\<lparr>s_queued_at := s_queued_at x\<rparr>)
      else log_row i s)"
proof (cases "s_id r \<in> set (map s_id (sends_log s))")
  case True
  have f: "find (\<lambda>x. s_id x = i) (map (\<lambda>x. if s_id x = s_id r then r\<lparr>s_queued_at := s_queued_at x\<rparr> else x) xs) =
      map_option (\<lambda>x. if i = s_id r then r\<lparr>s_queued_at := s_queued_at x\<rparr> else x) (find (\<lambda>x. s_id x = i) xs)" for xs
    by (induction xs) auto
  have "log_row (s_id r) s \<noteq> None" using True find_key_None [of s_id "s_id r" "sends_log s"] by (simp add: log_row_def)
  then show ?thesis using True f by (auto simp: log_row_def put_log_def option.map_ident)
next
  case False
  then have "log_row (s_id r) s = None" using find_key_None [of s_id "s_id r" "sends_log s"] by (simp add: log_row_def)
  then show ?thesis using False by (auto simp: log_row_def put_log_def find_append split: option.split)
qed

lemma InsertSendLog_ok:
  "faults s = [] \<Longrightarrow> dialect s \<noteq> ''mysql'' \<Longrightarrow> InsertSendLog l s = (Inr (), snd (put_log (row_of_log l) s))"
  by (simp add: InsertSendLog_def sql_no_fault conflict_clause_def put_log_def)

lemma log_row_update:
  "(\<And>r. s_id (g r) = s_id r) \<Longrightarrow>
   log_row i (snd (update_log j g s)) = map_option (\<lambda>r. if i = j then g r else r) (log_row i s)"
  unfolding log_row_def update_log_def by (simp add: find_map_key [of s_id])

lemma log_row_count: "(length (filter (\<lambda>r. s_id r = i) (sends_log s)) = 0) = (log_row i s = None)"
  by (auto simp: log_row_def find_None_iff filter_empty_conv)

text \<open>
  C38. The history of a message. On SQLite, once \<open>InsertSendLog\<close> has stored an entry, each attempt
  counted by \<open>BumpSendAttempt\<close> and the final \<open>SetSendStatus\<close> are what \<open>GetSendLog\<close> returns: the
  status and error that were set last, one attempt more, everything else as inserted; and inserting
  the same id again keeps the time it was first queued.
\<close>

theorem send_log_lifecycle:
  assumes "faults s = []" and "dialect s \<noteq> ''mysql''" and "log_row (LogID l) s = None"
    and "InsertSendLog l s = (r1, s1)" and "SetSendStatus t2 (LogID l) status err (BumpSendAttempt t1 (LogID l) s1) = (r2, s2)"
  shows "r1 = Inr () \<and> r2 = Inr () \<and>
    GetSendLog (LogID l) s2 = (Inr (Some (log_of_row ((row_of_log l)\<lparr>s_status := status, s_last_error := err,
       s_attempts := LogAttempts l + 1, s_updated_at := t2\<rparr>))), s2) \<and>
    (\<forall>l'. LogID l' = LogID l \<longrightarrow>
       map_option s_queued_at (log_row (LogID l) (snd (InsertSendLog l' s2))) = Some (UnixMilli (LogQueuedAt l)))"
proof -
  let ?i = "LogID l"
  let ?b = "BumpSendAttempt t1 ?i s1"
  have ids: "s_id (row_of_log l) = LogID l" for l :: send_log by (simp add: row_of_log_def)
  have s1: "r1 = Inr ()" "s1 = snd (put_log (row_of_log l) s)"
    using assms(1,2,4) by (simp_all add: InsertSendLog_ok)
  have f1: "faults s1 = []" "dialect s1 = dialect s" using s1 assms(1) by (simp_all add: put_log_def)
  have l1: "log_row ?i s1 = Some (row_of_log l)" using assms(3) by (simp add: s1 log_row_put ids)
  have b: "?b = snd (update_log ?i (\<lambda>r. r\<lparr>s_attempts := s_attempts r + 1, s_updated_at := t1\<rparr>) s1)"
    by (simp add: BumpSendAttempt_def sql_no_fault f1)
  have f2: "faults ?b = []" "dialect ?b = dialect s" using f1 by (simp_all add: b update_log_def)
  have l2: "log_row ?i ?b = Some ((row_of_log l)\<lparr>s_attempts := LogAttempts l + 1, s_updated_at := t1\<rparr>)"
    unfolding b by (subst log_row_update) (simp_all add: l1 row_of_log_def)
  have s2: "r2 = Inr ()" "s2 = snd (update_log ?i (\<lambda>r. r\<lparr>s_status := status, s_last_error := err, s_updated_at := t2\<rparr>) ?b)"
    using assms(5) l2 log_row_count [of ?i ?b]
    by (auto simp: SetSendStatus_def sql_no_fault f2 update_log_def split: if_splits)
  have f3: "faults s2 = []" "dialect s2 \<noteq> ''mysql''" using f2 assms(2) by (simp_all add: s2 update_log_def)
  have l3: "log_row ?i s2 = Some ((row_of_log l)\<lparr>s_status := status, s_last_error := err,
       s_attempts := LogAttempts l + 1, s_updated_at := t2\<rparr>)"
    unfolding s2 by (subst log_row_update) (simp_all add: l2)
  have "map_option s_queued_at (log_row ?i (snd (InsertSendLog l' s2))) = Some (UnixMilli (LogQueuedAt l))"
    if "LogID l' = ?i" for l'
    using that f3 l3 by (simp add: InsertSendLog_ok log_row_put ids) (simp add: row_of_log_def)
  with s1 s2 l3 f3 show ?thesis by (simp add: GetSendLog_def sql_no_fault select_def)
qed


definition demo_log :: send_log where
  "demo_log = \<lparr>LogID = ''m1'', LogFrom = ''a@x'', LogTo = [''b@y''], LogSubject = ''hi'', LogStatus = ''queued'', LogAttempts = 0,
     LogSize = 5, LogTruncated = False, LogLastError = [], LogHTML = [], LogText = ''hello'', LogRaw = [],
     LogQueuedAt = Some 7000000, LogUpdatedAt = Some 7000000\<rparr>"

lemma send_log_lifecycle_witness:
  "\<exists>s1 s2. InsertSendLog demo_log (new_store ''sqlite'' ''w'') = (Inr (), s1) \<and>
     SetSendStatus 9 ''m1'' ''delivered'' [] (BumpSendAttempt 8 ''m1'' s1) = (Inr (), s2) \<and>
     GetSendLog ''m1'' s2 = (Inr (Some (demo_log\<lparr>LogStatus := ''delivered'', LogAttempts := 1, LogUpdatedAt := Some 9000000\<rparr>)), s2)"
proof -
  let ?s = "new_store ''sqlite'' ''w''"
  obtain r1 s1 where i: "InsertSendLog demo_log ?s = (r1, s1)" by fastforce
  obtain r2 s2 where u: "SetSendStatus 9 (LogID demo_log) ''delivered'' [] (BumpSendAttempt 8 (LogID demo_log) s1) = (r2, s2)"
    by fastforce
  have "faults ?s = []" "dialect ?s \<noteq> ''mysql''" "log_row (LogID demo_log) ?s = None" "LogID demo_log = ''m1''"
    by (simp_all add: new_store_def log_row_def demo_log_def)
  with send_log_lifecycle [OF _ _ _ i u] i u show ?thesis
    by (auto simp: log_of_row_def row_of_log_def demo_log_def UnixMilli_def timeFromMS_def)
qed

section \<open>Counters\<close>

text \<open>The value of one counter, zero when the row does not exist.\<close>

definition counter :: "string \<Rightarrow> store \<Rightarrow> int" where
  "counter nm s = (case stats_counters s of None \<Rightarrow> 0
     | Some r \<Rightarrow> (case map_of (zip counter_names (counter_vals r)) nm of None \<Rightarrow> 0 | Some v \<Rightarrow> v))"

lemma counter_vals_bump:
  "nm \<in> set counter_names \<Longrightarrow> n \<in> set counter_names \<Longrightarrow>
   map_of (zip counter_names (counter_vals (bump nm d r))) n =
   map_option (\<lambda>v. v + (if n = nm then d else 0)) (map_of (zip counter_names (counter_vals r)) n)"
  by (auto simp: counter_names_def counter_vals_def bump_def)

lemma counter_vals_dom: "n \<in> set counter_names \<Longrightarrow> \<exists>v. map_of (zip counter_names (counter_vals r)) n = Some v"
  by (auto simp: counter_names_def counter_vals_def)

lemma counter_vals_updated [simp]: "counter_vals (r\<lparr>updated_at := t\<rparr>) = counter_vals r"
  by (simp add: counter_vals_def)

lemma put_counters_counter: "n \<in> set counter_names \<Longrightarrow> counter n (snd (put_counters t s)) = counter n s"
  by (auto simp: put_counters_def counter_def counter_names_def counter_vals_def split: option.split)

lemma put_counters_Some: "stats_counters (snd (put_counters t s)) \<noteq> None"
  by (auto simp: put_counters_def split: option.split)

lemma counter_add:
  assumes "nm \<in> set counter_names" and "n \<in> set counter_names" and "stats_counters s \<noteq> None"
  shows "counter n (snd (add_counter t nm d s)) = counter n s + (if n = nm then d else 0)"
proof -
  from assms(3) obtain r where "stats_counters s = Some r" by auto
  with counter_vals_dom [OF assms(2), of r] counter_vals_bump [OF assms(1,2), of d r] show ?thesis
    by (auto simp: counter_def add_counter_def)
qed

lemma ensureCountersRow_ok:
  "faults s = [] \<Longrightarrow> dialect s \<noteq> ''mysql'' \<Longrightarrow> ensureCountersRow t s = (Inr (), snd (put_counters t s))"
  by (simp add: ensureCountersRow_def sql_no_fault conflict_clause_def put_counters_def)

lemma put_counters_frame [simp]:
  "faults (snd (put_counters t s)) = faults s" "dialect (snd (put_counters t s)) = dialect s"
  by (simp_all add: put_counters_def split: option.split)

text \<open>
  Lifetime counters. On SQLite, when no statement fails, \<open>AddCounter\<close> adds its amount to the
  named counter and to no other, and \<open>GetCounters\<close> then returns all seven with these values; an
  unknown name is an error that changes nothing.
\<close>

theorem AddCounter_GetCounters:
  assumes "faults s = []" and "dialect s \<noteq> ''mysql''" and "AddCounter t nm d s = (r, s1)"
    and "GetCounters t' s1 = (v, s2)"
  shows "if nm \<in> set counter_names
         then r = Inr () \<and> (\<exists>m. v = Inr m \<and> map fst m = counter_names \<and>
                (\<forall>n \<in> set counter_names. map_of m n = Some (counter n s + (if n = nm then d else 0))))
         else r = Inl (Errorf (''unknown counter '' @ quoted nm)) \<and> s1 = s"
proof (cases "nm \<in> set counter_names")
  case True
  let ?a = "if d = 0 then s else snd (add_counter t nm d (snd (put_counters t s)))"
  have s1: "r = Inr ()" "s1 = ?a"
    using True assms(1-3)
    by (auto simp: AddCounter_def ensureCountersRow_ok sql_no_fault add_counter_def split: if_splits)
  have cs1: "counter n s1 = counter n s + (if n = nm then d else 0)" if "n \<in> set counter_names" for n
    using counter_add [OF True that put_counters_Some, of t d t s] put_counters_counter [OF that, of t s]
    by (cases "n = nm") (auto simp: s1)
  have f1: "faults s1 = []" "dialect s1 \<noteq> ''mysql''"
    using assms(1,2) by (simp_all add: s1 add_counter_def)
  let ?p = "snd (put_counters t' s1)"
  obtain row where row: "stats_counters ?p = Some row" using put_counters_Some by auto
  then have v: "v = Inr (zip counter_names (counter_vals row))"
    using assms(4) f1 by (simp add: GetCounters_def ensureCountersRow_ok sql_no_fault select_def)
  have "map_of (zip counter_names (counter_vals row)) n = Some (counter n ?p)" if "n \<in> set counter_names" for n
    using counter_vals_dom [OF that, of row] row by (auto simp: counter_def)
  moreover have "length counter_names = length (counter_vals row)" by (simp add: counter_names_def counter_vals_def)
  ultimately show ?thesis using True v s1 cs1 put_counters_counter by simp
next
  case False
  then show ?thesis using assms(3) by (auto simp: AddCounter_def)
qed

lemma AddCounter_GetCounters_witness:
  "\<exists>r s1 v s2. AddCounter 1 ''messages_queued'' 3 (new_store ''sqlite'' ''w'') = (r, s1) \<and> GetCounters 2 s1 = (v, s2) \<and>
     (\<exists>m. v = Inr m \<and> map_of m ''messages_queued'' = Some 3)"
proof -
  let ?s = "new_store ''sqlite'' ''w''"
  obtain r s1 where a: "AddCounter 1 ''messages_queued'' 3 ?s = (r, s1)" by fastforce
  obtain v s2 where g: "GetCounters 2 s1 = (v, s2)" by fastforce
  have "faults ?s = []" "dialect ?s \<noteq> ''mysql''" "''messages_queued'' \<in> set counter_names" "counter ''messages_queued'' ?s = 0"
    by (simp_all add: new_store_def counter_names_def counter_def)
  with AddCounter_GetCounters [OF _ _ a g] have "\<exists>m. v = Inr m \<and> map_of m ''messages_queued'' = Some 3" by auto
  with a g show ?thesis by blast
qed

text \<open>
  On MySQL the send history and the lifetime counters do not work: their statements use
  \<open>ON CONFLICT\<close> in every dialect, so each call is an error and neither table ever changes.
\<close>

theorem mysql_history_and_counters_fail:
  assumes "dialect s = ''mysql''" and "d \<noteq> 0"
  shows "(\<exists>e. fst (InsertSendLog l s) = Inl e) \<and> sends_log (snd (InsertSendLog l s)) = sends_log s \<and>
         (\<exists>e. fst (AddCounter t nm d s) = Inl e) \<and> stats_counters (snd (AddCounter t nm d s)) = stats_counters s \<and>
         (\<exists>e. fst (GetCounters t s) = Inl e)"
proof -
  have cc: "\<exists>e s1. sql (conflict_clause f) s = (Inl e, s1) \<and> sends_log s1 = sends_log s \<and> stats_counters s1 = stats_counters s" for f
    using assms(1) by (auto simp: sql_def conflict_clause_def split: list.split option.split)
  show ?thesis
    using cc [of "put_log (row_of_log l)"] cc [of "put_counters t"] assms(2)
    by (auto simp: InsertSendLog_def AddCounter_def GetCounters_def ensureCountersRow_def)
qed

lemma mysql_history_and_counters_fail_witness:
  "\<exists>e. fst (InsertSendLog demo_log (new_store ''mysql'' ''w'')) = Inl e"
  using mysql_history_and_counters_fail [of "new_store ''mysql'' ''w''" 1 demo_log] by (simp add: new_store_def)

section \<open>Migrations\<close>

lemma noop_cases: "sql noop s = (r, s1) \<Longrightarrow> \<exists>fs. s1 = s\<lparr>faults := fs\<rparr>"
  by (auto elim!: sql_cases simp: noop_def)

lemma apply_migration_versions:
  assumes "apply_migration v s = (r, s1)"
  obtains fs vs where "s1 = s\<lparr>schema_versions := vs, faults := fs\<rparr>"
    "vs = (case r of Inl e \<Rightarrow> schema_versions s | Inr u \<Rightarrow> schema_versions s @ [v])"
proof -
  have "\<exists>fs. s1 = s\<lparr>schema_versions := (case r of Inl e \<Rightarrow> schema_versions s | Inr u \<Rightarrow> schema_versions s @ [v]), faults := fs\<rparr>"
    using assms
    by (fastforce simp: apply_migration_def record_version_def noop_def split: prod.splits sum.splits if_splits
        elim!: sql_cases)
  then show thesis using that by blast
qed

lemma run_migrations_versions:
  "run_migrations vs s = (Inr u, s1) \<Longrightarrow> set vs \<union> set (schema_versions s) = set (schema_versions s1) \<and>
     (\<exists>fs ws. s1 = s\<lparr>schema_versions := ws, faults := fs\<rparr>)"
proof (induction vs arbitrary: s)
  case Nil
  then have "s1 = s\<lparr>schema_versions := schema_versions s, faults := faults s\<rparr>" by simp
  with Nil show ?case by (simp only: run_migrations.simps prod.inject) (metis Un_commute empty_set sup_bot.right_neutral)
next
  case (Cons v vs)
  from Cons.prems obtain b s2 where sel: "sql (select (\<lambda>s. v \<in> set (schema_versions s))) s = (Inr b, s2)"
    by (auto split: prod.splits sum.splits)
  note b = select_Inr [OF sel]
  show ?case
  proof (cases b)
    case True
    with Cons.prems sel have "run_migrations vs s2 = (Inr u, s1)" by simp
    from Cons.IH [OF this] b True show ?thesis by auto
  next
    case False
    with Cons.prems sel obtain u' s3 where ap: "apply_migration v s2 = (Inr u', s3)" and rest: "run_migrations vs s3 = (Inr u, s1)"
      by (auto split: prod.splits sum.splits)
    from ap obtain fs where "s3 = s2\<lparr>schema_versions := schema_versions s2 @ [v], faults := fs\<rparr>"
      by (rule apply_migration_versions) simp
    with Cons.IH [OF rest] b show ?thesis by auto
  qed
qed

lemma run_migrations_done:
  "faults s = [] \<Longrightarrow> set vs \<subseteq> set (schema_versions s) \<Longrightarrow> run_migrations vs s = (Inr (), s)"
  by (induction vs) (simp_all add: sql_no_fault select_def)

text \<open>
  Migrations. A \<open>migrate\<close> that succeeds has recorded all seven versions and touched nothing else
  of the store, and running it again on the result changes nothing.
\<close>

theorem migrate_once:
  assumes "migrate s = (Inr u, s1)" and "faults s1 = []"
  shows "{1..7} \<subseteq> set (schema_versions s1) \<and> s1\<lparr>schema_versions := schema_versions s, faults := faults s\<rparr> = s \<and>
         migrate s1 = (Inr (), s1)"
proof -
  from assms(1) obtain x s0 where n: "sql noop s = (x, s0)" and run: "run_migrations [1..<8] s0 = (Inr u, s1)"
    by (auto simp: migrate_def migration_count_def split: prod.splits sum.splits)
  obtain fs where s0: "s0 = s\<lparr>faults := fs\<rparr>" using noop_cases [OF n] by blast
  have v: "set [1..<8] \<subseteq> set (schema_versions s1)" using run_migrations_versions [OF run] by blast
  have "s1\<lparr>schema_versions := schema_versions s, faults := faults s\<rparr> = s"
    using run_migrations_versions [OF run] s0 by auto
  moreover have "migrate s1 = (Inr (), s1)"
    using run_migrations_done [OF assms(2) v] assms(2) by (simp add: migrate_def sql_no_fault noop_def migration_count_def)
  moreover have "{1..7} = set [1..<8 :: nat]" by auto
  ultimately show ?thesis using v by simp
qed

lemma migrate_once_witness:
  "\<exists>s1. migrate (new_store ''sqlite'' ''w'') = (Inr (), s1) \<and> {1..7} \<subseteq> set (schema_versions s1)"
proof -
  obtain s1 where m: "migrate (new_store ''sqlite'' ''w'') = (Inr (), s1)" "faults s1 = []"
    by (simp add: migrate_def migration_count_def upt_rec sql_def noop_def select_def new_store_def
        apply_migration_def record_version_def)
  from migrate_once [OF this] m show ?thesis by blast
qed

end
