(* ===== verification/Base64.thy ===== *)
theory Base64
  imports Go_Prelude
begin

text \<open>
  \<open>encoding/base64\<close>'s \<open>StdEncoding\<close>, as AUTH, the MIME bodies, the configuration and the DKIM
  records use it: the alphabet of RFC 4648 with padding, line breaks ignored, unused bits of the
  last group not checked (the encoding is not strict).
\<close>

definition b64_char :: "nat \<Rightarrow> char" where
  "b64_char n = (if n < 26 then char_of (65 + n) else if n < 52 then char_of (71 + n)
                 else if n < 62 then char_of (n - 4) else if n = 62 then CHR ''+'' else CHR ''/'')"

definition b64_val :: "char \<Rightarrow> nat option" where
  "b64_val c = (let n = of_char c :: nat in
     if 65 \<le> n \<and> n \<le> 90 then Some (n - 65) else if 97 \<le> n \<and> n \<le> 122 then Some (n - 71)
     else if 48 \<le> n \<and> n \<le> 57 then Some (n + 4) else if n = 43 then Some 62
     else if n = 47 then Some 63 else None)"

fun EncodeToString :: "string \<Rightarrow> string" where
  "EncodeToString [] = []"
| "EncodeToString [x] =
     (let n = of_char x * 16 in [b64_char (n div 64), b64_char (n mod 64), CHR ''='', CHR ''=''])"
| "EncodeToString [x, y] =
     (let n = (of_char x * 256 + of_char y) * 4 in
      [b64_char (n div 4096), b64_char (n div 64 mod 64), b64_char (n mod 64), CHR ''=''])"
| "EncodeToString (x # y # z # r) =
     (let n = of_char x * 65536 + of_char y * 256 + of_char z in
      b64_char (n div 262144) # b64_char (n div 4096 mod 64) # b64_char (n div 64 mod 64) # b64_char (n mod 64)
      # EncodeToString r)"

fun b64_quanta :: "string \<Rightarrow> string option" where
  "b64_quanta [] = Some []"
| "b64_quanta (a # b # c # d # r) =
     (case (b64_val a, b64_val b) of
        (Some i, Some j) \<Rightarrow>
          (case b64_val c of
             Some k \<Rightarrow>
               (case b64_val d of
                  Some l \<Rightarrow>
                    (let n = i * 262144 + j * 4096 + k * 64 + l in
                     map_option (\<lambda>t. char_of (n div 65536) # char_of (n div 256 mod 256) # char_of (n mod 256) # t)
                       (b64_quanta r))
                | None \<Rightarrow>
                    if d = CHR ''='' \<and> r = []
                    then (let n = i * 1024 + j * 16 + k div 4 in
                          Some [char_of (n div 256 mod 256), char_of (n mod 256)])
                    else None)
           | None \<Rightarrow>
               if c = CHR ''='' \<and> d = CHR ''='' \<and> r = []
               then Some [char_of ((i * 4 + j div 16) mod 256)] else None)
      | _ \<Rightarrow> None)"
| "b64_quanta _ = None"

definition DecodeString :: "string \<Rightarrow> string option" where
  "DecodeString s = b64_quanta (filter (\<lambda>c. c \<noteq> LF \<and> c \<noteq> CR) s)"

section \<open>Round trip\<close>

lemma b64_val_char: "n < 64 \<Longrightarrow> b64_val (b64_char n) = Some n"
  by (auto simp: b64_val_def b64_char_def Let_def)

lemma b64_char_not_space: "n < 64 \<Longrightarrow> \<not> is_space (b64_char n)"
proof -
  assume n: "n < 64"
  have "is_space c \<Longrightarrow> b64_val c = None" for c by (auto simp: is_space_def b64_val_def)
  with b64_val_char [OF n] show ?thesis by force
qed

lemma recombine4:
  fixes n :: nat
  shows "n div 262144 * 262144 + n div 4096 mod 64 * 4096 + n div 64 mod 64 * 64 + n mod 64 = n"
proof -
  define a b c where "a = n div 64" and "b = a div 64" and "c = b div 64"
  have eq: "n div 4096 = b" "n div 262144 = c" by (simp_all add: a_def b_def c_def div_mult2_eq [symmetric])
  have "n = a * 64 + n mod 64" "a = b * 64 + a mod 64" "b = c * 64 + b mod 64"
    by (simp_all add: a_def b_def c_def)
  then show ?thesis unfolding eq a_def [symmetric] by linarith
qed

lemma split3:
  fixes x y z :: nat
  assumes "y < 256" and "z < 256"
  shows "(x * 65536 + y * 256 + z) div 65536 = x" "(x * 65536 + y * 256 + z) div 256 mod 256 = y"
    "(x * 65536 + y * 256 + z) mod 256 = z"
proof -
  define n where "n = x * 65536 + y * 256 + z"
  have n: "n = (x * 256 + y) * 256 + z" by (simp add: n_def)
  have d: "n div 256 = x * 256 + y" unfolding n using assms(2) by simp
  then show "(x * 65536 + y * 256 + z) div 256 mod 256 = y" using assms(1) by (simp add: n_def)
  have "n div 65536 = n div 256 div 256" by (simp add: div_mult2_eq [symmetric])
  then show "(x * 65536 + y * 256 + z) div 65536 = x" using d assms(1) by (simp add: n_def)
  show "(x * 65536 + y * 256 + z) mod 256 = z" using n assms(2) by (metis mod_less mod_mult_self3 n_def)
qed

lemma quanta_three:
  fixes n :: nat
  assumes "n < 16777216"
  shows "b64_quanta (b64_char (n div 262144) # b64_char (n div 4096 mod 64) # b64_char (n div 64 mod 64) # b64_char (n mod 64) # r) =
    map_option (\<lambda>t. char_of (n div 65536) # char_of (n div 256 mod 256) # char_of (n mod 256) # t) (b64_quanta r)"
proof -
  have lt: "n div 262144 < 64" "n div 4096 mod 64 < 64" "n div 64 mod 64 < 64" "n mod 64 < 64" using assms by simp_all
  show ?thesis
    by (simp only: b64_quanta.simps b64_val_char [OF lt(1)] b64_val_char [OF lt(2)] b64_val_char [OF lt(3)]
        b64_val_char [OF lt(4)] prod.case option.case Let_def recombine4)
qed

lemma b64_pad [simp]: "b64_val CHR ''='' = None"
  by (simp add: b64_val_def)

lemma quanta_two:
  fixes x y :: nat
  assumes "x < 256" and "y < 256"
  defines "n \<equiv> (x * 256 + y) * 4"
  shows "b64_quanta [b64_char (n div 4096), b64_char (n div 64 mod 64), b64_char (n mod 64), CHR ''=''] =
    Some [char_of x, char_of y]"
proof -
  have lt: "n div 4096 < 64" "n div 64 mod 64 < 64" "n mod 64 < 64" using assms by simp_all
  have "n div 4096 * 1024 + n div 64 mod 64 * 16 + n mod 64 div 4 = x * 256 + y"
  proof -
    define m where "m = x * 256 + y"
    have nm: "n = m * 4" by (simp add: n_def m_def)
    have "n div 4096 = m div 1024" using div_mult_mult2 [of 4 m 1024] by (simp add: nm)
    moreover have "n div 64 = m div 16" using div_mult_mult2 [of 4 m 16] by (simp add: nm)
    moreover have "n mod 64 = m mod 16 * 4" using mod_mult_mult2 [of m 4 16] by (simp add: nm)
    moreover have "m div 1024 * 1024 + m div 16 mod 64 * 16 + m mod 16 = m"
    proof -
      have "m = m div 16 * 16 + m mod 16" by simp
      moreover have "m div 16 = m div 16 div 64 * 64 + m div 16 mod 64" by (rule div_mult_mod_eq [symmetric])
      moreover have "m div 16 div 64 = m div 1024" by (simp add: div_mult2_eq [symmetric])
      ultimately show ?thesis by linarith
    qed
    ultimately show ?thesis unfolding m_def [symmetric] by simp
  qed
  with lt assms show ?thesis by (simp add: b64_val_char)
qed


lemma quanta_one:
  fixes x :: nat
  assumes "x < 256"
  shows "b64_quanta [b64_char (x * 16 div 64), b64_char (x * 16 mod 64), CHR ''='', CHR ''=''] = Some [char_of x]"
proof -
  have lt: "x * 16 div 64 < 64" "x * 16 mod 64 < 64" using assms by simp_all
  have "x * 16 div 64 = x div 4" using div_mult_mult2 [of 16 x 4] by simp
  moreover have "x * 16 mod 64 = x mod 4 * 16" using mod_mult_mult2 [of x 16 4] by simp
  ultimately have "x * 16 div 64 * 4 + x * 16 mod 64 div 16 = x" by simp
  with lt assms show ?thesis by (simp add: b64_val_char)
qed

lemma b64_quanta_encode: "b64_quanta (EncodeToString s) = Some s"
proof (induction s rule: EncodeToString.induct)
  case (2 x)
  then show ?case using quanta_one [of "of_char x"] by (simp add: Let_def)
next
  case (3 x y)
  then show ?case using quanta_two [of "of_char x" "of_char y"] by (simp add: Let_def)
next
  case (4 x y z r)
  let ?x = "of_char x :: nat" and ?y = "of_char y :: nat" and ?z = "of_char z :: nat"
  define n where "n = ?x * 65536 + ?y * 256 + ?z"
  have "?x < 256" "?y < 256" "?z < 256" by simp_all
  then have "n < 16777216" unfolding n_def by linarith
  moreover have "n div 65536 = ?x" "n div 256 mod 256 = ?y" "n mod 256 = ?z" by (simp_all only: n_def split3 nat_of_char_less_256)
  ultimately show ?case
    using quanta_three [of n "EncodeToString r"] 4
    by (simp only: EncodeToString.simps Let_def n_def [symmetric] option.map char_of_char)
qed simp

lemma two_bytes: "x < 256 \<Longrightarrow> y < 256 \<Longrightarrow> (x * 256 + y) * 4 div 4096 < (64 :: nat)"
  by (intro less_mult_imp_div_less) simp

lemma three_bytes: "x < 256 \<Longrightarrow> y < 256 \<Longrightarrow> z < 256 \<Longrightarrow> (x * 65536 + y * 256 + z) div 262144 < (64 :: nat)"
  by (intro less_mult_imp_div_less) simp

lemma not_space_pad: "\<not> is_space CHR ''=''"
  by (simp add: is_space_def)

lemma EncodeToString_no_space: "c \<in> set (EncodeToString s) \<Longrightarrow> \<not> is_space c"
proof (induction s rule: EncodeToString.induct)
  case (2 x)
  have "(of_char x * 16 div 64 :: nat) < 64"
    using nat_of_char_less_256 [of x] by (intro less_mult_imp_div_less) linarith
  with 2 show ?case by (auto simp: Let_def b64_char_not_space not_space_pad)
next
  case (3 x y)
  define n :: nat where "n = (of_char x * 256 + of_char y) * 4"
  have "n div 4096 < 64"
    using two_bytes [of "of_char x" "of_char y"] unfolding n_def by simp
  with 3 [unfolded EncodeToString.simps Let_def, folded n_def] show ?case by (auto simp: b64_char_not_space not_space_pad)
next
  case (4 x y z r)
  define n :: nat where "n = of_char x * 65536 + of_char y * 256 + of_char z"
  have "n div 262144 < 64"
    using three_bytes [of "of_char x" "of_char y" "of_char z"] unfolding n_def by simp
  with 4 [unfolded EncodeToString.simps Let_def, folded n_def] show ?case by (auto simp: b64_char_not_space not_space_pad)
qed simp

lemma DecodeString_EncodeToString: "DecodeString (EncodeToString s) = Some s"
proof -
  have "filter (\<lambda>c. c \<noteq> LF \<and> c \<noteq> CR) (EncodeToString s) = EncodeToString s"
    using EncodeToString_no_space [of _ s] by (intro filter_True) (auto simp: is_space_def)
  then show ?thesis by (simp add: DecodeString_def b64_quanta_encode)
qed

lemma EncodeToString_eq_Nil [simp]: "EncodeToString s = [] \<longleftrightarrow> s = []"
  by (cases s rule: EncodeToString.cases) (simp_all add: Let_def)

end
