(* ===== verification/Msg.thy ===== *)
theory Msg
  imports Base64 Store_Base
begin

text \<open>
  Building and taking apart messages: \<open>internal/sends/msg.go\<close>. What the code
  calls of the packages \<open>mime\<close>, \<open>mime/multipart\<close> and \<open>mime/quotedprintable\<close> is the record \<open>mimelib\<close>,
  an argument of the definitions; nothing is assumed about it except where a theorem says so.
\<close>

section \<open>The MIME packages\<close>

record mime_part =
  part_ct :: string
  part_cte :: string
  part_body :: string
  part_err :: bool

record mimelib =
  ParseMediaType :: "string \<Rightarrow> (string \<times> (string \<times> string) list) option"
  DecodeHeader :: "(string \<Rightarrow> string \<Rightarrow> string) \<Rightarrow> string \<Rightarrow> string option"
  QPReader :: "string \<Rightarrow> string option"
  Parts :: "string \<Rightarrow> string \<Rightarrow> mime_part list"
  QEncode :: "string \<Rightarrow> string"

definition param :: "string \<Rightarrow> (string \<times> string) list \<Rightarrow> string" where
  "param k ps = (case map_of ps k of None \<Rightarrow> [] | Some v \<Rightarrow> v)"

section \<open>Character sets\<close>

text \<open>\<open>WriteRune\<close> of a rune below \<open>0x10000\<close>: its UTF-8 bytes.\<close>

definition utf8_rune :: "nat \<Rightarrow> string" where
  "utf8_rune n = (if n < 128 then [char_of n]
     else if n < 2048 then [char_of (192 + n div 64), char_of (128 + n mod 64)]
     else [char_of (224 + n div 4096), char_of (128 + n div 64 mod 64), char_of (128 + n mod 64)])"

definition latin1ToUTF8 :: "string \<Rightarrow> string" where
  "latin1ToUTF8 b = concat (map (\<lambda>c. if (of_char c :: nat) < 128 then [c] else utf8_rune (of_char c)) b)"

definition cp1252High :: "nat list" where
  "cp1252High = [0x20AC, 0x81, 0x201A, 0x192, 0x201E, 0x2026, 0x2020, 0x2021, 0x2C6, 0x2030, 0x160, 0x2039, 0x152, 0x8D, 0x17D, 0x8F,
                 0x90, 0x2018, 0x2019, 0x201C, 0x201D, 0x2022, 0x2013, 0x2014, 0x2DC, 0x2122, 0x161, 0x203A, 0x153, 0x9D, 0x17E, 0x178]"

definition cp1252ToUTF8 :: "string \<Rightarrow> string" where
  "cp1252ToUTF8 b = concat (map (\<lambda>c. let n = of_char c :: nat in
     if n < 128 then [c] else if 160 \<le> n then utf8_rune n else utf8_rune (cp1252High ! (n - 128))) b)"

definition cont_byte :: "char \<Rightarrow> bool" where
  "cont_byte c \<longleftrightarrow> 128 \<le> (of_char c :: nat) \<and> (of_char c :: nat) < 192"

text \<open>\<open>utf8.Valid\<close>: no overlong forms, no surrogates, nothing above \<open>U+10FFFF\<close>.\<close>

fun utf8_valid :: "string \<Rightarrow> bool" where
  "utf8_valid [] = True"
| "utf8_valid (a # r) = (let n = of_char a :: nat in
     if n < 128 then utf8_valid r
     else if 194 \<le> n \<and> n < 224 then (case r of b # r' \<Rightarrow> cont_byte b \<and> utf8_valid (tl r) | _ \<Rightarrow> False)
     else if 224 \<le> n \<and> n < 240 then
       (case r of b # c # r' \<Rightarrow> cont_byte b \<and> cont_byte c \<and> (n = 224 \<longrightarrow> 160 \<le> (of_char b :: nat)) \<and>
                    (n = 237 \<longrightarrow> (of_char b :: nat) < 160) \<and> utf8_valid (drop 2 r) | _ \<Rightarrow> False)
     else if 240 \<le> n \<and> n < 245 then
       (case r of b # c # d # r' \<Rightarrow> cont_byte b \<and> cont_byte c \<and> cont_byte d \<and> (n = 240 \<longrightarrow> 144 \<le> (of_char b :: nat)) \<and>
                    (n = 244 \<longrightarrow> (of_char b :: nat) < 144) \<and> utf8_valid (drop 3 r) | _ \<Rightarrow> False)
     else False)"

definition decodeCharset :: "string \<Rightarrow> string \<Rightarrow> string" where
  "decodeCharset charset b =
     (let cs = ToLower (TrimSpace charset) in
      if cs \<in> {[], ''utf-8'', ''utf8'', ''us-ascii'', ''ascii''} then b
      else if cs \<in> {''iso-8859-1'', ''iso8859-1'', ''latin1''} then latin1ToUTF8 b
      else if cs \<in> {''windows-1252'', ''cp1252''} then cp1252ToUTF8 b
      else if utf8_valid b then b else latin1ToUTF8 b)"

text \<open>The reader given to the word decoder; input is capped at 64 KiB.\<close>

definition charsetReader :: "string \<Rightarrow> string \<Rightarrow> string" where
  "charsetReader charset input = decodeCharset charset (take 65536 input)"

definition decodeHeaderWords :: "mimelib \<Rightarrow> string \<Rightarrow> string" where
  "decodeHeaderWords lib raw =
     (case DecodeHeader lib charsetReader raw of Some s \<Rightarrow> s | None \<Rightarrow> raw)"

definition decodeCTE :: "mimelib \<Rightarrow> string \<Rightarrow> string \<Rightarrow> string" where
  "decodeCTE lib cte raw =
     (let c = ToLower (TrimSpace cte) in
      if c = ''base64'' then
        (case DecodeString (filter (\<lambda>r. \<not> (r = LF \<or> r = CR \<or> r = CHR '' '' \<or> r = TAB)) raw) of
           Some out \<Rightarrow> out | None \<Rightarrow> raw)
      else if c = ''quoted-printable'' then (case QPReader lib raw of Some out \<Rightarrow> out | None \<Rightarrow> raw)
      else raw)"

section \<open>Headers\<close>

text \<open>The index just after the blank line, and the length of the separator.\<close>

definition headerEnd :: "string \<Rightarrow> (nat \<times> nat) option" where
  "headerEnd data =
     (case Index data (crlf @ crlf) of
        Some i \<Rightarrow> Some (i + 4, 4)
      | None \<Rightarrow> (case Index data [LF, LF] of Some i \<Rightarrow> Some (i + 2, 2) | None \<Rightarrow> None))"

type_synonym headers = "string \<rightharpoonup> string"

definition hdr :: "headers \<Rightarrow> string \<Rightarrow> string" where
  "hdr h k = (case h k of None \<Rightarrow> [] | Some v \<Rightarrow> v)"

fun header_lines :: "string list \<Rightarrow> headers \<Rightarrow> string \<Rightarrow> headers" where
  "header_lines [] hdrs lastKey = hdrs"
| "header_lines (l # ls) hdrs lastKey =
     (let ln = TrimSuffix l [CR] in
      if ln = [] then header_lines ls hdrs lastKey
      else if hd ln = CHR '' '' \<or> hd ln = TAB then
        header_lines ls (if lastKey \<noteq> [] then hdrs(lastKey \<mapsto> hdr hdrs lastKey @ '' '' @ TrimSpace ln) else hdrs) lastKey
      else case Cut ln CHR '':'' of
          None \<Rightarrow> header_lines ls hdrs lastKey
        | Some (k, v) \<Rightarrow>
            (let key = ToLower (TrimSpace k) in header_lines ls (hdrs(key \<mapsto> TrimSpace v)) key))"

definition parseHeaders :: "string \<Rightarrow> headers" where
  "parseHeaders head = header_lines (SplitByte LF head) Map.empty []"

section \<open>Parsing\<close>

record parsed =
  p_subject :: string
  p_text :: string
  p_html :: string

definition empty_parsed :: parsed where
  "empty_parsed = \<lparr>p_subject = [], p_text = [], p_html = []\<rparr>"

definition maxPartBytes :: nat where
  "maxPartBytes = 2097152"

definition collectBody :: "mimelib \<Rightarrow> string \<Rightarrow> string \<Rightarrow> string \<Rightarrow> string \<Rightarrow> parsed \<Rightarrow> parsed" where
  "collectBody lib raw mediaType charset cte p =
     (let s = TrimRight (decodeCharset charset (decodeCTE lib cte raw)) crlf in
      if mediaType = ''text/html'' then p\<lparr>p_html := s\<rparr>
      else if HasPrefix mediaType ''text/'' then p\<lparr>p_text := s\<rparr>
      else p)"

text \<open>An error of \<open>ParseMediaType\<close> makes the part plain text with no parameters.\<close>

definition media_type :: "mimelib \<Rightarrow> string \<Rightarrow> string \<times> (string \<times> string) list" where
  "media_type lib ct = (case ParseMediaType lib ct of None \<Rightarrow> (''text/plain'', []) | Some r \<Rightarrow> r)"

definition collectPart ::
    "mimelib \<Rightarrow> (string \<Rightarrow> string \<Rightarrow> nat \<times> parsed \<Rightarrow> nat \<times> parsed) \<Rightarrow> mime_part \<Rightarrow> nat \<times> parsed \<Rightarrow> nat \<times> parsed" where
  "collectPart lib walk part acc =
     (let (mt, params) = media_type lib (part_ct part) in
      if HasPrefix mt ''multipart/'' \<and> param ''boundary'' params \<noteq> []
      then walk (part_body part) (param ''boundary'' params) acc
      else if part_err part then acc
      else apsnd (collectBody lib (take maxPartBytes (part_body part)) mt (param ''charset'' params) (part_cte part)) acc)"

text \<open>
  The recursive closure \<open>walk\<close>: its first argument is how many levels are left, \<open>5 - depth\<close>. The
  accumulator is the number of parts seen and the fields found.
\<close>

fun walk :: "mimelib \<Rightarrow> nat \<Rightarrow> string \<Rightarrow> string \<Rightarrow> nat \<times> parsed \<Rightarrow> nat \<times> parsed" where
  "walk lib 0 body b acc = acc"
| "walk lib (Suc k) body b acc =
     (if fst acc > 200 then acc
      else foldl (\<lambda>acc part. collectPart lib (walk lib k) part (apfst Suc acc)) acc (Parts lib b body))"

definition parseMsg :: "mimelib \<Rightarrow> string \<Rightarrow> parsed" where
  "parseMsg lib data =
     (case headerEnd data of
        None \<Rightarrow> empty_parsed\<lparr>p_text := decodeCharset [] data\<rparr>
      | Some (headEnd, sepLen) \<Rightarrow>
          let head = take (headEnd - sepLen) data;
              body = drop headEnd data;
              hdrs = parseHeaders head;
              p = (if hdr hdrs ''subject'' \<noteq> [] then empty_parsed\<lparr>p_subject := decodeHeaderWords lib (hdr hdrs ''subject'')\<rparr>
                   else empty_parsed);
              (mt, params) = media_type lib (hdr hdrs ''content-type'');
              cte = hdr hdrs ''content-transfer-encoding'';
              charset = param ''charset'' params;
              p = (if HasPrefix mt ''multipart/'' \<and> param ''boundary'' params \<noteq> []
                   then snd (walk lib 5 body (param ''boundary'' params) (0, p))
                   else collectBody lib body mt charset cte p)
          in if \<not> HasPrefix mt ''multipart/'' \<and> p_text p = [] \<and> p_html p = [] \<and> length body > 0
             then collectBody lib body ''text/plain'' charset cte p else p)"

section \<open>Quoted-printable\<close>

definition hex_upper :: "nat \<Rightarrow> char" where
  "hex_upper n = (if n < 10 then char_of (48 + n) else char_of (55 + n))"

definition qp_hex :: "char \<Rightarrow> string" where
  "qp_hex c = [CHR ''='', hex_upper (of_char c div 16), hex_upper (of_char c mod 16)]"

definition qp_tok :: "char \<Rightarrow> string \<Rightarrow> string" where
  "qp_tok c rest =
     (if c = CHR ''='' then ''=3D''
      else if c = CHR '' '' \<or> c = TAB then
        (if rest \<noteq> [] \<and> (hd rest = LF \<or> hd rest = CR) then qp_hex c else [c])
      else if 33 \<le> (of_char c :: nat) \<and> (of_char c :: nat) \<le> 126 then [c]
      else qp_hex c)"

fun qp_loop :: "nat \<Rightarrow> string \<Rightarrow> string" where
  "qp_loop col [] = []"
| "qp_loop col (c # r) =
     (if c = CR then qp_loop col r
      else if c = LF then crlf @ qp_loop 0 r
      else let tok = qp_tok c r in
        if col + length tok > 76 \<and> col > 0
        then ''='' @ crlf @ tok @ qp_loop (length tok) r
        else tok @ qp_loop (col + length tok) r)"

definition qpEncode :: "string \<Rightarrow> string" where
  "qpEncode s = qp_loop 0 s"

section \<open>Building\<close>

text \<open>One header line.\<close>

definition hline :: "string \<Rightarrow> string" where
  "hline s = s @ crlf"

definition writePart :: "string \<Rightarrow> string \<Rightarrow> string \<Rightarrow> string" where
  "writePart bstr mediaType content =
     hline (''--'' @ bstr) @ hline (''Content-Type: '' @ mediaType @ ''; charset='' @ quoted ''utf-8'') @
     hline ''Content-Transfer-Encoding: quoted-printable'' @ hline [] @ qpEncode content @ crlf"

definition message_head :: "mimelib \<Rightarrow> string \<Rightarrow> string \<Rightarrow> string \<Rightarrow> string list \<Rightarrow> string \<Rightarrow> string" where
  "message_head lib date mid sender to subject =
     hline (''Date: '' @ date) @ hline (''From: '' @ sender) @ hline (''To: '' @ Join to '', '') @
     hline (''Subject: '' @ QEncode lib subject) @ hline (''Message-ID: <'' @ mid @ ''@carteiro>'') @
     hline ''MIME-Version: 1.0'' @ hline ''Auto-Submitted: auto-generated''"

definition message_content :: "string \<Rightarrow> string \<Rightarrow> string \<Rightarrow> string" where
  "message_content bstr text html =
     (if html \<noteq> [] \<and> text \<noteq> [] then
        hline (''Content-Type: multipart/alternative; boundary='' @ quoted bstr) @ hline [] @
        writePart bstr ''text/plain'' text @ writePart bstr ''text/html'' html @ hline (''--'' @ bstr @ ''--'')
      else if html \<noteq> [] then
        hline (''Content-Type: text/html; charset='' @ quoted ''utf-8'') @
        hline ''Content-Transfer-Encoding: quoted-printable'' @ hline [] @ qpEncode html @ crlf
      else
        hline (''Content-Type: text/plain; charset='' @ quoted ''utf-8'') @
        hline ''Content-Transfer-Encoding: quoted-printable'' @ hline [] @ qpEncode text @ crlf)"

text \<open>\<open>date\<close> is the formatted time, \<open>rnd\<close> the eight random bytes of the boundary.\<close>

definition BuildMessage ::
    "mimelib \<Rightarrow> string \<Rightarrow> string res \<Rightarrow> string \<Rightarrow> string \<Rightarrow> string list \<Rightarrow> string \<Rightarrow> string \<Rightarrow> string \<Rightarrow> string res" where
  "BuildMessage lib date rnd mid sender to subject0 text html =
     (if mid = [] then Inl (Errorf ''id must not be empty'')
      else if sender = [] then Inl (Errorf ''sender must not be empty'')
      else if length to = 0 then Inl (Errorf ''at least one recipient is required'')
      else if TrimSpace text = [] \<and> TrimSpace html = [] then Inl (Errorf ''a text or HTML body is required'')
      else if list_ex (\<lambda>v. ContainsAny v crlf) (to @ [sender, subject0])
      then Inl (Errorf ''header values must not contain line breaks'')
      else let subject = (if subject0 = [] then ''(no subject)'' else subject0)
      in case rnd of
           Inl err \<Rightarrow> Inl (Wrapf ''generating boundary: '' err)
         | Inr bytes \<Rightarrow>
             Inr (message_head lib date mid sender to subject @
                  message_content (''carteiro-'' @ toHex bytes) text html))"

end
