(* ===== verification/Msg_Laws.thy ===== *)
theory Msg_Laws
  imports Msg
begin

text \<open>
  Laws of \<open>msg.go\<close>: quoted-printable text decodes to what was encoded and keeps its lines short, and
  the headers of a built message are exactly the ones meant, whatever the caller passes.
\<close>

section \<open>Quoted-printable\<close>

text \<open>The decoder of RFC 2045, section 6.7, on text without stray trailing white space.\<close>

definition qp_val :: "char \<Rightarrow> nat option" where
  "qp_val c = (let n = of_char c :: nat in
     if 48 \<le> n \<and> n \<le> 57 then Some (n - 48) else if 65 \<le> n \<and> n \<le> 70 then Some (n - 55) else None)"

fun qp_decode :: "string \<Rightarrow> string option" where
  "qp_decode [] = Some []"
| "qp_decode (c # r) =
     (if c = CHR ''='' then
        (case r of
           a # b # r' \<Rightarrow>
             if a = CR \<and> b = LF then qp_decode (drop 2 r)
             else (case (qp_val a, qp_val b) of
                     (Some h, Some l) \<Rightarrow> map_option (Cons (char_of (16 * h + l))) (qp_decode (drop 2 r))
                   | _ \<Rightarrow> None)
         | _ \<Rightarrow> None)
      else map_option (Cons c) (qp_decode r))"

text \<open>The text that is encoded: line ends become CR LF.\<close>

definition canonical :: "string \<Rightarrow> string" where
  "canonical s = concat (map (\<lambda>c. if c = CR then [] else if c = LF then crlf else [c]) s)"

lemma qp_val_hex: "n < 16 \<Longrightarrow> qp_val (hex_upper n) = Some n \<and> hex_upper n \<noteq> CR"
proof -
  assume n: "n < 16"
  have "qp_val CR = None" by (simp add: qp_val_def)
  moreover have "qp_val (hex_upper n) = Some n" using n by (auto simp: qp_val_def hex_upper_def Let_def)
  ultimately show ?thesis by force
qed

lemma qp_decode_hex: "qp_decode (qp_hex c @ r) = map_option (Cons c) (qp_decode r)"
proof -
  define n where "n = (of_char c :: nat)"
  have n: "n div 16 < 16" "n mod 16 < 16"
    using nat_of_char_less_256 [of c] unfolding n_def by (auto intro!: less_mult_imp_div_less)
  have "char_of (16 * (n div 16) + n mod 16) = c" by (simp add: n_def)
  with qp_val_hex [OF n(1)] qp_val_hex [OF n(2)] show ?thesis
    unfolding qp_hex_def n_def [symmetric] by simp
qed

lemma qp_decode_tok: "qp_decode (qp_tok c rest @ r) = map_option (Cons c) (qp_decode r)"
proof (cases "c = CHR ''=''")
  case True
  have "qp_hex CHR ''='' = ''=3D''" by code_simp
  then have "qp_tok c rest = qp_hex c" by (simp add: True qp_tok_def)
  then show ?thesis by (simp add: qp_decode_hex)
next
  case False
  then show ?thesis by (auto simp: qp_tok_def qp_decode_hex)
qed

lemma qp_decode_loop: "qp_decode (qp_loop col s) = Some (canonical s)"
proof (induction col s rule: qp_loop.induct)
  case (2 col c r)
  let ?tok = "qp_tok c r"
  consider "c = CR" | "c = LF" | "c \<noteq> CR" "c \<noteq> LF" by blast
  then show ?case
  proof cases
    case 3
    then have can: "canonical (c # r) = c # canonical r" by (simp add: canonical_def)
    show ?thesis
    proof (cases "col + length ?tok > 76 \<and> col > 0")
      case True
      then have "qp_loop col (c # r) = CHR ''='' # CR # LF # ?tok @ qp_loop (length ?tok) r" using 3 by (simp add: Let_def)
      then show ?thesis using "2.IH"(3) [OF 3 refl True] can by (simp add: qp_decode_tok del: qp_loop.simps)
    next
      case False
      then have "qp_loop col (c # r) = ?tok @ qp_loop (col + length ?tok) r" using 3 by (auto simp: Let_def)
      then show ?thesis using "2.IH"(4) [OF 3 refl False] can by (simp add: qp_decode_tok del: qp_loop.simps)
    qed
  qed (use "2.IH" in \<open>simp_all add: canonical_def\<close>)
qed (simp add: canonical_def)


lemma length_qp_tok: "length (qp_tok c r) \<le> 3 \<and> length (qp_tok c r) \<noteq> 0"
  by (simp add: qp_tok_def qp_hex_def)

lemma qp_hex_no_LF: "LF \<notin> set (qp_hex c)"
proof -
  define n where "n = (of_char c :: nat)"
  have "qp_val LF = None" by (simp add: qp_val_def)
  then have h: "hex_upper n \<noteq> LF" if "n < 16" for n using qp_val_hex [OF that] by force
  have "n div 16 < 16" "n mod 16 < 16"
    using nat_of_char_less_256 [of c] unfolding n_def by (auto intro!: less_mult_imp_div_less)
  from h [OF this(1)] h [OF this(2)] show ?thesis unfolding qp_hex_def n_def [symmetric] by simp
qed

lemma qp_tok_no_LF: "c \<noteq> LF \<Longrightarrow> LF \<notin> set (qp_tok c r)"
  by (simp add: qp_tok_def qp_hex_no_LF)

lemma SplitByte_all:
  "(\<forall>l \<in> set (SplitByte sep x). P l) \<longleftrightarrow> P (hd (SplitByte sep x)) \<and> (\<forall>l \<in> set (tl (SplitByte sep x)). P l)"
  using SplitByte_ne [of sep x] by (cases "SplitByte sep x") auto

lemma SplitByte_prefix:
  "sep \<notin> set a \<Longrightarrow> SplitByte sep (a @ b) = (a @ hd (SplitByte sep b)) # tl (SplitByte sep b)"
  by (induction a) (auto split: list.splits)

text \<open>With \<open>col\<close> characters on the line, the rest of it and all later lines fit.\<close>

lemma qp_loop_lines:
  "col \<le> 76 \<Longrightarrow> col + length (hd (SplitByte LF (qp_loop col s))) \<le> 78 \<and>
     (\<forall>l \<in> set (tl (SplitByte LF (qp_loop col s))). length l \<le> 78)"
proof (induction col s rule: qp_loop.induct)
  case (2 col c r)
  let ?tok = "qp_tok c r" and ?S = "SplitByte LF"
  consider (cr) "c = CR" | (lf) "c = LF" | (tok) "c \<noteq> CR" "c \<noteq> LF" by blast
  then show ?case
  proof cases
    case cr
    then show ?thesis using 2 by simp
  next
    case lf
    have "?S (qp_loop col (c # r)) = [CR] # ?S (qp_loop 0 r)"
      using lf SplitByte_append [of LF "[CR]" "qp_loop 0 r"] by simp
    moreover have "\<forall>l \<in> set (?S (qp_loop 0 r)). length l \<le> 78"
      using "2.IH"(2) lf by (simp add: SplitByte_all)
    ultimately show ?thesis using "2.prems" by simp
  next
    case tok
    note no = qp_tok_no_LF [OF tok(2), of r] and len = length_qp_tok [of c r]
    show ?thesis
    proof (cases "col + length ?tok > 76 \<and> col > 0")
      case True
      let ?q = "qp_loop (length ?tok) r"
      have e: "qp_loop col (c # r) = [CHR ''='', CR] @ LF # ?tok @ ?q" using tok True by (simp add: Let_def)
      have S: "?S (qp_loop col (c # r)) = [CHR ''='', CR] # (?tok @ hd (?S ?q)) # tl (?S ?q)"
        unfolding e by (subst SplitByte_append) (simp_all add: SplitByte_prefix [OF no])
      have "length ?tok + length (hd (?S ?q)) \<le> 78 \<and> (\<forall>l \<in> set (tl (?S ?q)). length l \<le> 78)"
        using "2.IH"(3) [OF tok refl True] len by simp
      then show ?thesis unfolding S using "2.prems" by simp
    next
      case False
      let ?q = "qp_loop (col + length ?tok) r"
      have e: "qp_loop col (c # r) = ?tok @ ?q" using tok False by (auto simp: Let_def)
      have "col + length ?tok \<le> 76" using False len by auto
      then have "col + length ?tok + length (hd (?S ?q)) \<le> 78 \<and> (\<forall>l \<in> set (tl (?S ?q)). length l \<le> 78)"
        using "2.IH"(4) [OF tok refl False] by simp
      then show ?thesis unfolding e SplitByte_prefix [OF no] by simp
    qed
  qed
qed simp

text \<open>
  Line lengths: no line of \<open>qpEncode\<close>'s output, its CR included, is longer than 78 characters,
  that is 77 without the CR; and 77 does occur, one more than the 76 that the code's comment states
  and that RFC 2045 allows.
\<close>

theorem qpEncode_line_length:
  "list_all (\<lambda>l. length l \<le> 78) (SplitByte LF (qpEncode s)) \<and>
   (\<exists>s'. \<exists>l \<in> set (SplitByte LF (qpEncode s')). length (TrimSuffix l [CR]) = 77)"
proof
  show "list_all (\<lambda>l. length l \<le> 78) (SplitByte LF (qpEncode s))"
    using qp_loop_lines [of 0 s] by (simp add: qpEncode_def SplitByte_all list_all_iff)
  have "list_ex (\<lambda>l. length (TrimSuffix l [CR]) = 77) (SplitByte LF (qpEncode (replicate 77 CHR ''a'')))" by code_simp
  then show "\<exists>s'. \<exists>l \<in> set (SplitByte LF (qpEncode s')). length (TrimSuffix l [CR]) = 77"
    by (auto simp: list_ex_iff)
qed

section \<open>Headers\<close>

text \<open>A header field as the builder writes it, and what makes it one line of its own.\<close>

definition field_line :: "string \<times> string \<Rightarrow> string" where
  "field_line f = fst f @ '': '' @ snd f"

definition good_field :: "string \<times> string \<Rightarrow> bool" where
  "good_field f \<longleftrightarrow> fst f \<noteq> [] \<and> CHR '':'' \<notin> set (fst f) \<and> \<not> is_space (hd (fst f)) \<and>
     (\<forall>c \<in> set (fst f) \<union> set (snd f). c \<noteq> CR \<and> c \<noteq> LF)"

definition set_field :: "headers \<Rightarrow> string \<times> string \<Rightarrow> headers" where
  "set_field h f = h(norm_addr (fst f) \<mapsto> TrimSpace (snd f))"

abbreviation head_text :: "(string \<times> string) list \<Rightarrow> string" where
  "head_text fs \<equiv> concat (map (\<lambda>f. hline (field_line f)) fs)"

lemma field_line_clean: "good_field f \<Longrightarrow> CR \<notin> set (field_line f) \<and> LF \<notin> set (field_line f)"
  by (auto simp: good_field_def field_line_def)

lemma field_line_hd: "good_field f \<Longrightarrow> field_line f \<noteq> [] \<and> hd (field_line f) = hd (fst f)"
  by (auto simp: good_field_def field_line_def)

lemma TrimSuffix_snoc: "TrimSuffix (a @ [c]) [c] = a"
  by (simp add: TrimSuffix_def HasSuffix_def)

lemma TrimSuffix_clean: "c \<notin> set a \<Longrightarrow> TrimSuffix a [c] = a"
  by (auto simp: TrimSuffix_def HasSuffix_iff)

lemma TrimSpace_space: "TrimSpace (CHR '' '' # v) = TrimSpace v"
  by (simp add: TrimSpace_def trim_left_def is_space_def)

lemma header_lines_field:
  assumes "good_field f" and "l = field_line f \<or> l = field_line f @ [CR]"
  shows "header_lines (l # ls) h lk = header_lines ls (set_field h f) (norm_addr (fst f))"
proof -
  have ln: "TrimSuffix l [CR] = field_line f"
    using assms field_line_clean [OF assms(1)] by (auto simp: TrimSuffix_snoc TrimSuffix_clean)
  have cut: "Cut (field_line f) CHR '':'' = Some (fst f, CHR '' '' # snd f)"
    using assms(1) Cut_append [of "CHR '':''" "fst f"] by (simp add: good_field_def field_line_def)
  have "hd (field_line f) \<noteq> CHR '' ''" "hd (field_line f) \<noteq> TAB"
    using assms(1) field_line_hd [OF assms(1)] by (auto simp: good_field_def is_space_def)
  then show ?thesis
    using ln cut field_line_hd [OF assms(1)]
    by (simp add: Let_def set_field_def norm_addr_def TrimSpace_space)
qed

lemma SplitByte_head:
  "\<forall>f \<in> set fs. good_field f \<Longrightarrow> LF \<notin> set l \<Longrightarrow>
   SplitByte LF (head_text fs @ l) = map (\<lambda>f. field_line f @ [CR]) fs @ [l]"
proof (induction fs)
  case (Cons f fs)
  have "SplitByte LF ((field_line f @ [CR]) @ LF # (head_text fs @ l)) = (field_line f @ [CR]) # SplitByte LF (head_text fs @ l)"
    using field_line_clean [of f] Cons.prems(1) by (intro SplitByte_append) simp
  then show ?case using Cons by (simp add: hline_def)
qed (simp add: SplitByte_free)

lemma header_lines_fields:
  "\<forall>f \<in> set (fs @ [g]). good_field f \<Longrightarrow>
   header_lines (map (\<lambda>f. field_line f @ [CR]) fs @ [field_line g]) h lk = foldl set_field h (fs @ [g])"
proof (induction fs arbitrary: h lk)
  case Nil
  then show ?case using header_lines_field [of g "field_line g" "[]"] by simp
next
  case (Cons f fs)
  then show ?case using header_lines_field [of f "field_line f @ [CR]"] by simp
qed

lemma Index_skip:
  "CR \<notin> set a \<Longrightarrow> Index (a @ crlf @ r) (crlf @ crlf) =
     (if HasPrefix r crlf then Some (length a)
      else map_option (\<lambda>i. i + length a + 2) (Index r (crlf @ crlf)))"
proof (induction a)
  case Nil
  have "HasPrefix (crlf @ r) (crlf @ crlf) = HasPrefix r crlf" by (auto simp: HasPrefix_def)
  moreover have "\<not> HasPrefix (LF # r) (crlf @ crlf)" by (simp add: HasPrefix_def)
  ultimately show ?case by (auto simp: option.map_comp comp_def)
next
  case (Cons c a)
  then have "\<not> HasPrefix (c # a @ crlf @ r) (crlf @ crlf)" by (auto simp: HasPrefix_def)
  then show ?case using Cons by (auto simp: option.map_comp comp_def)
qed

lemma not_crlf_prefix: "y \<noteq> [] \<Longrightarrow> hd y \<noteq> CR \<Longrightarrow> \<not> HasPrefix (y @ x) crlf"
  by (cases y) (auto simp: HasPrefix_def)

lemma Index_head:
  "\<forall>f \<in> set (fs @ [g]). good_field f \<Longrightarrow>
   Index (head_text fs @ hline (field_line g) @ crlf @ body) (crlf @ crlf) = Some (length (head_text fs) + length (field_line g))"
proof (induction fs)
  case Nil
  then show ?case using Index_skip [of "field_line g" "crlf @ body"] field_line_clean [of g]
    by (simp add: hline_def HasPrefix_def)
next
  case (Cons f fs)
  let ?r = "head_text fs @ hline (field_line g) @ crlf @ body"
  have "\<exists>h. good_field h \<and> (\<exists>x. ?r = field_line h @ x)"
  proof (cases fs)
    case Nil
    then show ?thesis using Cons.prems by (intro exI [of _ g]) (simp add: hline_def)
  next
    case (Cons f' fs')
    then show ?thesis using Cons.prems by (intro exI [of _ f']) (simp add: hline_def)
  qed
  then obtain h where "good_field h" "\<exists>x. ?r = field_line h @ x" by blast
  then have "\<not> HasPrefix ?r crlf"
    using field_line_hd [of h] field_line_clean [of h] by (metis not_crlf_prefix hd_in_set)
  then show ?case using Index_skip [of "field_line f" ?r] Cons field_line_clean [of f] by (simp add: hline_def)
qed

text \<open>A block of good fields, a blank line and a body is taken apart into just these.\<close>

lemma parse_fields:
  assumes "\<forall>f \<in> set (fs @ [g]). good_field f"
  shows "headerEnd (head_text (fs @ [g]) @ crlf @ body) = Some (length (head_text (fs @ [g])) + 2, 4) \<and>
    parseHeaders (take (length (head_text (fs @ [g])) - 2) (head_text (fs @ [g]) @ crlf @ body)) =
      foldl set_field Map.empty (fs @ [g])"
proof -
  have len: "length (head_text (fs @ [g])) = length (head_text fs) + length (field_line g) + 2" by (simp add: hline_def)
  have tk: "take (length (head_text (fs @ [g])) - 2) (head_text (fs @ [g]) @ crlf @ body) = head_text fs @ field_line g"
    unfolding len by (simp add: hline_def)
  have "parseHeaders (head_text fs @ field_line g) = foldl set_field Map.empty (fs @ [g])"
    unfolding parseHeaders_def
    using assms SplitByte_head [of fs "field_line g"] field_line_clean [of g] header_lines_fields [OF assms] by simp
  moreover have "headerEnd (head_text (fs @ [g]) @ crlf @ body) = Some (length (head_text (fs @ [g])) + 2, 4)"
    using Index_head [OF assms, of body] by (simp add: headerEnd_def hline_def)
  ultimately show ?thesis using tk by simp
qed


definition no_breaks :: "string \<Rightarrow> bool" where
  "no_breaks s \<longleftrightarrow> CR \<notin> set s \<and> LF \<notin> set s"

text \<open>The documented behaviour of \<open>mime.QEncoding.Encode\<close> that matters here: its result is one line.\<close>

definition qencode_ok :: "mimelib \<Rightarrow> bool" where
  "qencode_ok lib \<longleftrightarrow> (\<forall>s. no_breaks (QEncode lib s))"

definition built_fields :: "mimelib \<Rightarrow> string \<Rightarrow> string \<Rightarrow> string \<Rightarrow> string list \<Rightarrow> string \<Rightarrow> (string \<times> string) list" where
  "built_fields lib date mid sender to subject =
     [(''Date'', date), (''From'', sender), (''To'', Join to '', ''),
      (''Subject'', QEncode lib (if subject = [] then ''(no subject)'' else subject)),
      (''Message-ID'', ''<'' @ mid @ ''@carteiro>''), (''MIME-Version'', ''1.0''), (''Auto-Submitted'', ''auto-generated'')]"

definition content_fields :: "string \<Rightarrow> string \<Rightarrow> string \<Rightarrow> (string \<times> string) list" where
  "content_fields bytes text html =
     (if html \<noteq> [] \<and> text \<noteq> [] then [(''Content-Type'', ''multipart/alternative; boundary='' @ quoted (''carteiro-'' @ toHex bytes))]
      else [(''Content-Type'', (if html \<noteq> [] then ''text/html'' else ''text/plain'') @ ''; charset='' @ quoted ''utf-8''),
            (''Content-Transfer-Encoding'', ''quoted-printable'')])"

lemma no_breaks_append [simp]: "no_breaks (a @ b) \<longleftrightarrow> no_breaks a \<and> no_breaks b"
  by (auto simp: no_breaks_def)

lemma no_breaks_Cons [simp]: "no_breaks (c # b) \<longleftrightarrow> c \<noteq> CR \<and> c \<noteq> LF \<and> no_breaks b"
  by (auto simp: no_breaks_def)

lemma no_breaks_Nil [simp]: "no_breaks []"
  by (simp add: no_breaks_def)

lemma no_breaks_Join: "(\<forall>x \<in> set xs. no_breaks x) \<Longrightarrow> no_breaks sep \<Longrightarrow> no_breaks (Join xs sep)"
  by (induction xs sep rule: Join.induct) auto

lemma hex_digit_clean: "n < 16 \<Longrightarrow> hex_digit n \<noteq> CR \<and> hex_digit n \<noteq> LF"
  by (auto simp: hex_digit_def dest: arg_cong [where f = "of_char :: char \<Rightarrow> nat"])

lemma no_breaks_toHex: "no_breaks (toHex b)"
proof (induction b)
  case (Cons c b)
  have "(of_char c div 16 :: nat) < 16" "(of_char c mod 16 :: nat) < 16"
    using nat_of_char_less_256 [of c] by (auto intro!: less_mult_imp_div_less)
  from hex_digit_clean [OF this(1)] hex_digit_clean [OF this(2)] Cons show ?case
    by (auto simp: toHex_def no_breaks_def)
qed (simp add: toHex_def)

lemma good_fieldI:
  "no_breaks k \<Longrightarrow> no_breaks v \<Longrightarrow> k \<noteq> [] \<Longrightarrow> CHR '':'' \<notin> set k \<Longrightarrow> \<not> is_space (hd k) \<Longrightarrow> good_field (k, v)"
  by (auto simp: good_field_def no_breaks_def)

lemma ContainsAny_crlf: "\<not> ContainsAny v crlf \<Longrightarrow> no_breaks v"
  by (induction v) (auto simp: ContainsAny_def)

lemma message_head_fields:
  "message_head lib date mid sender to (if subject = [] then ''(no subject)'' else subject) =
   head_text (built_fields lib date mid sender to subject)"
  by (simp add: message_head_def built_fields_def field_line_def)

lemma message_content_fields:
  "\<exists>body. message_content (''carteiro-'' @ toHex bytes) text html = head_text (content_fields bytes text html) @ crlf @ body"
  by (auto simp: message_content_def content_fields_def field_line_def hline_def)

lemma BuildMessage_Inr:
  assumes "BuildMessage lib date (Inr bytes) mid sender to subject text html = Inr out"
  shows "\<exists>body. out = head_text (built_fields lib date mid sender to subject @ content_fields bytes text html) @ crlf @ body"
    and "\<forall>v \<in> set (to @ [sender, subject]). no_breaks v"
proof -
  have "out = head_text (built_fields lib date mid sender to subject) @ message_content (''carteiro-'' @ toHex bytes) text html"
    using assms by (simp add: BuildMessage_def Let_def message_head_fields [symmetric] split: if_splits)
  then show "\<exists>body. out = head_text (built_fields lib date mid sender to subject @ content_fields bytes text html) @ crlf @ body"
    using message_content_fields [of bytes "text" html] by auto
  have "\<not> list_ex (\<lambda>v. ContainsAny v crlf) (to @ [sender, subject])"
    using assms unfolding BuildMessage_def by (meson Inl_Inr_False)
  then show "\<forall>v \<in> set (to @ [sender, subject]). no_breaks v"
    using ContainsAny_crlf unfolding list_ex_iff by blast
qed

lemma built_fields_good:
  assumes "qencode_ok lib" and "no_breaks date" and "no_breaks mid" and "\<forall>v \<in> set (to @ [sender, subject]). no_breaks v"
  shows "\<forall>f \<in> set (built_fields lib date mid sender to subject @ content_fields bytes text html). good_field f"
  using assms no_breaks_toHex no_breaks_Join [of to "'', ''"]
  by (auto simp: built_fields_def content_fields_def qencode_ok_def quoted_def is_space_def intro!: good_fieldI)

text \<open>
  C36. No header injection. A message that \<open>BuildMessage\<close> returns is read back, by the server's own
  header parser, as exactly the fields the builder meant: date, sender, recipients, subject, message
  id and the fixed MIME fields. No value of the caller (sender, recipients, subject) can add, end or
  replace a header.
\<close>

theorem BuildMessage_headers:
  assumes "qencode_ok lib" and "no_breaks date" and "no_breaks mid"
    and "BuildMessage lib date (Inr bytes) mid sender to subject text html = Inr out"
  shows "\<exists>n. headerEnd out = Some (n, 4) \<and>
    parseHeaders (take (n - 4) out) =
      foldl set_field Map.empty (built_fields lib date mid sender to subject @ content_fields bytes text html)"
proof -
  let ?fs = "built_fields lib date mid sender to subject @ content_fields bytes text html"
  note good = built_fields_good [OF assms(1-3) BuildMessage_Inr(2) [OF assms(4)], of bytes "text" html]
  obtain body where out: "out = head_text ?fs @ crlf @ body" using BuildMessage_Inr(1) [OF assms(4)] by blast
  have "?fs \<noteq> []" by (simp add: built_fields_def)
  then obtain fs g where fs: "?fs = fs @ [g]" by (metis rev_exhaust)
  from parse_fields [of fs g body] good fs out show ?thesis
    by (intro exI [of _ "length (head_text ?fs) + 2"]) simp
qed

definition demo_mime :: mimelib where
  "demo_mime = \<lparr>ParseMediaType = (\<lambda>ct. if HasPrefix ct ''text/'' then Some (takeWhile (\<lambda>c. c \<noteq> CHR '';'') ct, []) else None),
     DecodeHeader = (\<lambda>cr s. Some s), QPReader = (\<lambda>s. qp_decode s),
     Parts = (\<lambda>b s. []), QEncode = (\<lambda>s. filter (\<lambda>c. c \<noteq> CR \<and> c \<noteq> LF) s)\<rparr>"

lemma demo_mime_ok: "qencode_ok demo_mime"
  by (simp add: qencode_ok_def demo_mime_def no_breaks_def)

lemma BuildMessage_headers_witness:
  "\<exists>out n. BuildMessage demo_mime ''now'' (Inr ''b'') ''m1'' ''a@x'' [''b@y''] ''hi'' ''hello'' [] = Inr out \<and>
     headerEnd out = Some (n, 4) \<and> parseHeaders (take (n - 4) out) ''from'' = Some ''a@x''"
proof -
  obtain out where b: "BuildMessage demo_mime ''now'' (Inr ''b'') ''m1'' ''a@x'' [''b@y''] ''hi'' ''hello'' [] = Inr out"
    by (simp add: BuildMessage_def ContainsAny_def TrimSpace_def trim_left_def trim_right_def is_space_def Let_def)
  have "foldl set_field Map.empty (built_fields demo_mime ''now'' ''m1'' ''a@x'' [''b@y''] ''hi'' @ content_fields ''b'' ''hello'' []) ''from'' = Some ''a@x''"
    by code_simp
  with BuildMessage_headers [OF demo_mime_ok _ _ b] b show ?thesis by auto
qed

end
