(* ===== verification/Recorder.thy ===== *)
theory Recorder
  imports Store_Laws Msg
begin

text \<open>
  The recorder of \<open>internal/sends/sends.go\<close>: the history of the web panel, kept in the \<open>sends_log\<close>
  table. A nil \<open>*Recorder\<close> is \<^term>\<open>None\<close>; its store is the store the methods are applied to. Every
  method drops the error of its statement, as the code does.
\<close>

record recorder =
  maxBody :: int
  rec_lib :: mimelib

definition New :: "mimelib \<Rightarrow> int \<Rightarrow> recorder" where
  "New lib maxBodyBytes = \<lparr>maxBody = (if maxBodyBytes \<le> 0 then 524288 else maxBodyBytes), rec_lib = lib\<rparr>"

record summary =
  SumID :: string
  SumFrom :: string
  SumTo :: "string list"
  SumSubject :: string
  SumStatus :: string
  SumAttempts :: int
  SumLastError :: string
  SumQueuedAt :: gotime
  SumUpdatedAt :: gotime
  SumSize :: int
  SumTruncated :: bool

record detail = summary +
  DetHTML :: string
  DetText :: string
  DetRaw :: string

definition fromLog :: "send_log \<Rightarrow> summary" where
  "fromLog l = \<lparr>SumID = LogID l, SumFrom = LogFrom l, SumTo = LogTo l, SumSubject = LogSubject l, SumStatus = LogStatus l,
     SumAttempts = LogAttempts l, SumLastError = LogLastError l, SumQueuedAt = LogQueuedAt l, SumUpdatedAt = LogUpdatedAt l,
     SumSize = LogSize l, SumTruncated = LogTruncated l\<rparr>"

definition Add :: "recorder option \<Rightarrow> int \<Rightarrow> string \<Rightarrow> string \<Rightarrow> string list \<Rightarrow> string \<Rightarrow> store \<Rightarrow> store" where
  "Add rec now mid sender to data s = (case rec of
       None \<Rightarrow> s
     | Some r \<Rightarrow>
        (let truncated = int (length data) > maxBody r;
             raw = (if truncated then take (nat (maxBody r)) data else data);
             p = parseMsg (rec_lib r) raw
         in snd (InsertSendLog
              \<lparr>LogID = mid, LogFrom = sender, LogTo = to, LogSubject = p_subject p, LogStatus = StatusQueued, LogAttempts = 0,
               LogSize = int (length data), LogTruncated = truncated, LogLastError = [], LogHTML = p_html p,
               LogText = p_text p, LogRaw = raw, LogQueuedAt = Some now, LogUpdatedAt = Some now\<rparr> s)))"

definition MarkDelivered :: "recorder option \<Rightarrow> int \<Rightarrow> string \<Rightarrow> store \<Rightarrow> store" where
  "MarkDelivered rec now_ms mid s = (case rec of None \<Rightarrow> s | Some r \<Rightarrow> snd (SetSendStatus now_ms mid StatusDelivered [] s))"

definition MarkDead :: "recorder option \<Rightarrow> int \<Rightarrow> string \<Rightarrow> string \<Rightarrow> store \<Rightarrow> store" where
  "MarkDead rec now_ms mid reason s = (case rec of None \<Rightarrow> s | Some r \<Rightarrow> snd (SetSendStatus now_ms mid StatusDead reason s))"

definition MarkQueued :: "recorder option \<Rightarrow> int \<Rightarrow> string \<Rightarrow> store \<Rightarrow> store" where
  "MarkQueued rec now_ms mid s = (case rec of None \<Rightarrow> s | Some r \<Rightarrow> snd (UpdateSendLogStatus now_ms mid StatusQueued 0 [] s))"

definition BumpAttempt :: "recorder option \<Rightarrow> int \<Rightarrow> string \<Rightarrow> store \<Rightarrow> store" where
  "BumpAttempt rec now_ms mid s = (case rec of None \<Rightarrow> s | Some r \<Rightarrow> BumpSendAttempt now_ms mid s)"

definition Drop :: "recorder option \<Rightarrow> string \<Rightarrow> store \<Rightarrow> store" where
  "Drop rec mid s = (case rec of None \<Rightarrow> s | Some r \<Rightarrow> DeleteSendLog mid s)"

definition List :: "recorder option \<Rightarrow> int \<Rightarrow> store \<Rightarrow> summary list \<times> store" where
  "List rec limit s = (case rec of None \<Rightarrow> ([], s)
     | Some r \<Rightarrow> (case ListSendLogs limit s of (Inl err, s1) \<Rightarrow> ([], s1) | (Inr logs, s1) \<Rightarrow> (map fromLog logs, s1)))"

definition detail_of :: "send_log \<Rightarrow> detail" where
  "detail_of l = summary.extend (fromLog l) (detail.fields (LogHTML l) (LogText l) (LogRaw l))"

definition Get :: "recorder option \<Rightarrow> string \<Rightarrow> store \<Rightarrow> detail option \<times> store" where
  "Get rec mid s = (case rec of None \<Rightarrow> (None, s)
     | Some r \<Rightarrow> (case GetSendLog mid s of (Inr (Some l), s1) \<Rightarrow> (Some (detail_of l), s1) | (_, s1) \<Rightarrow> (None, s1)))"

section \<open>The recorder touches the history only\<close>

text \<open>The tables other than the history and the handle's settings.\<close>

definition same_core :: "store \<Rightarrow> store \<Rightarrow> bool" where
  "same_core s t \<longleftrightarrow> queue_messages t = queue_messages s \<and> accounts t = accounts s \<and> dkim_keys t = dkim_keys s \<and>
     stats_counters t = stats_counters s \<and> schema_versions t = schema_versions s \<and> dialect t = dialect s \<and>
     instance_id t = instance_id s \<and> deadMax t = deadMax s \<and> notify t = notify s"

lemma same_core_refl [simp]: "same_core s s"
  by (simp add: same_core_def)

lemma same_core_trans: "same_core s t \<Longrightarrow> same_core t u \<Longrightarrow> same_core s u"
  by (simp add: same_core_def)

lemma same_core_faults [simp]: "same_core s (s\<lparr>faults := fs\<rparr>)"
  by (simp add: same_core_def)

lemma sql_same_core:
  assumes "\<And>t. same_core t (snd (f t))"
  shows "same_core s (snd (sql f s))"
proof -
  have "same_core s (snd (f (s\<lparr>faults := fs\<rparr>)))" for fs by (rule same_core_trans [OF same_core_faults assms])
  then show ?thesis using assms by (simp add: sql_def split: list.split option.split)
qed

lemma log_stmts_same_core:
  "same_core s (snd (conflict_clause (put_log r) s))" "same_core s (snd (update_log i g s))" "same_core s (snd (del_log P s))"
  by (simp_all add: conflict_clause_def put_log_def update_log_def del_log_def same_core_def)

lemma sql_same_coreD: "sql f s = (x, s1) \<Longrightarrow> (\<And>t. same_core t (snd (f t))) \<Longrightarrow> same_core s s1"
  using sql_same_core [of f s] by simp

lemma sql_log_same_core:
  "sql (conflict_clause (put_log r)) s = (x, s1) \<Longrightarrow> same_core s s1"
  "sql (update_log i g) s = (y, s1) \<Longrightarrow> same_core s s1" "sql (del_log P) s = (z, s1) \<Longrightarrow> same_core s s1"
  by (erule sql_same_coreD, rule log_stmts_same_core)+

lemma recorder_same_core:
  "same_core s (Add rec now mid sender to data s)" "same_core s (MarkDelivered rec t mid s)"
  "same_core s (MarkDead rec t mid reason s)" "same_core s (MarkQueued rec t mid s)"
  "same_core s (BumpAttempt rec t mid s)" "same_core s (Drop rec mid s)"
  by (auto simp: Add_def MarkDelivered_def MarkDead_def MarkQueued_def BumpAttempt_def Drop_def Let_def InsertSendLog_def
      SetSendStatus_def UpdateSendLogStatus_def BumpSendAttempt_def DeleteSendLog_def
      split: option.split prod.split sum.split dest!: sql_log_same_core intro: sql_same_core log_stmts_same_core)

lemma same_core_queue_inv: "same_core s t \<Longrightarrow> queue_inv t = queue_inv s"
  by (simp add: same_core_def queue_inv_def)

text \<open>
  What the history shows of a message: on SQLite, when no statement fails, \<open>Get\<close> after \<open>Add\<close>
  returns the sender, the recipients, the true size and the raw text cut at the recorder's limit,
  flagged exactly when it was cut; and after \<open>Drop\<close> the entry is gone.
\<close>

theorem recorder_Add_Get:
  assumes "faults s = []" and "dialect s \<noteq> ''mysql''" and "0 < maxBody r" and "log_row mid s = None" and "0 < now"
    and "s1 = Add (Some r) now mid sender to data s"
  shows "(\<exists>d. Get (Some r) mid s1 = (Some d, s1) \<and> SumFrom d = sender \<and> SumTo d = to \<and> SumStatus d = StatusQueued \<and>
            SumSize d = int (length data) \<and> DetRaw d = take (nat (maxBody r)) data \<and>
            (SumTruncated d \<longleftrightarrow> DetRaw d \<noteq> data)) \<and>
         fst (Get (Some r) mid (Drop (Some r) mid s1)) = None"
proof -
  let ?tr = "int (length data) > maxBody r"
  let ?raw = "if ?tr then take (nat (maxBody r)) data else data"
  let ?p = "parseMsg (rec_lib r) ?raw"
  let ?l = "\<lparr>LogID = mid, LogFrom = sender, LogTo = to, LogSubject = p_subject ?p, LogStatus = StatusQueued, LogAttempts = 0,
               LogSize = int (length data), LogTruncated = ?tr, LogLastError = [], LogHTML = p_html ?p,
               LogText = p_text ?p, LogRaw = ?raw, LogQueuedAt = Some now, LogUpdatedAt = Some now\<rparr>"
  have s1: "s1 = snd (put_log (row_of_log ?l) s)"
    using assms(1,2,6) by (simp add: Add_def Let_def InsertSendLog_ok)
  have f1: "faults s1 = []" using assms(1) by (simp add: s1 put_log_def)
  have row: "log_row mid s1 = Some (row_of_log ?l)"
    unfolding s1 log_row_put using assms(4) by (simp add: row_of_log_def)
  have raw: "?raw = take (nat (maxBody r)) data" by simp
  have get: "Get (Some r) mid s1 = (Some (detail_of (log_of_row (row_of_log ?l))), s1)"
    using f1 row by (simp add: Get_def GetSendLog_def sql_no_fault select_def)
  have "log_row mid (Drop (Some r) mid s1) = None"
    using f1 find_filter_neq [of s_id mid mid] by (simp add: Drop_def DeleteSendLog_def sql_no_fault del_log_def log_row_def)
  moreover have "faults (Drop (Some r) mid s1) = []"
    using f1 by (simp add: Drop_def DeleteSendLog_def sql_no_fault del_log_def)
  ultimately have "fst (Get (Some r) mid (Drop (Some r) mid s1)) = None"
    by (simp add: Get_def GetSendLog_def sql_no_fault select_def)
  moreover have "?tr \<longleftrightarrow> take (nat (maxBody r)) data \<noteq> data"
    using assms(3) by (auto simp: take_all_iff) 
  ultimately show ?thesis using get raw
    by (auto simp: detail_of_def log_of_row_def row_of_log_def fromLog_def summary.defs detail.defs)
qed


definition demo_recorder :: recorder where
  "demo_recorder = \<lparr>maxBody = 4, rec_lib = \<lparr>ParseMediaType = (\<lambda>ct. None), DecodeHeader = (\<lambda>cr s. Some s),
     QPReader = (\<lambda>s. Some s), Parts = (\<lambda>b s. []), QEncode = (\<lambda>s. s)\<rparr>\<rparr>"

lemma recorder_Add_Get_witness:
  "\<exists>s1 d. s1 = Add (Some demo_recorder) 9 ''m1'' ''a@x'' [''b@y''] ''hello'' (new_store ''sqlite'' ''w'') \<and>
     Get (Some demo_recorder) ''m1'' s1 = (Some d, s1) \<and> DetRaw d = ''hell'' \<and> SumTruncated d"
proof -
  let ?s = "new_store ''sqlite'' ''w''"
  have "faults ?s = []" "dialect ?s \<noteq> ''mysql''" "0 < maxBody demo_recorder" "log_row ''m1'' ?s = None"
    "take (nat (maxBody demo_recorder)) ''hello'' = ''hell''"
    by (simp_all add: new_store_def log_row_def demo_recorder_def)
  with recorder_Add_Get [of ?s demo_recorder "''m1''" 9 _ "''a@x''" "[''b@y'']" "''hello''"] show ?thesis by fastforce
qed

end
