(* ===== verification/Dkim.thy ===== *)
theory Dkim
  imports Base64
begin

text \<open>
  \<open>internal/dkim/dkim.go\<close>: reading private keys, the DNS record of a key, and signing. Parsing of PEM
  and of key structures and the signature itself (\<open>crypto/x509\<close>, \<open>encoding/pem\<close>, \<open>go-msgauth\<close>) are the
  fields of \<open>cryptolib\<close>; a key is the opaque text that these functions exchange.
\<close>

datatype pkcs8_key = RSAPrivate string | Ed25519Private string | OtherPrivate

datatype signer = RSASigner string | Ed25519Signer string | OtherSigner

record cryptolib =
  pem_Decode :: "string \<Rightarrow> (string \<times> string) option"
  ParsePKCS1PrivateKey :: "string \<Rightarrow> string res"
  ParsePKCS8PrivateKey :: "string \<Rightarrow> pkcs8_key res"
  MarshalPKIXPublicKey :: "string \<Rightarrow> string res"
  Ed25519Public :: "string \<Rightarrow> string"
  dkim_signature :: "string \<Rightarrow> string \<Rightarrow> signer \<Rightarrow> string \<Rightarrow> string res"

definition ParseSigner :: "cryptolib \<Rightarrow> string \<Rightarrow> signer res" where
  "ParseSigner cl raw =
     (case pem_Decode cl raw of
        None \<Rightarrow> Inl (Errorf ''no PEM block found'')
      | Some (btype, bytes) \<Rightarrow>
          if btype = ''RSA PRIVATE KEY'' then
            (case ParsePKCS1PrivateKey cl bytes of
               Inl err \<Rightarrow> Inl (Wrapf ''parsing RSA: '' err) | Inr key \<Rightarrow> Inr (RSASigner key))
          else if btype = ''PRIVATE KEY'' then
            (case ParsePKCS8PrivateKey cl bytes of
               Inl err \<Rightarrow> Inl (Wrapf ''parsing PKCS#8: '' err)
             | Inr (RSAPrivate key) \<Rightarrow> Inr (RSASigner key)
             | Inr (Ed25519Private key) \<Rightarrow> Inr (Ed25519Signer key)
             | Inr OtherPrivate \<Rightarrow> Inl (Errorf ''unsupported PKCS#8 key type (use RSA or Ed25519)''))
          else if btype = ''EC PRIVATE KEY'' then Inl (Errorf ''EC keys are not standard DKIM; use RSA or Ed25519'')
          else Inl (Errorf (''unsupported PEM block type '' @ quoted btype)))"

definition LoadSigner :: "cryptolib \<Rightarrow> (string \<Rightarrow> string res) \<Rightarrow> string \<Rightarrow> signer res" where
  "LoadSigner cl readFile path =
     (case readFile path of
        Inl err \<Rightarrow> Inl (Wrapf (''reading '' @ path @ '': '') err)
      | Inr raw \<Rightarrow> (case ParseSigner cl raw of
            Inl err \<Rightarrow> Inl (Wrapf (''parsing key '' @ path @ '': '') err) | Inr s \<Rightarrow> Inr s))"

definition PublicRecord :: "cryptolib \<Rightarrow> signer \<Rightarrow> string res" where
  "PublicRecord cl sg = (case sg of
       RSASigner key \<Rightarrow>
         (case MarshalPKIXPublicKey cl key of
            Inl err \<Rightarrow> Inl (Wrapf ''encoding RSA public key: '' err)
          | Inr der \<Rightarrow> Inr (''v=DKIM1; k=rsa; p='' @ EncodeToString der))
     | Ed25519Signer key \<Rightarrow> Inr (''v=DKIM1; k=ed25519; p='' @ EncodeToString (Ed25519Public cl key))
     | OtherSigner \<Rightarrow> Inl (Errorf ''unsupported public key type''))"

definition Sign :: "cryptolib \<Rightarrow> string \<Rightarrow> string \<Rightarrow> string \<Rightarrow> signer \<Rightarrow> string res" where
  "Sign cl msg domain selector sg =
     (case dkim_signature cl domain selector sg msg of
        Inl err \<Rightarrow> Inl err
      | Inr header \<Rightarrow> Inr (header @ msg))"

section \<open>Facts\<close>

lemma ParseSigner_kind: "ParseSigner cl raw = Inr sg \<Longrightarrow> sg \<noteq> OtherSigner"
  by (auto simp: ParseSigner_def split: option.splits prod.splits if_splits sum.splits pkcs8_key.splits)

text \<open>
  The DNS record of a key carries the public key: for every key that \<open>ParseSigner\<close> accepts and
  whose encoding does not fail, \<open>PublicRecord\<close> is a DKIM1 record whose \<open>p=\<close> part decodes to the
  public key's bytes.
\<close>

theorem PublicRecord_decodes:
  assumes "ParseSigner cl raw = Inr sg" and "PublicRecord cl sg = Inr rec"
  shows "\<exists>tag p pub. rec = ''v=DKIM1; k='' @ tag @ ''; p='' @ p \<and> DecodeString p = Some pub \<and>
    (case sg of RSASigner key \<Rightarrow> tag = ''rsa'' \<and> MarshalPKIXPublicKey cl key = Inr pub
              | Ed25519Signer key \<Rightarrow> tag = ''ed25519'' \<and> pub = Ed25519Public cl key | OtherSigner \<Rightarrow> False)"
proof (cases sg)
  case (RSASigner key)
  with assms(2) obtain der where "MarshalPKIXPublicKey cl key = Inr der" "rec = ''v=DKIM1; k=rsa; p='' @ EncodeToString der"
    by (auto simp: PublicRecord_def split: sum.splits)
  with RSASigner show ?thesis
    by (intro exI [of _ "''rsa''"] exI [of _ "EncodeToString der"] exI [of _ der]) (simp add: DecodeString_EncodeToString)
next
  case (Ed25519Signer key)
  with assms(2) have "rec = ''v=DKIM1; k=ed25519; p='' @ EncodeToString (Ed25519Public cl key)"
    by (simp add: PublicRecord_def)
  with Ed25519Signer show ?thesis
    by (intro exI [of _ "''ed25519''"] exI [of _ "EncodeToString (Ed25519Public cl key)"] exI [of _ "Ed25519Public cl key"])
      (simp add: DecodeString_EncodeToString)
next
  case OtherSigner
  with assms(1) ParseSigner_kind show ?thesis by blast
qed

definition demo_crypto :: cryptolib where
  "demo_crypto = \<lparr>pem_Decode = (\<lambda>s. if HasPrefix s ''-----BEGIN'' then Some (''PRIVATE KEY'', drop 10 s) else None),
     ParsePKCS1PrivateKey = (\<lambda>b. Inr b), ParsePKCS8PrivateKey = (\<lambda>b. Inr (Ed25519Private b)),
     MarshalPKIXPublicKey = (\<lambda>k. Inr k), Ed25519Public = (\<lambda>k. rev k),
     dkim_signature = (\<lambda>d sel sg m. Inr (''DKIM-Signature: d='' @ d @ crlf))\<rparr>"

lemma PublicRecord_decodes_witness:
  "\<exists>sg rec p. ParseSigner demo_crypto ''-----BEGINkey'' = Inr sg \<and> PublicRecord demo_crypto sg = Inr rec \<and>
     DecodeString p = Some ''yek'' \<and> rec = ''v=DKIM1; k=ed25519; p='' @ p"
proof -
  have p: "ParseSigner demo_crypto ''-----BEGINkey'' = Inr (Ed25519Signer ''key'')"
    by (simp add: ParseSigner_def demo_crypto_def HasPrefix_def)
  obtain rec where r: "PublicRecord demo_crypto (Ed25519Signer ''key'') = Inr rec" by (simp add: PublicRecord_def)
  have "Ed25519Public demo_crypto ''key'' = ''yek''" by (simp add: demo_crypto_def)
  with PublicRecord_decodes [OF p r] p r show ?thesis by auto
qed

end
