(* ===== verification/Config.thy ===== *)
theory Config
  imports Dkim
begin

text \<open>
  \<open>internal/config/config.go\<close>: the configuration record, its defaults, what the environment overlays,
  and the normalization and validation that every start of the server goes through.

  What comes from outside is an argument: \<open>syslib\<close> holds the parser of YAML, \<open>time.ParseDuration\<close>,
  \<open>tls.X509KeyPair\<close>, the key parser, the host name and the file system; \<open>env\<close> is the environment
  (\<open>os.LookupEnv\<close>). Durations are nanoseconds. Which error is returned is modelled, its text is
  shortened where the code quotes the error of a library.
\<close>

section \<open>Types\<close>

record tls_cfg =
  CertData :: string
  KeyDataTLS :: string
  Mode :: string
  CertPEM :: string
  KeyPEM :: string

record delivery_cfg =
  ConnectTimeout :: int
  IOTimeout :: int
  RetryBase :: int
  RetryMax :: int
  MaxAttempts :: int
  PollInterval :: int
  Concurrency :: int

record storage_cfg =
  StorageType :: string
  SQLitePath :: string
  DSN :: string

record queue_cfg =
  DeadMax :: int

record api_cfg =
  APIListen :: string
  Token :: string

record web_cfg =
  WebListen :: string

record cfg_account =
  CfgEmail :: string
  CfgPassword :: string
  CfgAllowedFrom :: "string list"

record cfg_dkim =
  CfgDomain :: string
  CfgSelector :: string
  CfgKeyData :: string

record config =
  Listen :: string
  Hostname :: string
  Storage :: "storage_cfg option"
  MaxMessageSize :: int
  MaxRecipients :: int
  RequireTLS :: bool
  InsecureAuthMsg :: string
  LogLevel :: string
  LogMaskEmails :: bool
  API :: "api_cfg option"
  Web :: "web_cfg option"
  Queue :: queue_cfg
  SendHistoryDays :: int
  TLS :: "tls_cfg option"
  Delivery :: delivery_cfg
  DKIM :: "cfg_dkim list"
  Accounts :: "cfg_account list"
  dkimEnv :: "cfg_dkim list"

record syslib =
  ParseDuration :: "string \<Rightarrow> int option"
  X509KeyPair :: "string \<Rightarrow> string \<Rightarrow> unit res"
  crypto :: cryptolib
  os_Hostname :: string
  ReadFile :: "string \<Rightarrow> string res"
  Stat :: "string \<Rightarrow> bool"
  UserConfigDir :: "string option"
  yaml_Unmarshal :: "string \<Rightarrow> config \<Rightarrow> config res"

type_synonym environ = "string \<Rightarrow> string option"

text \<open>
  \<open>Duration.UnmarshalYAML\<close>: \<open>dec_int\<close> and \<open>dec_str\<close> are what the YAML package's \<open>node.Decode\<close> gives.
\<close>

record yaml_node =
  scalar :: bool
  Tag :: string
  Line :: int
  dec_int :: "int res"
  dec_str :: "string res"

definition UnmarshalYAML :: "syslib \<Rightarrow> yaml_node \<Rightarrow> int res" where
  "UnmarshalYAML lib node =
     (if \<not> scalar node then Inl (Errorf (''invalid duration at line '' @ Itoa (Line node)))
      else if Tag node = ''!!int'' then dec_int node
      else case dec_str node of
          Inl err \<Rightarrow> Inl err
        | Inr raw \<Rightarrow>
            (case ParseDuration lib raw of
               None \<Rightarrow> Inl (Wrapf (''invalid duration '' @ quoted raw @ '': '') (Errorf ''time: invalid duration''))
             | Some d \<Rightarrow> Inr d))"

definition Getenv :: "environ \<Rightarrow> string \<Rightarrow> string" where
  "Getenv env k = (case env k of None \<Rightarrow> [] | Some v \<Rightarrow> v)"

definition second :: int where "second = 1000000000"

definition defaults :: "syslib \<Rightarrow> config" where
  "defaults lib =
     \<lparr>Listen = '':587'', Hostname = os_Hostname lib,
      Storage = Some \<lparr>StorageType = ''sqlite'', SQLitePath = [], DSN = []\<rparr>,
      MaxMessageSize = 26214400, MaxRecipients = 100, RequireTLS = False, InsecureAuthMsg = [], LogLevel = ''info'',
      LogMaskEmails = True, API = None, Web = None, Queue = \<lparr>DeadMax = 1000\<rparr>, SendHistoryDays = 30, TLS = None,
      Delivery = \<lparr>ConnectTimeout = 30 * second, IOTimeout = 120 * second, RetryBase = 60 * second,
                  RetryMax = 14400 * second, MaxAttempts = 10, PollInterval = 5 * second, Concurrency = 4\<rparr>,
      DKIM = [], Accounts = [], dkimEnv = []\<rparr>"

section \<open>Keys and certificates\<close>

definition compact :: "string \<Rightarrow> string" where
  "compact s = filter (\<lambda>r. \<not> (r = LF \<or> r = CR \<or> r = CHR '' '' \<or> r = TAB)) s"

definition decode_pem :: "string \<Rightarrow> string \<Rightarrow> string res" where
  "decode_pem field nm =
     (if TrimSpace field = [] then Inl (Errorf (''missing '' @ nm @ '' (base64 of the PEM file)''))
      else case DecodeString (compact field) of
          None \<Rightarrow> Inl (Errorf (nm @ '' must be base64-encoded PEM''))
        | Some decoded \<Rightarrow>
            if \<not> Contains decoded ''-----BEGIN'' then Inl (Errorf (nm @ '' decodes to something that is not a PEM file''))
            else Inr decoded)"

definition decodeYAMLBase64 :: "tls_cfg \<Rightarrow> tls_cfg res" where
  "decodeYAMLBase64 t =
     (if TrimSpace (CertData t) = [] \<and> TrimSpace (KeyDataTLS t) = [] then Inr t
      else case decode_pem (CertData t) ''cert_data'' of
          Inl err \<Rightarrow> Inl err
        | Inr cert \<Rightarrow>
            (case decode_pem (KeyDataTLS t) ''key_data'' of
               Inl err \<Rightarrow> Inl err
             | Inr key \<Rightarrow> Inr (t\<lparr>CertPEM := cert, KeyPEM := key\<rparr>)))"

definition decodeBase64Key :: "string \<Rightarrow> string res" where
  "decodeBase64Key v =
     (case DecodeString (compact v) of
        None \<Rightarrow> Inl (Errorf ''key must be base64 of the PEM private key'')
      | Some decoded \<Rightarrow>
          if \<not> Contains decoded ''-----BEGIN'' then Inl (Errorf ''key decodes to something that is not a PEM private key'')
          else Inr decoded)"

definition decodeYAMLKey :: "cfg_dkim \<Rightarrow> cfg_dkim res" where
  "decodeYAMLKey k =
     (if TrimSpace (CfgKeyData k) = [] then Inl (Errorf ''missing key_data (base64 of the private key)'')
      else case decodeBase64Key (CfgKeyData k) of
          Inl err \<Rightarrow> Inl (Wrapf ''key_data: '' err)
        | Inr decoded \<Rightarrow> Inr (k\<lparr>CfgKeyData := decoded\<rparr>))"

section \<open>The environment\<close>

text \<open>A step that may fail, and steps one after another.\<close>

type_synonym 'a step = "'a \<Rightarrow> 'a res"

fun seq_steps :: "'a step list \<Rightarrow> 'a step" where
  "seq_steps [] c = Inr c"
| "seq_steps (f # fs) c = (case f c of Inl err \<Rightarrow> Inl err | Inr c' \<Rightarrow> seq_steps fs c')"

definition setStr :: "environ \<Rightarrow> string \<Rightarrow> (string \<Rightarrow> config \<Rightarrow> config) \<Rightarrow> config step" where
  "setStr env key put c = (case env key of None \<Rightarrow> Inr c | Some v \<Rightarrow> Inr (put v c))"

definition setInt :: "environ \<Rightarrow> string \<Rightarrow> (int \<Rightarrow> config \<Rightarrow> config) \<Rightarrow> config step" where
  "setInt env key put c = (case env key of
       None \<Rightarrow> Inr c
     | Some v \<Rightarrow> (case ParseInt v of None \<Rightarrow> Inl (Errorf (''invalid '' @ key)) | Some n \<Rightarrow> Inr (put n c)))"

text \<open>\<open>setIntField\<close>: \<open>strconv.Atoi\<close> reads the same numbers as \<open>strconv.ParseInt\<close> with 64 bits.\<close>

definition setIntField :: "environ \<Rightarrow> string \<Rightarrow> (int \<Rightarrow> config \<Rightarrow> config) \<Rightarrow> config step" where
  "setIntField env key put = setInt env key put"

declare setIntField_def [simp]

definition ParseBool :: "string \<Rightarrow> bool option" where
  "ParseBool s = (if s \<in> {''1'', ''t'', ''T'', ''TRUE'', ''true'', ''True''} then Some True
                  else if s \<in> {''0'', ''f'', ''F'', ''FALSE'', ''false'', ''False''} then Some False else None)"

definition setBool :: "environ \<Rightarrow> string \<Rightarrow> (bool \<Rightarrow> config \<Rightarrow> config) \<Rightarrow> config step" where
  "setBool env key put c = (case env key of
       None \<Rightarrow> Inr c
     | Some v \<Rightarrow> (case ParseBool v of None \<Rightarrow> Inl (Errorf (''invalid '' @ key)) | Some b \<Rightarrow> Inr (put b c)))"

definition setDur :: "syslib \<Rightarrow> environ \<Rightarrow> string \<Rightarrow> (int \<Rightarrow> delivery_cfg \<Rightarrow> delivery_cfg) \<Rightarrow> config step" where
  "setDur lib env key put c = (case env key of
       None \<Rightarrow> Inr c
     | Some v \<Rightarrow> (case ParseDuration lib v of
           None \<Rightarrow> Inl (Errorf (''invalid '' @ key @ '' (use Go durations like 30s, 5m)''))
         | Some d \<Rightarrow> Inr (c\<lparr>Delivery := put d (Delivery c)\<rparr>)))"

text \<open>
  The storage settings are written through a pointer; when it is nil (a \<open>storage:\<close> key without a
  value in the YAML file) taking the address of its field panics.
\<close>

definition setSQLitePath :: "environ \<Rightarrow> config step" where
  "setSQLitePath env c = (case Storage c of
       None \<Rightarrow> Inl (Panic ''nil pointer dereference'')
     | Some st \<Rightarrow> setStr env ''CARTEIRO_SQLITE_PATH'' (\<lambda>v c. c\<lparr>Storage := Some (st\<lparr>SQLitePath := v\<rparr>)\<rparr>) c)"

definition setStorageEnv :: "environ \<Rightarrow> config step" where
  "setStorageEnv env c = (case Storage c of
       None \<Rightarrow> (if Getenv env ''CARTEIRO_STORAGE_TYPE'' \<noteq> [] \<or> Getenv env ''CARTEIRO_DB_DSN'' \<noteq> []
                then Inl (Panic ''nil pointer dereference'') else Inr c)
     | Some st \<Rightarrow>
        (let st1 = (if Getenv env ''CARTEIRO_STORAGE_TYPE'' \<noteq> [] then st\<lparr>StorageType := Getenv env ''CARTEIRO_STORAGE_TYPE''\<rparr> else st);
             st2 = (if Getenv env ''CARTEIRO_DB_DSN'' \<noteq> []
                    then st1\<lparr>DSN := Getenv env ''CARTEIRO_DB_DSN'', StorageType := ''mysql''\<rparr> else st1)
         in Inr (c\<lparr>Storage := Some st2\<rparr>)))"

definition setTLSEnv :: "environ \<Rightarrow> config step" where
  "setTLSEnv env c =
     (let certData = Getenv env ''CARTEIRO_TLS_CERT''; keyData = Getenv env ''CARTEIRO_TLS_KEY'' in
      if certData = [] \<and> keyData = [] then Inr c
      else if certData = [] \<or> keyData = []
      then Inl (Errorf ''CARTEIRO_TLS_CERT and CARTEIRO_TLS_KEY must be set together'')
      else case decodeYAMLBase64 \<lparr>CertData = certData, KeyDataTLS = keyData, Mode = Getenv env ''CARTEIRO_TLS_MODE'',
                                   CertPEM = [], KeyPEM = []\<rparr> of
          Inl err \<Rightarrow> Inl err
        | Inr normalized \<Rightarrow> Inr (c\<lparr>TLS := Some (normalized\<lparr>CertData := [], KeyDataTLS := []\<rparr>)\<rparr>))"

fun env_accounts :: "string list \<Rightarrow> config step" where
  "env_accounts [] c = Inr c"
| "env_accounts (e # es) c =
     (let entry = TrimSpace e in
      if entry = [] then env_accounts es c
      else case Cut entry CHR '':'' of
          None \<Rightarrow> Inl (Errorf (''CARTEIRO_ACCOUNTS: entry '' @ quoted entry @ '' must be email:password''))
        | Some (email, password) \<Rightarrow>
            if TrimSpace email = []
            then Inl (Errorf (''CARTEIRO_ACCOUNTS: entry '' @ quoted entry @ '' must be email:password''))
            else env_accounts es (c\<lparr>Accounts := Accounts c @ [\<lparr>CfgEmail = TrimSpace email, CfgPassword = password, CfgAllowedFrom = []\<rparr>]\<rparr>))"

definition setAccountsEnv :: "environ \<Rightarrow> config step" where
  "setAccountsEnv env c =
     (let v = Getenv env ''CARTEIRO_ACCOUNTS'' in if v = [] then Inr c else env_accounts (SplitByte CHR '';'' v) c)"

definition api_or_new :: "config \<Rightarrow> api_cfg" where
  "api_or_new c = (case API c of None \<Rightarrow> \<lparr>APIListen = [], Token = []\<rparr> | Some a \<Rightarrow> a)"

definition setAPIEnv :: "environ \<Rightarrow> config step" where
  "setAPIEnv env c =
     (let c1 = (let v = Getenv env ''CARTEIRO_API_LISTEN'' in if v \<noteq> [] then c\<lparr>API := Some ((api_or_new c)\<lparr>APIListen := v\<rparr>)\<rparr> else c);
          c2 = (let v = Getenv env ''CARTEIRO_API_TOKEN'' in if v \<noteq> [] then c1\<lparr>API := Some ((api_or_new c1)\<lparr>Token := v\<rparr>)\<rparr> else c1)
      in Inr c2)"

definition setWebEnv :: "environ \<Rightarrow> config step" where
  "setWebEnv env c =
     (if Getenv env ''CARTEIRO_WEB_LISTEN'' \<noteq> [] then Inr (c\<lparr>Web := Some \<lparr>WebListen = Getenv env ''CARTEIRO_WEB_LISTEN''\<rparr>\<rparr>)
      else if Getenv env ''CARTEIRO_HTTP_ADDR'' \<noteq> [] then Inr (c\<lparr>Web := Some \<lparr>WebListen = Getenv env ''CARTEIRO_HTTP_ADDR''\<rparr>\<rparr>)
      else if Getenv env ''HTTP_ADDR'' \<noteq> [] then Inr (c\<lparr>Web := Some \<lparr>WebListen = Getenv env ''HTTP_ADDR''\<rparr>\<rparr>)
      else Inr c)"

text \<open>\<open>strings.SplitN(s, sep, 3)\<close> with exactly three parts.\<close>

definition SplitN3 :: "string \<Rightarrow> char \<Rightarrow> (string \<times> string \<times> string) option" where
  "SplitN3 s sep = (case Cut s sep of None \<Rightarrow> None
     | Some (a, r) \<Rightarrow> (case Cut r sep of None \<Rightarrow> None | Some (b, c) \<Rightarrow> Some (a, b, c)))"

fun env_dkim :: "string list \<Rightarrow> config step" where
  "env_dkim [] c = Inr c"
| "env_dkim (e # es) c =
     (let entry = TrimSpace e in
      if entry = [] then env_dkim es c
      else case SplitN3 entry CHR '':'' of
          None \<Rightarrow> Inl (Errorf (''CARTEIRO_DKIM_KEYS: entry '' @ quoted entry @ '' must be domain:selector:base64''))
        | Some (d, sel, b64) \<Rightarrow>
            if TrimSpace d = []
            then Inl (Errorf (''CARTEIRO_DKIM_KEYS: entry '' @ quoted entry @ '' must be domain:selector:base64''))
            else let selector = (if TrimSpace sel = [] then ''mail'' else TrimSpace sel) in
              case decodeBase64Key b64 of
                Inl err \<Rightarrow> Inl (Wrapf (''CARTEIRO_DKIM_KEYS: entry '' @ quoted entry @ '': '') err)
              | Inr key \<Rightarrow> env_dkim es (c\<lparr>dkimEnv := dkimEnv c @ [\<lparr>CfgDomain = TrimSpace d, CfgSelector = selector, CfgKeyData = key\<rparr>]\<rparr>))"

definition applyDKIMEnv :: "environ \<Rightarrow> config step" where
  "applyDKIMEnv env c =
     (let v = Getenv env ''CARTEIRO_DKIM_KEYS'' in if v = [] then Inr c else env_dkim (SplitByte CHR '';'' v) c)"

definition applyEnv :: "syslib \<Rightarrow> environ \<Rightarrow> config step" where
  "applyEnv lib env = seq_steps
     [setStr env ''CARTEIRO_LISTEN'' (\<lambda>v c. c\<lparr>Listen := v\<rparr>),
      setStr env ''CARTEIRO_HOSTNAME'' (\<lambda>v c. c\<lparr>Hostname := v\<rparr>),
      setStr env ''CARTEIRO_LOG_LEVEL'' (\<lambda>v c. c\<lparr>LogLevel := v\<rparr>),
      setSQLitePath env,
      setDur lib env ''CARTEIRO_DELIVERY_CONNECT_TIMEOUT'' (\<lambda>d x. x\<lparr>ConnectTimeout := d\<rparr>),
      setDur lib env ''CARTEIRO_DELIVERY_IO_TIMEOUT'' (\<lambda>d x. x\<lparr>IOTimeout := d\<rparr>),
      setDur lib env ''CARTEIRO_DELIVERY_RETRY_BASE'' (\<lambda>d x. x\<lparr>RetryBase := d\<rparr>),
      setDur lib env ''CARTEIRO_DELIVERY_RETRY_MAX'' (\<lambda>d x. x\<lparr>RetryMax := d\<rparr>),
      setDur lib env ''CARTEIRO_DELIVERY_POLL_INTERVAL'' (\<lambda>d x. x\<lparr>PollInterval := d\<rparr>),
      setIntField env ''CARTEIRO_DELIVERY_MAX_ATTEMPTS'' (\<lambda>n c. c\<lparr>Delivery := (Delivery c)\<lparr>MaxAttempts := n\<rparr>\<rparr>),
      setIntField env ''CARTEIRO_DELIVERY_CONCURRENCY'' (\<lambda>n c. c\<lparr>Delivery := (Delivery c)\<lparr>Concurrency := n\<rparr>\<rparr>),
      setIntField env ''CARTEIRO_QUEUE_DEAD_MAX'' (\<lambda>n c. c\<lparr>Queue := \<lparr>DeadMax = n\<rparr>\<rparr>),
      setIntField env ''CARTEIRO_SENDS_RETENTION_DAYS'' (\<lambda>n c. c\<lparr>SendHistoryDays := n\<rparr>),
      setInt env ''CARTEIRO_MAX_MESSAGE_SIZE'' (\<lambda>n c. c\<lparr>MaxMessageSize := n\<rparr>),
      setInt env ''CARTEIRO_MAX_RECIPIENTS'' (\<lambda>n c. c\<lparr>MaxRecipients := n\<rparr>),
      setBool env ''CARTEIRO_REQUIRE_TLS'' (\<lambda>b c. c\<lparr>RequireTLS := b\<rparr>),
      setBool env ''CARTEIRO_LOG_MASK_EMAILS'' (\<lambda>b c. c\<lparr>LogMaskEmails := b\<rparr>),
      setStorageEnv env, setTLSEnv env, setAccountsEnv env, setAPIEnv env, setWebEnv env, applyDKIMEnv env]"

section \<open>Normalization and validation\<close>

definition normalizeListen :: "string \<Rightarrow> string" where
  "normalizeListen v0 = (let v = TrimSpace v0 in
     if v \<noteq> [] then (case ParseInt v of Some _ \<Rightarrow> CHR '':'' # v | None \<Rightarrow> v) else v)"

text \<open>\<open>net.SplitHostPort\<close>: host and port, or \<^term>\<open>None\<close> for its errors.\<close>

definition SplitHostPort :: "string \<Rightarrow> (string \<times> string) option" where
  "SplitHostPort hp = (case LastIndexByte hp CHR '':'' of
       None \<Rightarrow> None
     | Some i \<Rightarrow>
        if hp \<noteq> [] \<and> hd hp = CHR ''['' then
          (case IndexByte hp CHR '']'' of
             None \<Rightarrow> None
           | Some e \<Rightarrow>
               if e + 1 = i \<and> CHR ''['' \<notin> set (drop 1 hp) \<and> CHR '']'' \<notin> set (drop (e + 1) hp)
               then Some (take (e - 1) (drop 1 hp), drop (i + 1) hp) else None)
        else if CHR '':'' \<in> set (take i hp) \<or> CHR ''['' \<in> set hp \<or> CHR '']'' \<in> set hp then None
        else Some (take i hp, drop (i + 1) hp))"

definition validEmail :: "string \<Rightarrow> bool" where
  "validEmail s = (case LastIndexByte s CHR ''@'' of
       None \<Rightarrow> False
     | Some at \<Rightarrow> if at = 0 \<or> at = length s - 1 then False else \<not> ContainsAny s ('' '' @ [TAB] @ ''<>()''))"

fun extra_loop :: "string list \<Rightarrow> string list \<Rightarrow> string list \<Rightarrow> string list" where
  "extra_loop seen out [] = out"
| "extra_loop seen out (f0 # extra) =
     (let f = ToLower (TrimSpace f0) in
      if f = [] \<or> f \<in> set seen then extra_loop seen out extra
      else extra_loop (f # seen) (out @ [f]) extra)"

definition normalizeExtraAllowed :: "string list \<Rightarrow> string list" where
  "normalizeExtraAllowed extra = extra_loop [] [] extra"

text \<open>The loop over \<open>index\<close> and \<open>uniq\<close>: a later entry replaces the earlier one of the same key, in its place.\<close>

fun dedupe_last :: "('a \<Rightarrow> string) \<Rightarrow> 'a list \<Rightarrow> 'a list \<Rightarrow> 'a list" where
  "dedupe_last key uniq [] = uniq"
| "dedupe_last key uniq (x # xs) =
     (case find (\<lambda>i. key (uniq ! i) = key x) [0..<length uniq] of
        Some i \<Rightarrow> dedupe_last key (uniq[i := x]) xs
      | None \<Rightarrow> dedupe_last key (uniq @ [x]) xs)"

fun check_accounts :: "cfg_account list \<Rightarrow> cfg_account list res" where
  "check_accounts [] = Inr []"
| "check_accounts (a # as) =
     (if CfgEmail a = [] \<or> \<not> validEmail (CfgEmail a)
      then Inl (Errorf (''account '' @ quoted (CfgEmail a) @ '': email must be a valid address''))
      else if CfgPassword a = [] then Inl (Errorf (''account '' @ quoted (CfgEmail a) @ '': password must not be empty''))
      else (case check_accounts as of
              Inl err \<Rightarrow> Inl err
            | Inr r \<Rightarrow> Inr (a\<lparr>CfgAllowedFrom := normalizeExtraAllowed (CfgAllowedFrom a)\<rparr> # r)))"

fun check_dkim :: "cryptolib \<Rightarrow> cfg_dkim list \<Rightarrow> cfg_dkim list res" where
  "check_dkim cl [] = Inr []"
| "check_dkim cl (k # ks) =
     (if CfgDomain k = [] \<or> CfgSelector k = [] then Inl (Errorf ''dkim: domain and selector are required'')
      else if CfgKeyData k = []
      then Inl (Errorf (''dkim for '' @ CfgDomain k @ '': provide the key as key_data (base64 of the PEM file)''))
      else let k' = k\<lparr>CfgSelector := TrimSpace (CfgSelector k)\<rparr> in
        case ParseSigner cl (CfgKeyData k) of
          Inl err \<Rightarrow> Inl (Wrapf (''dkim for '' @ CfgDomain k @ '': invalid inline key: '') err)
        | Inr _ \<Rightarrow> (case check_dkim cl ks of Inl err \<Rightarrow> Inl err | Inr r \<Rightarrow> Inr (k' # r)))"

definition validListen :: "config step" where
  "validListen c0 = (let c = c0\<lparr>Listen := normalizeListen (Listen c0)\<rparr> in
     case SplitHostPort (Listen c) of None \<Rightarrow> Inl (Errorf (''invalid listen '' @ quoted (Listen c))) | Some _ \<Rightarrow> Inr c)"

definition validTLS :: "syslib \<Rightarrow> config step" where
  "validTLS lib c = (case TLS c of
       None \<Rightarrow> Inr c
     | Some t \<Rightarrow>
        if Mode t \<noteq> [] \<and> Mode t \<noteq> ''starttls'' \<and> Mode t \<noteq> ''implicit''
        then Inl (Errorf (''tls.mode must be starttls or implicit, got '' @ quoted (Mode t)))
        else let t' = (if Mode t = [] then t\<lparr>Mode := ''starttls''\<rparr> else t) in
          if CertPEM t' = [] \<or> KeyPEM t' = []
          then Inl (Errorf ''tls: cert_data and key_data are required (base64 of the PEM files)'')
          else case X509KeyPair lib (CertPEM t') (KeyPEM t') of
              Inl err \<Rightarrow> Inl (Wrapf ''tls: certificate/key pair is invalid: '' err)
            | Inr _ \<Rightarrow> Inr (c\<lparr>TLS := Some t'\<rparr>))"

definition validLimits :: "config step" where
  "validLimits c =
     (if MaxMessageSize c \<le> 0 then Inl (Errorf ''max_message_size must be positive'')
      else if MaxRecipients c \<le> 0 then Inl (Errorf ''max_recipients must be positive'')
      else if DeadMax (Queue c) < 0 then Inl (Errorf ''queue.dead_max must be >= 0 (0 disables the limit)'')
      else if SendHistoryDays c < 0 then Inl (Errorf ''send_history_days must be >= 0 (0 keeps the history forever)'')
      else Inr c)"

definition validStorage :: "config step" where
  "validStorage c = (case Storage c of
       None \<Rightarrow> Inl (Panic ''nil pointer dereference'')
     | Some st \<Rightarrow>
        if StorageType st = [] \<or> StorageType st = ''sqlite'' then Inr (c\<lparr>Storage := Some (st\<lparr>StorageType := ''sqlite''\<rparr>)\<rparr>)
        else if StorageType st = ''mysql'' then
          (if TrimSpace (DSN st) = [] then Inl (Errorf ''storage type mysql requires storage.dsn (or CARTEIRO_DB_DSN)'') else Inr c)
        else Inl (Errorf (''storage.type must be sqlite or mysql, got '' @ quoted (StorageType st))))"

definition validAPI :: "config step" where
  "validAPI c = (case API c of
       None \<Rightarrow> (if Web c \<noteq> None then Inl (Errorf ''the web panel needs the admin API: set api.token / CARTEIRO_API_TOKEN'') else Inr c)
     | Some a \<Rightarrow>
        if TrimSpace (Token a) = [] then Inl (Errorf ''api requires a token (api.token or CARTEIRO_API_TOKEN)'')
        else let l = normalizeListen (APIListen a);
                 l = (if TrimSpace l = [] then ''127.0.0.1:9090'' else l);
                 w = normalizeListen (case Web c of None \<Rightarrow> [] | Some w \<Rightarrow> WebListen w);
                 w = (if TrimSpace w = [] then '':8080'' else w)
             in case SplitHostPort l of
                  None \<Rightarrow> Inl (Errorf (''invalid api.listen '' @ quoted l))
                | Some _ \<Rightarrow>
                   (case SplitHostPort w of
                      None \<Rightarrow> Inl (Errorf (''invalid web.listen '' @ quoted w))
                    | Some _ \<Rightarrow> Inr (c\<lparr>API := Some \<lparr>APIListen = l, Token = TrimSpace (Token a)\<rparr>, Web := Some \<lparr>WebListen = w\<rparr>\<rparr>)))"

definition validAccounts :: "config step" where
  "validAccounts c =
     (let uniq = dedupe_last CfgEmail [] (map (\<lambda>a. a\<lparr>CfgEmail := ToLower (TrimSpace (CfgEmail a))\<rparr>) (Accounts c)) in
      case check_accounts uniq of Inl err \<Rightarrow> Inl err | Inr as \<Rightarrow> Inr (c\<lparr>Accounts := as\<rparr>))"

definition validDKIM :: "syslib \<Rightarrow> config step" where
  "validDKIM lib c =
     (let uniq = dedupe_last CfgDomain [] (map (\<lambda>k. k\<lparr>CfgDomain := ToLower (TrimSpace (CfgDomain k))\<rparr>) (DKIM c)) in
      case check_dkim (crypto lib) uniq of Inl err \<Rightarrow> Inl err | Inr ks \<Rightarrow> Inr (c\<lparr>DKIM := ks\<rparr>))"

definition validDelivery :: "config step" where
  "validDelivery c =
     (if MaxAttempts (Delivery c) < 1 then Inl (Errorf ''delivery.max_attempts must be >= 1'')
      else if Concurrency (Delivery c) < 1 then Inl (Errorf ''delivery.concurrency must be >= 1'')
      else if ToLower (LogLevel c) \<notin> {''debug'', ''info'', ''warn'', ''error''}
      then Inl (Errorf ''log_level must be one of debug|info|warn|error'')
      else Inr c)"

definition normalizeAndValidate :: "syslib \<Rightarrow> config step" where
  "normalizeAndValidate lib = seq_steps
     [validListen, validTLS lib, validLimits, validStorage, validAPI, validAccounts, validDKIM lib, validDelivery]"

section \<open>Loading\<close>

definition locateFile :: "syslib \<Rightarrow> environ \<Rightarrow> string \<Rightarrow> string res" where
  "locateFile lib env flagPath =
     (if flagPath \<noteq> [] then
        (if Stat lib flagPath then Inr flagPath else Inl (Errorf (''given config does not exist: '' @ flagPath)))
      else if Getenv env ''CARTEIRO_CONFIG'' \<noteq> [] then Inr (Getenv env ''CARTEIRO_CONFIG'')
      else let candidates = [''/etc/carteiro/config.yaml'', ''/etc/carteiro/config.yml''] @
                 (case UserConfigDir lib of None \<Rightarrow> []
                  | Some dir \<Rightarrow> if dir = [] then [] else [dir @ ''/carteiro/config.yaml'', dir @ ''/carteiro/config.yml''])
           in Inr (case find (Stat lib) candidates of Some p \<Rightarrow> p | None \<Rightarrow> []))"

fun decode_keys :: "string \<Rightarrow> cfg_dkim list \<Rightarrow> cfg_dkim list res" where
  "decode_keys path [] = Inr []"
| "decode_keys path (k # ks) =
     (case decodeYAMLKey k of
        Inl err \<Rightarrow> Inl (Wrapf (''config '' @ path @ '': dkim for '' @ CfgDomain k @ '': '') err)
      | Inr k' \<Rightarrow> (case decode_keys path ks of Inl err \<Rightarrow> Inl err | Inr r \<Rightarrow> Inr (k' # r)))"

definition read_config :: "syslib \<Rightarrow> string \<Rightarrow> config step" where
  "read_config lib path cfg =
     (if path = [] then Inr cfg
      else case ReadFile lib path of
          Inl err \<Rightarrow> Inl (Wrapf (''reading config '' @ path @ '': '') err)
        | Inr data \<Rightarrow>
            (case yaml_Unmarshal lib data cfg of
               Inl err \<Rightarrow> Inl (Wrapf (''parsing config '' @ path @ '': '') err)
             | Inr c \<Rightarrow>
                 (case decode_keys path (DKIM c) of
                    Inl err \<Rightarrow> Inl err
                  | Inr ks \<Rightarrow>
                      (case TLS c of
                         None \<Rightarrow> Inr (c\<lparr>DKIM := ks\<rparr>)
                       | Some t \<Rightarrow>
                           (case decodeYAMLBase64 t of
                              Inl err \<Rightarrow> Inl (Wrapf (''config '' @ path @ '': tls: '') err)
                            | Inr t' \<Rightarrow> Inr (c\<lparr>DKIM := ks, TLS := Some t'\<rparr>))))))"

definition merge_dkim :: "config \<Rightarrow> config" where
  "merge_dkim c =
     (if dkimEnv c = [] then c
      else c\<lparr>DKIM := filter (\<lambda>k. \<not> list_ex (\<lambda>e. CfgDomain e = CfgDomain k) (dkimEnv c)) (DKIM c) @ dkimEnv c\<rparr>)"

definition defaultStorage :: "config step" where
  "defaultStorage c =
     Inr (if Storage c = None then c\<lparr>Storage := Some \<lparr>StorageType = ''sqlite'', SQLitePath = [], DSN = []\<rparr>\<rparr> else c)"

definition defaultHostname :: "syslib \<Rightarrow> config step" where
  "defaultHostname lib c = Inr (if Hostname c = [] then c\<lparr>Hostname := os_Hostname lib\<rparr> else c)"

definition warnInsecure :: "config step" where
  "warnInsecure c =
     Inr (if \<not> RequireTLS c
          then c\<lparr>InsecureAuthMsg := ''plain-text AUTH is enabled: use TLS or a private network (require_tls: true in public production)''\<rparr>
          else c)"

definition Load :: "syslib \<Rightarrow> environ \<Rightarrow> string \<Rightarrow> config res" where
  "Load lib env flagPath =
     (case locateFile lib env flagPath of
        Inl err \<Rightarrow> Inl err
      | Inr path \<Rightarrow>
          seq_steps
            [read_config lib path, applyEnv lib env, defaultStorage, \<lambda>c. Inr (merge_dkim c), defaultHostname lib,
             normalizeAndValidate lib, warnInsecure]
            (defaults lib))"

text \<open>\<open>ConfigFilePath\<close>: the file that a successful \<open>Load\<close> read, or the empty text.\<close>

definition ConfigFilePath :: "syslib \<Rightarrow> environ \<Rightarrow> string \<Rightarrow> string" where
  "ConfigFilePath lib env flagPath = (case locateFile lib env flagPath of Inl err \<Rightarrow> [] | Inr path \<Rightarrow> path)"

section \<open>Directories\<close>

record oslib =
  GOOS :: string
  UserHomeDir :: "string option"
  MkdirAll :: "string \<Rightarrow> bool"

definition DataDir :: "oslib \<Rightarrow> environ \<Rightarrow> string" where
  "DataDir os env =
     (case (if GOOS os = ''darwin'' then UserHomeDir os else None) of
        Some home \<Rightarrow> home @ ''/Library/Application Support''
      | None \<Rightarrow>
          if Getenv env ''XDG_DATA_HOME'' \<noteq> [] then Getenv env ''XDG_DATA_HOME''
          else (case UserHomeDir os of Some home \<Rightarrow> home @ ''/.local/share'' | None \<Rightarrow> ''.''))"

definition DefaultDataDir :: "oslib \<Rightarrow> environ \<Rightarrow> string res" where
  "DefaultDataDir os env =
     (let dataDir = (if DataDir os env = ''.'' then ''carteiro'' else DataDir os env @ ''/carteiro'');
          candidates = ''/var/lib/carteiro'' # (if dataDir \<noteq> ''/var/lib/carteiro'' then [dataDir] else [])
      in case find (MkdirAll os) candidates of
           Some dir \<Rightarrow> Inr dir
         | None \<Rightarrow> Inl (Errorf (''could not create the data directory at '' @ Join candidates '', '')))"

definition UserConfigFile :: "syslib \<Rightarrow> string res" where
  "UserConfigFile lib = (case UserConfigDir lib of
       None \<Rightarrow> Inl (Errorf ''user config dir not defined'')
     | Some dir \<Rightarrow> Inr (dir @ ''/carteiro/config.yaml''))"

end
