(* ===== verification/Config_Laws.thy ===== *)
theory Config_Laws
  imports Config
begin

text \<open>
  What a configuration that \<open>Load\<close> returns satisfies, how duplicates are resolved, and two corner
  cases of the validation.
\<close>

section \<open>Duplicates\<close>

lemma find_upt_key:
  "find (\<lambda>i. key (uniq ! i) = k) [0..<length uniq] = Some i \<Longrightarrow> i < length uniq \<and> key (uniq ! i) = k"
  by (auto simp: find_Some_iff)

lemma find_upt_None:
  "find (\<lambda>i. key (uniq ! i) = k) [0..<length uniq] = None \<longleftrightarrow> k \<notin> key ` set uniq"
  by (simp add: find_None_iff image_iff) (metis in_set_conv_nth)

lemma map_update_same: "i < length xs \<Longrightarrow> key (xs ! i) = key x \<Longrightarrow> map key (xs[i := x]) = map key xs"
  by (simp add: map_update list_update_same_conv)

lemma find_update_key:
  "distinct (map key xs) \<Longrightarrow> i < length xs \<Longrightarrow> key (xs ! i) = key x \<Longrightarrow>
   find (\<lambda>y. key y = k) (xs[i := x]) = (if key x = k then Some x else find (\<lambda>y. key y = k) xs)"
proof (induction xs arbitrary: i)
  case (Cons y xs)
  show ?case
  proof (cases i)
    case 0
    then show ?thesis using Cons.prems by auto
  next
    case (Suc j)
    then have "key y \<noteq> key x" using Cons.prems by (auto simp: image_iff) (metis nth_mem)
    then show ?thesis using Cons Suc by auto
  qed
qed simp

lemma dedupe_last_distinct: "distinct (map key uniq) \<Longrightarrow> distinct (map key (dedupe_last key uniq xs))"
proof (induction key uniq xs rule: dedupe_last.induct)
  case (2 key uniq x xs)
  show ?case
  proof (cases "find (\<lambda>i. key (uniq ! i) = key x) [0..<length uniq]")
    case None
    then show ?thesis using 2 find_upt_None [of key uniq "key x"] by simp
  next
    case (Some i)
    then show ?thesis using 2 find_upt_key [OF Some] map_update_same [of i uniq key x] by simp
  qed
qed simp

lemma find_append_opt: "find P (xs @ ys) = (case find P xs of None \<Rightarrow> find P ys | Some x \<Rightarrow> Some x)"
  by (induction xs) auto

lemma dedupe_last_find:
  "distinct (map key uniq) \<Longrightarrow> find (\<lambda>y. key y = k) (dedupe_last key uniq xs) =
     (case find (\<lambda>y. key y = k) (rev xs) of Some x \<Rightarrow> Some x | None \<Rightarrow> find (\<lambda>y. key y = k) uniq)"
proof (induction key uniq xs rule: dedupe_last.induct)
  case (2 key uniq x xs)
  show ?case
  proof (cases "find (\<lambda>i. key (uniq ! i) = key x) [0..<length uniq]")
    case None
    then have "key x \<notin> key ` set uniq" using find_upt_None [of key uniq "key x"] by simp
    then have "key x = k \<Longrightarrow> find (\<lambda>y. key y = k) uniq = None" by (auto simp: find_None_iff image_iff)
    then show ?thesis using 2 None \<open>key x \<notin> _\<close> by (auto simp: find_append_opt split: option.splits)
  next
    case (Some i)
    note i = find_upt_key [OF Some]
    then have "distinct (map key (uniq[i := x]))" using 2(3) map_update_same [of i uniq key x] by simp
    then show ?thesis using 2 Some i find_update_key [of key uniq i x k]
      by (auto simp: find_append_opt split: option.splits)
  qed
qed (simp split: option.splits)

text \<open>
  Seeds of the configuration: after the duplicate check there is one account per address, and it
  is the last one listed, so that an account of the environment overrides the one of the file.
\<close>

theorem validAccounts_last_wins:
  assumes "validAccounts c = Inr c'"
  shows "distinct (map CfgEmail (Accounts c')) \<and>
    map_option CfgPassword (find (\<lambda>a. CfgEmail a = e) (Accounts c')) =
    map_option CfgPassword (find (\<lambda>a. norm_addr (CfgEmail a) = e) (rev (Accounts c)))"
proof -
  let ?n = "\<lambda>a. a\<lparr>CfgEmail := norm_addr (CfgEmail a)\<rparr>"
  let ?u = "dedupe_last CfgEmail [] (map ?n (Accounts c))"
  have chk: "map CfgEmail as' = map CfgEmail as \<and>
      map_option CfgPassword (find (\<lambda>a. CfgEmail a = e) as') = map_option CfgPassword (find (\<lambda>a. CfgEmail a = e) as)"
    if "check_accounts as = Inr as'" for as as'
    using that by (induction as arbitrary: as') (auto split: if_splits sum.splits)
  have "check_accounts ?u = Inr (Accounts c')"
    using assms by (auto simp: validAccounts_def Let_def norm_addr_def [symmetric] split: sum.splits)
  note ck = chk [OF this]
  have fm: "find (\<lambda>y. CfgEmail y = e) (map ?n xs) = map_option ?n (find (\<lambda>a. norm_addr (CfgEmail a) = e) xs)" for xs
    by (induction xs) auto
  have "find (\<lambda>y. CfgEmail y = e) ?u = find (\<lambda>y. CfgEmail y = e) (map ?n (rev (Accounts c)))"
    using dedupe_last_find [of CfgEmail "[]" e "map ?n (Accounts c)"] by (simp add: rev_map split: option.splits)
  then have "find (\<lambda>y. CfgEmail y = e) ?u = map_option ?n (find (\<lambda>a. norm_addr (CfgEmail a) = e) (rev (Accounts c)))"
    by (simp only: fm)
  with ck dedupe_last_distinct [of CfgEmail "[]" "map ?n (Accounts c)"] show ?thesis
    by (simp add: option.map_comp comp_def)
qed

definition demo_sys :: syslib where
  "demo_sys = \<lparr>ParseDuration = (\<lambda>s. None), X509KeyPair = (\<lambda>a b. Inr ()), crypto = demo_crypto,
       os_Hostname = ''h'', ReadFile = (\<lambda>p. Inr []), Stat = (\<lambda>p. False), UserConfigDir = None, yaml_Unmarshal = (\<lambda>d c. Inr c)\<rparr>"

lemma validAccounts_last_wins_witness:
  "\<exists>c'. validAccounts ((defaults demo_sys)
       \<lparr>Accounts := [\<lparr>CfgEmail = ''a@x'', CfgPassword = ''old'', CfgAllowedFrom = []\<rparr>, \<lparr>CfgEmail = ''A@x'', CfgPassword = ''new'', CfgAllowedFrom = []\<rparr>]\<rparr>)
     = Inr c' \<and> map_option CfgPassword (find (\<lambda>a. CfgEmail a = ''a@x'') (Accounts c')) = Some ''new''"
proof -
  let ?as = "[\<lparr>CfgEmail = ''a@x'', CfgPassword = ''old'', CfgAllowedFrom = []\<rparr>, \<lparr>CfgEmail = ''A@x'', CfgPassword = ''new'', CfgAllowedFrom = []\<rparr>]"
  let ?c = "(defaults demo_sys)\<lparr>Accounts := ?as\<rparr>"
  have n: "norm_addr ''a@x'' = ''a@x''" "norm_addr ''A@x'' = ''a@x''" "validEmail ''a@x''" by code_simp+
  obtain c' where c': "validAccounts ?c = Inr c'"
    using n by (simp add: validAccounts_def Let_def norm_addr_def [symmetric])
  with validAccounts_last_wins [OF c', of "''a@x''"] n show ?thesis by simp
qed


section \<open>A validated configuration\<close>

definition tls_ok :: "syslib \<Rightarrow> tls_cfg option \<Rightarrow> bool" where
  "tls_ok lib t \<longleftrightarrow> (case t of None \<Rightarrow> True
     | Some t \<Rightarrow> Mode t \<in> {''starttls'', ''implicit''} \<and> CertPEM t \<noteq> [] \<and> KeyPEM t \<noteq> [] \<and>
                 X509KeyPair lib (CertPEM t) (KeyPEM t) = Inr ())"

definition storage_ok :: "storage_cfg option \<Rightarrow> bool" where
  "storage_ok st \<longleftrightarrow> (case st of None \<Rightarrow> False
     | Some st \<Rightarrow> StorageType st = ''sqlite'' \<or> StorageType st = ''mysql'' \<and> TrimSpace (DSN st) \<noteq> [])"

definition api_ok :: "api_cfg option \<Rightarrow> web_cfg option \<Rightarrow> bool" where
  "api_ok a w \<longleftrightarrow> (case a of None \<Rightarrow> w = None
     | Some a \<Rightarrow> Token a \<noteq> [] \<and> TrimSpace (Token a) = Token a \<and> SplitHostPort (APIListen a) \<noteq> None \<and>
        (case w of None \<Rightarrow> False | Some w \<Rightarrow> SplitHostPort (WebListen w) \<noteq> None))"

definition accounts_ok :: "cfg_account list \<Rightarrow> bool" where
  "accounts_ok as \<longleftrightarrow> distinct (map CfgEmail as) \<and> (\<forall>a \<in> set as. validEmail (CfgEmail a) \<and>
     norm_addr (CfgEmail a) = CfgEmail a \<and> CfgPassword a \<noteq> [])"

definition dkim_ok :: "syslib \<Rightarrow> cfg_dkim list \<Rightarrow> bool" where
  "dkim_ok lib ks \<longleftrightarrow> distinct (map CfgDomain ks) \<and> (\<forall>k \<in> set ks. CfgDomain k \<noteq> [] \<and>
     norm_addr (CfgDomain k) = CfgDomain k \<and> (\<exists>sg. ParseSigner (crypto lib) (CfgKeyData k) = Inr sg))"

definition config_ok :: "syslib \<Rightarrow> config \<Rightarrow> bool" where
  "config_ok lib c \<longleftrightarrow> SplitHostPort (Listen c) \<noteq> None \<and> tls_ok lib (TLS c) \<and> 0 < MaxMessageSize c \<and> 0 < MaxRecipients c \<and>
     0 \<le> DeadMax (Queue c) \<and> 0 \<le> SendHistoryDays c \<and> storage_ok (Storage c) \<and> api_ok (API c) (Web c) \<and>
     accounts_ok (Accounts c) \<and> dkim_ok lib (DKIM c) \<and> 1 \<le> MaxAttempts (Delivery c) \<and> 1 \<le> Concurrency (Delivery c) \<and>
     ToLower (LogLevel c) \<in> {''debug'', ''info'', ''warn'', ''error''}"

lemma validListen_ok: "validListen c = Inr c' \<Longrightarrow> \<exists>l. c' = c\<lparr>Listen := l\<rparr> \<and> SplitHostPort l \<noteq> None"
  by (auto simp: validListen_def Let_def split: option.splits)

lemma validTLS_ok:
  assumes "validTLS lib c = Inr c'" shows "\<exists>t. c' = c\<lparr>TLS := t\<rparr> \<and> tls_ok lib t"
proof (cases "TLS c")
  case None
  then have "c\<lparr>TLS := None\<rparr> = c" by (cases c) simp
  then show ?thesis using None assms by (intro exI [of _ None]) (simp add: validTLS_def tls_ok_def)
next
  case (Some t)
  let ?t = "if Mode t = [] then t\<lparr>Mode := ''starttls''\<rparr> else t"
  have "c' = c\<lparr>TLS := Some ?t\<rparr>" and "tls_ok lib (Some ?t)"
    using assms Some by (auto simp: validTLS_def tls_ok_def Let_def split: if_splits sum.splits)
  then show ?thesis by blast
qed

lemma validLimits_ok:
  "validLimits c = Inr c' \<Longrightarrow> c' = c \<and> 0 < MaxMessageSize c \<and> 0 < MaxRecipients c \<and> 0 \<le> DeadMax (Queue c) \<and> 0 \<le> SendHistoryDays c"
  by (auto simp: validLimits_def split: if_splits)

lemma validStorage_ok:
  assumes "validStorage c = Inr c'" shows "\<exists>st. c' = c\<lparr>Storage := st\<rparr> \<and> storage_ok st"
proof -
  from assms obtain st where st: "Storage c = Some st" by (auto simp: validStorage_def split: option.splits)
  show ?thesis
  proof (cases "StorageType st = [] \<or> StorageType st = ''sqlite''")
    case True
    then have "c' = c\<lparr>Storage := Some (st\<lparr>StorageType := ''sqlite''\<rparr>)\<rparr>" using assms st by (simp add: validStorage_def)
    then show ?thesis by (auto simp: storage_ok_def)
  next
    case False
    then have "c' = c" "storage_ok (Some st)"
      using assms st by (auto simp: validStorage_def storage_ok_def split: if_splits)
    then have "c' = c\<lparr>Storage := Some st\<rparr>" using st by (cases c) simp
    with \<open>storage_ok (Some st)\<close> show ?thesis by blast
  qed
qed

lemma validAPI_ok:
  assumes "validAPI c = Inr c'" shows "\<exists>a w. c' = c\<lparr>API := a, Web := w\<rparr> \<and> api_ok a w"
proof (cases "API c")
  case None
  then have "c' = c" "Web c = None" using assms by (auto simp: validAPI_def split: if_splits)
  then have "c' = c\<lparr>API := None, Web := None\<rparr>" using None by (cases c) simp
  then show ?thesis by (intro exI [of _ None]) (simp add: api_ok_def)
next
  case (Some a)
  from assms Some obtain l w where "c' = c\<lparr>API := Some \<lparr>APIListen = l, Token = TrimSpace (Token a)\<rparr>, Web := Some \<lparr>WebListen = w\<rparr>\<rparr>"
      "SplitHostPort l \<noteq> None" "SplitHostPort w \<noteq> None" "TrimSpace (Token a) \<noteq> []"
    by (auto simp: validAPI_def Let_def split: if_splits option.splits)
  then show ?thesis
    by (intro exI [of _ "Some \<lparr>APIListen = l, Token = TrimSpace (Token a)\<rparr>"] exI [of _ "Some \<lparr>WebListen = w\<rparr>"])
      (simp add: api_ok_def)
qed

lemma dedupe_last_set: "set (dedupe_last key uniq xs) \<subseteq> set uniq \<union> set xs"
proof (induction key uniq xs rule: dedupe_last.induct)
  case (2 key uniq x xs)
  then show ?case using set_update_subset_insert [of uniq _ x] by (fastforce split: option.splits)
qed simp

lemma dedupe_last_mem: "x \<in> set (dedupe_last key [] xs) \<Longrightarrow> x \<in> set xs"
  using dedupe_last_set [of key "[]" xs] by auto

lemma check_accounts_ok:
  "check_accounts as = Inr as' \<Longrightarrow> map CfgEmail as' = map CfgEmail as \<and>
     (\<forall>a \<in> set as'. validEmail (CfgEmail a) \<and> CfgPassword a \<noteq> [])"
  by (induction as arbitrary: as') (auto split: if_splits sum.splits)

lemma validAccounts_ok:
  assumes "validAccounts c = Inr c'" shows "\<exists>as. c' = c\<lparr>Accounts := as\<rparr> \<and> accounts_ok as"
proof -
  let ?n = "map (\<lambda>a. a\<lparr>CfgEmail := norm_addr (CfgEmail a)\<rparr>) (Accounts c)"
  from assms obtain as where as: "check_accounts (dedupe_last CfgEmail [] ?n) = Inr as" "c' = c\<lparr>Accounts := as\<rparr>"
    by (auto simp: validAccounts_def Let_def norm_addr_def [symmetric] split: sum.splits)
  note ok = check_accounts_ok [OF as(1)]
  have "norm_addr e = e" if "e \<in> set (map CfgEmail as)" for e
  proof -
    from that ok have "e \<in> CfgEmail ` set (dedupe_last CfgEmail [] ?n)" by (metis set_map)
    then obtain a where a: "a \<in> set (dedupe_last CfgEmail [] ?n)" "e = CfgEmail a" by (rule imageE)
    from dedupe_last_mem [OF a(1)] a(2) show ?thesis by auto
  qed
  then have nrm: "\<forall>a \<in> set as. norm_addr (CfgEmail a) = CfgEmail a" by simp
  have "distinct (map CfgEmail (dedupe_last CfgEmail [] ?n))" by (rule dedupe_last_distinct) simp
  then have "distinct (map CfgEmail as)" using ok by metis
  with ok nrm have "accounts_ok as" unfolding accounts_ok_def by blast
  with as show ?thesis by blast
qed

lemma check_dkim_ok:
  "check_dkim cl ks = Inr ks' \<Longrightarrow> map CfgDomain ks' = map CfgDomain ks \<and>
     (\<forall>k \<in> set ks'. CfgDomain k \<noteq> [] \<and> (\<exists>sg. ParseSigner cl (CfgKeyData k) = Inr sg))"
  by (induction ks arbitrary: ks') (auto simp: Let_def split: if_splits sum.splits)

lemma validDKIM_ok:
  assumes "validDKIM lib c = Inr c'" shows "\<exists>ks. c' = c\<lparr>DKIM := ks\<rparr> \<and> dkim_ok lib ks"
proof -
  let ?n = "map (\<lambda>k. k\<lparr>CfgDomain := norm_addr (CfgDomain k)\<rparr>) (DKIM c)"
  from assms obtain ks where ks: "check_dkim (crypto lib) (dedupe_last CfgDomain [] ?n) = Inr ks" "c' = c\<lparr>DKIM := ks\<rparr>"
    by (auto simp: validDKIM_def Let_def norm_addr_def [symmetric] split: sum.splits)
  note ok = check_dkim_ok [OF ks(1)]
  have "norm_addr e = e" if "e \<in> set (map CfgDomain ks)" for e
  proof -
    from that ok have "e \<in> CfgDomain ` set (dedupe_last CfgDomain [] ?n)" by (metis set_map)
    then obtain a where a: "a \<in> set (dedupe_last CfgDomain [] ?n)" "e = CfgDomain a" by (rule imageE)
    from dedupe_last_mem [OF a(1)] a(2) show ?thesis by auto
  qed
  then have nrm: "\<forall>a \<in> set ks. norm_addr (CfgDomain a) = CfgDomain a" by simp
  have "distinct (map CfgDomain (dedupe_last CfgDomain [] ?n))" by (rule dedupe_last_distinct) simp
  then have "distinct (map CfgDomain ks)" using ok by metis
  with ok nrm have "dkim_ok lib ks" unfolding dkim_ok_def by blast
  with ks show ?thesis by blast
qed

lemma validDelivery_ok:
  "validDelivery c = Inr c' \<Longrightarrow> c' = c \<and> 1 \<le> MaxAttempts (Delivery c) \<and> 1 \<le> Concurrency (Delivery c) \<and>
     ToLower (LogLevel c) \<in> {''debug'', ''info'', ''warn'', ''error''}"
  by (auto simp: validDelivery_def split: if_splits)

lemma seq_steps_Cons: "seq_steps (f # fs) c = Inr c' \<longleftrightarrow> (\<exists>c1. f c = Inr c1 \<and> seq_steps fs c1 = Inr c')"
  by (auto split: sum.splits)

lemma normalizeAndValidate_ok:
  assumes "normalizeAndValidate lib c = Inr c'" shows "config_ok lib c'"
proof -
  from assms obtain c1 c2 c3 c4 c5 c6 c7 where
    s: "validListen c = Inr c1" "validTLS lib c1 = Inr c2" "validLimits c2 = Inr c3" "validStorage c3 = Inr c4"
      "validAPI c4 = Inr c5" "validAccounts c5 = Inr c6" "validDKIM lib c6 = Inr c7" "validDelivery c7 = Inr c'"
    unfolding normalizeAndValidate_def seq_steps_Cons by auto
  from validListen_ok [OF s(1)] validTLS_ok [OF s(2)] validLimits_ok [OF s(3)] validStorage_ok [OF s(4)]
    validAPI_ok [OF s(5)] validAccounts_ok [OF s(6)] validDKIM_ok [OF s(7)] validDelivery_ok [OF s(8)]
  show ?thesis by (elim exE conjE) (simp add: config_ok_def)
qed

lemma Load_ok:
  assumes "Load lib env flagPath = Inr c" shows "config_ok lib c"
proof -
  have ins: "config_ok lib (d\<lparr>InsecureAuthMsg := m\<rparr>) = config_ok lib d" for d m by (simp add: config_ok_def)
  from assms obtain path where "seq_steps [read_config lib path, applyEnv lib env, defaultStorage, \<lambda>c. Inr (merge_dkim c),
      defaultHostname lib, normalizeAndValidate lib, warnInsecure] (defaults lib) = Inr c"
    unfolding Load_def by (cases "locateFile lib env flagPath") (simp_all del: seq_steps.simps)
  then obtain d d' where "normalizeAndValidate lib d = Inr d'" "warnInsecure d' = Inr c"
    unfolding seq_steps_Cons by auto
  with normalizeAndValidate_ok [of lib d d'] ins show ?thesis by (auto simp: warnInsecure_def split: if_splits)
qed


lemma demo_Load: "\<exists>c. Load demo_sys (\<lambda>k. None) [] = Inr c"
proof -
  have "SplitHostPort (normalizeListen '':587'') \<noteq> None" "ToLower ''info'' = ''info''" by code_simp+
  then show ?thesis
    by (auto simp: Load_def locateFile_def Getenv_def demo_sys_def read_config_def applyEnv_def setStr_def setInt_def
        setBool_def setDur_def setSQLitePath_def setStorageEnv_def setTLSEnv_def setAccountsEnv_def setAPIEnv_def
        setWebEnv_def applyDKIMEnv_def defaults_def merge_dkim_def normalizeAndValidate_def validListen_def validTLS_def
        validLimits_def validStorage_def validAPI_def validAccounts_def validDKIM_def validDelivery_def Let_def defaultStorage_def defaultHostname_def warnInsecure_def)
qed


text \<open>
  A \<open>storage:\<close> key without a value: the pointer is nil, and \<open>applyEnv\<close> writes through it before
  \<open>Load\<close> puts the default in its place. The program panics whatever the environment holds; the
  check for nil in \<open>Load\<close> is never reached.
\<close>

theorem applyEnv_nil_storage:
  assumes "Storage c = None" shows "\<exists>m. applyEnv lib env c = Inl (Panic m)"
  using assms by (simp add: applyEnv_def setStr_def setSQLitePath_def split: option.split)

lemma applyEnv_nil_storage_witness:
  "\<exists>m. applyEnv demo_sys (\<lambda>k. None) ((defaults demo_sys)\<lparr>Storage := None\<rparr>) = Inl (Panic m)"
  by (rule applyEnv_nil_storage) simp

text \<open>
  A DKIM selector of blanks passes the check for an empty selector, which looks at it before the
  blanks are trimmed: the validated configuration then holds a key with no selector.
\<close>

theorem check_dkim_blank_selector:
  assumes "CfgDomain k \<noteq> []" and "CfgSelector k \<noteq> []" and "TrimSpace (CfgSelector k) = []" and "CfgKeyData k \<noteq> []"
    and "ParseSigner cl (CfgKeyData k) = Inr sg"
  shows "check_dkim cl [k] = Inr [k\<lparr>CfgSelector := []\<rparr>]"
  using assms by (simp add: Let_def)

lemma check_dkim_blank_selector_witness:
  "check_dkim demo_crypto [\<lparr>CfgDomain = ''x.org'', CfgSelector = '' '', CfgKeyData = ''-----BEGINkey''\<rparr>] =
     Inr [\<lparr>CfgDomain = ''x.org'', CfgSelector = [], CfgKeyData = ''-----BEGINkey''\<rparr>]"
proof -
  have "TrimSpace '' '' = []" by code_simp
  moreover have "ParseSigner demo_crypto ''-----BEGINkey'' = Inr (Ed25519Signer ''key'')"
    by (simp add: ParseSigner_def demo_crypto_def HasPrefix_def)
  ultimately show ?thesis
    using check_dkim_blank_selector [of "\<lparr>CfgDomain = ''x.org'', CfgSelector = '' '', CfgKeyData = ''-----BEGINkey''\<rparr>" demo_crypto]
    by simp
qed

end
