(* ===== verification/Smtpd_IO.thy ===== *)
theory Smtpd_IO
  imports Go_Prelude
begin

text \<open>
  Reading from a client: \<open>readRaw\<close>, \<open>readLine\<close>, \<open>readDataLine\<close> and \<open>readData\<close> of
  \<open>internal/smtpd/session.go\<close>, over \<open>bufio.Reader.ReadSlice\<close> with its buffer of 4096 bytes.

  What the client sends is a list of bytes and read errors (a timeout, a broken connection); the end
  of the list is the end of the stream. An error is reported once and consumed, end of file again
  and again.
\<close>

datatype read_err = ErrTimeout | ErrOther | ErrEOF | LineTooLong

datatype in_item = B char | E read_err

abbreviation bytes_in :: "string \<Rightarrow> in_item list" where
  "bytes_in s \<equiv> map B s"

datatype slice_end = SliceNil | SliceFull | SliceErr read_err

text \<open>\<open>ReadSlice\<close>: up to and including the delimiter, unless \<open>room\<close> bytes come first.\<close>

primrec ReadSlice :: "in_item list \<Rightarrow> nat \<Rightarrow> (string \<times> slice_end) \<times> in_item list" where
  "ReadSlice [] room = (if room = 0 then (([], SliceFull), []) else (([], SliceErr ErrEOF), []))"
| "ReadSlice (x # inp) room =
     (if room = 0 then (([], SliceFull), x # inp)
      else case x of
          E e \<Rightarrow> (([], SliceErr e), inp)
        | B c \<Rightarrow> if c = LF then (([c], SliceNil), inp)
                 else (case ReadSlice inp (room - 1) of ((s, st), inp') \<Rightarrow> ((c # s, st), inp')))"

definition bufSize :: nat where
  "bufSize = 4096"

lemma ReadSlice_shorter:
  "ReadSlice inp room = ((s, st), inp') \<Longrightarrow> length inp' \<le> length inp"
  by (induction inp arbitrary: room s st inp')
    (fastforce split: if_splits in_item.splits prod.splits)+

lemma ReadSlice_progress:
  "ReadSlice inp room = ((s, st), inp') \<Longrightarrow> 0 < room \<Longrightarrow> st \<noteq> SliceErr ErrEOF \<Longrightarrow> length inp' < length inp"
proof (induction inp arbitrary: room s st inp')
  case (Cons x inp)
  then show ?case
    by (auto split: if_splits in_item.splits prod.splits dest: ReadSlice_shorter simp: less_Suc_eq_le)
qed simp

function readRaw_loop :: "int \<Rightarrow> string \<Rightarrow> in_item list \<Rightarrow> (read_err + string) \<times> in_item list" where
  "readRaw_loop mode buf inp =
     (case ReadSlice inp bufSize of
        ((frag, st), inp') \<Rightarrow>
          let buf' = (if mode < 0 \<or> (mode > 0 \<and> int (length buf) + int (length frag) \<le> mode) then buf @ frag else buf) in
          case st of
            SliceNil \<Rightarrow> if mode > 0 \<and> int (length buf') > mode then (Inl LineTooLong, inp') else (Inr buf', inp')
          | SliceFull \<Rightarrow> readRaw_loop mode buf' inp'
          | SliceErr e \<Rightarrow> (Inl e, inp'))"
  by pat_completeness auto
termination
  by (relation "measure (\<lambda>(m, b, inp). length inp)") (auto simp: bufSize_def dest!: ReadSlice_progress [OF sym])

declare readRaw_loop.simps [simp del]

definition readRaw :: "int \<Rightarrow> in_item list \<Rightarrow> (read_err + string) \<times> in_item list" where
  "readRaw mode inp = readRaw_loop mode [] inp"

definition maxCommandLine :: int where
  "maxCommandLine = 8192"

definition readLine :: "in_item list \<Rightarrow> (read_err + string) \<times> in_item list" where
  "readLine inp = (case readRaw maxCommandLine inp of
       (Inl err, inp') \<Rightarrow> (Inl err, inp') | (Inr line, inp') \<Rightarrow> (Inr (TrimRight line crlf), inp'))"

definition readDataLine :: "bool \<Rightarrow> in_item list \<Rightarrow> (read_err + string) \<times> in_item list" where
  "readDataLine discard inp = (case readRaw (if discard then 0 else -1) inp of
       (Inl err, inp') \<Rightarrow> (Inl err, inp') | (Inr line, inp') \<Rightarrow> (Inr (TrimRight line crlf), inp'))"

lemma readRaw_loop_shorter: "readRaw_loop mode buf inp = (r, inp') \<Longrightarrow> length inp' \<le> length inp"
proof (induction mode buf inp rule: readRaw_loop.induct)
  case (1 mode buf inp)
  obtain frag st inp1 where rs: "ReadSlice inp bufSize = ((frag, st), inp1)" by (metis surj_pair)
  note sh = ReadSlice_shorter [OF rs]
  show ?case
    using "1.prems" "1.IH" [OF rs [symmetric] refl refl] sh rs
    by (subst (asm) readRaw_loop.simps) (auto simp: Let_def split: slice_end.splits if_splits)
qed

lemma readRaw_loop_progress:
  "readRaw_loop mode buf inp = (r, inp') \<Longrightarrow> r \<noteq> Inl ErrEOF \<Longrightarrow> length inp' < length inp"
proof (induction mode buf inp rule: readRaw_loop.induct)
  case (1 mode buf inp)
  obtain frag st inp1 where rs: "ReadSlice inp bufSize = ((frag, st), inp1)" by (metis surj_pair)
  have room: "0 < bufSize" by (simp add: bufSize_def)
  note pr = ReadSlice_progress [OF rs room]
  show ?case
    using "1.prems" pr rs
    by (subst (asm) readRaw_loop.simps)
      (auto simp: Let_def split: slice_end.splits if_splits dest!: readRaw_loop_shorter)
qed

lemma readDataLine_progress: "readDataLine d inp = (Inr line, inp') \<Longrightarrow> length inp' < length inp"
  by (auto simp: readDataLine_def readRaw_def split: prod.splits sum.splits dest: readRaw_loop_progress)

lemma readLine_progress: "readLine inp = (r, inp') \<Longrightarrow> r \<noteq> Inl ErrEOF \<Longrightarrow> length inp' < length inp"
  by (auto simp: readLine_def readRaw_def split: prod.splits sum.splits dest: readRaw_loop_progress)

lemma readLine_shorter: "readLine inp = (r, inp') \<Longrightarrow> length inp' \<le> length inp"
  by (auto simp: readLine_def readRaw_def split: prod.splits sum.splits dest: readRaw_loop_shorter)

text \<open>The loop of \<open>readData\<close>: the bytes kept, the bytes counted, whether the limit was passed.\<close>

function readData_loop :: "int \<Rightarrow> string \<Rightarrow> int \<Rightarrow> bool \<Rightarrow> in_item list \<Rightarrow> (read_err + string \<times> bool) \<times> in_item list" where
  "readData_loop limit buf n over inp =
     (case readDataLine over inp of
        (Inl err, inp') \<Rightarrow> (Inl err, inp')
      | (Inr line, inp') \<Rightarrow>
          let n' = n + int (length line) + 1;
              over' = (over \<or> n' > limit)
          in if line = ''.'' then (Inr (buf, over'), inp')
             else if over' then readData_loop limit buf n' over' inp'
             else readData_loop limit (buf @ (if HasPrefix line ''.'' then drop 1 line else line) @ [LF]) n' over' inp')"
  by pat_completeness auto
termination
  by (relation "measure (\<lambda>(l, b, n, ov, inp). length inp)") (auto dest!: readDataLine_progress [OF sym])

declare readData_loop.simps [simp del]

definition readData :: "int \<Rightarrow> in_item list \<Rightarrow> (read_err + string \<times> bool) \<times> in_item list" where
  "readData limit inp = readData_loop limit [] 0 False inp"

lemma readDataLine_shorter: "readDataLine d inp = (r, inp') \<Longrightarrow> length inp' \<le> length inp"
  by (auto simp: readDataLine_def readRaw_def split: prod.splits sum.splits dest: readRaw_loop_shorter)

lemma readData_loop_shorter: "readData_loop limit buf n over inp = (r, inp') \<Longrightarrow> length inp' \<le> length inp"
proof (induction limit buf n over inp rule: readData_loop.induct)
  case (1 limit buf n over inp)
  obtain x inp1 where rl: "readDataLine over inp = (x, inp1)" by fastforce
  note sh = readDataLine_shorter [OF rl]
  show ?case
  proof (cases x)
    case (Inl e)
    then show ?thesis using "1.prems" rl sh by (subst (asm) readData_loop.simps) simp
  next
    case (Inr line)
    note IH = "1.IH" [OF rl [unfolded Inr, symmetric] refl refl refl]
    show ?thesis
      using "1.prems" IH sh rl Inr
      by (subst (asm) readData_loop.simps) (auto simp: Let_def split: if_splits)
  qed
qed

lemma readData_shorter: "readData limit inp = (r, inp') \<Longrightarrow> length inp' \<le> length inp"
  unfolding readData_def by (rule readData_loop_shorter)

end
