(* ===== verification/Smtpd_IO_Laws.thy ===== *)
theory Smtpd_IO_Laws
  imports Smtpd_IO
begin

text \<open>
  What the readers of \<open>Smtpd_IO\<close> return: a line of any length is read whole, a dot-stuffed message
  comes back as it was, and what happens beyond the limits.
\<close>

section \<open>One line\<close>

lemma ReadSlice_line:
  "LF \<notin> set s \<Longrightarrow> length s < room \<Longrightarrow> ReadSlice (bytes_in (s @ [LF]) @ rest) room = ((s @ [LF], SliceNil), rest)"
  by (induction s arbitrary: room) auto

lemma ReadSlice_full:
  "LF \<notin> set s \<Longrightarrow> room \<le> length s \<Longrightarrow>
   ReadSlice (bytes_in (s @ [LF]) @ rest) room = ((take room s, SliceFull), bytes_in (drop room s @ [LF]) @ rest)"
proof (induction s arbitrary: room)
  case Nil
  then show ?case by simp
next
  case (Cons c s)
  then show ?case by (cases room) auto
qed

lemma readRaw_accumulates:
  "LF \<notin> set s \<Longrightarrow> readRaw_loop (- 1) buf (bytes_in (s @ [LF]) @ rest) = (Inr (buf @ s @ [LF]), rest)"
proof (induction "length s" arbitrary: s buf rule: less_induct)
  case less
  show ?case
  proof (cases "length s < bufSize")
    case True
    then show ?thesis using ReadSlice_line [OF less.prems True] by (subst readRaw_loop.simps) simp
  next
    case False
    let ?d = "drop bufSize s"
    have "length ?d < length s" using False by (simp add: bufSize_def)
    moreover have "LF \<notin> set ?d" using less.prems by (meson in_set_dropD)
    ultimately have "readRaw_loop (- 1) (buf @ take bufSize s) (bytes_in (?d @ [LF]) @ rest) = (Inr (buf @ s @ [LF]), rest)"
      using less.hyps [of ?d "buf @ take bufSize s"] by (metis append.assoc append_take_drop_id)
    then show ?thesis
      using ReadSlice_full [OF less.prems, of bufSize rest] False by (subst readRaw_loop.simps) simp
  qed
qed

lemma readRaw_discards:
  "LF \<notin> set s \<Longrightarrow> readRaw_loop 0 buf (bytes_in (s @ [LF]) @ rest) = (Inr buf, rest)"
proof (induction "length s" arbitrary: s buf rule: less_induct)
  case less
  show ?case
  proof (cases "length s < bufSize")
    case True
    then show ?thesis using ReadSlice_line [OF less.prems True] by (subst readRaw_loop.simps) simp
  next
    case False
    let ?d = "drop bufSize s"
    have "length ?d < length s" using False by (simp add: bufSize_def)
    moreover have "LF \<notin> set ?d" using less.prems by (meson in_set_dropD)
    ultimately have "readRaw_loop 0 buf (bytes_in (?d @ [LF]) @ rest) = (Inr buf, rest)"
      using less.hyps [of ?d buf] by blast
    then show ?thesis
      using ReadSlice_full [OF less.prems, of bufSize rest] False by (subst readRaw_loop.simps) simp
  qed
qed

text \<open>A line without CR or LF, sent with its CR LF.\<close>

definition clean :: "string \<Rightarrow> bool" where
  "clean l \<longleftrightarrow> CR \<notin> set l \<and> LF \<notin> set l"

lemma TrimRight_crlf: "clean l \<Longrightarrow> TrimRight (l @ crlf) crlf = l"
proof -
  assume "clean l"
  then have "l = [] \<or> last l \<noteq> CR \<and> last l \<noteq> LF" unfolding clean_def by (metis last_in_set)
  then have "trim_right (\<lambda>c. c \<in> set crlf) l = l" by (intro trim_right_id) auto
  then show ?thesis unfolding TrimRight_def using trim_right_append_all [of "\<lambda>c. c \<in> set crlf" crlf l] by simp
qed

lemma readDataLine_line:
  "clean l \<Longrightarrow> readDataLine False (bytes_in (l @ crlf) @ rest) = (Inr l, rest)"
  using readRaw_accumulates [of "l @ [CR]" "[]" rest] TrimRight_crlf [of l]
  by (simp add: readDataLine_def readRaw_def clean_def)

section \<open>The message\<close>

text \<open>What a client sends for a message of these lines (RFC 5321, 4.5.2).\<close>

definition stuff :: "string \<Rightarrow> string" where
  "stuff l = (if HasPrefix l ''.'' then CHR ''.'' # l else l)"

definition send_lines :: "string list \<Rightarrow> string" where
  "send_lines ls = concat (map (\<lambda>l. stuff l @ crlf) ls)"

definition sent_size :: "string list \<Rightarrow> int" where
  "sent_size ls = sum_list (map (\<lambda>l. int (length (stuff l)) + 1) ls)"

lemma clean_stuff: "clean l \<Longrightarrow> clean (stuff l)"
  by (simp add: stuff_def clean_def)

lemma stuff_not_dot: "stuff l \<noteq> ''.''"
  by (auto simp: stuff_def HasPrefix_def)

lemma unstuff: "(if HasPrefix (stuff l) ''.'' then drop 1 (stuff l) else stuff l) = l"
  by (auto simp: stuff_def HasPrefix_def)

lemma sent_size_nonneg: "0 \<le> sent_size ls"
  by (induction ls) (simp_all add: sent_size_def)

lemma readData_loop_lines:
  "\<forall>l \<in> set ls. clean l \<Longrightarrow> n + sent_size ls + 2 \<le> limit \<Longrightarrow>
   readData_loop limit buf n False (bytes_in (send_lines ls @ ''.'' @ crlf) @ rest) =
     (Inr (buf @ concat (map (\<lambda>l. l @ [LF]) ls), False), rest)"
proof (induction ls arbitrary: buf n)
  case Nil
  have "readDataLine False (bytes_in (''.'' @ crlf) @ rest) = (Inr ''.'', rest)"
    by (rule readDataLine_line) (simp add: clean_def)
  then show ?case using Nil by (subst readData_loop.simps) (simp add: send_lines_def sent_size_def Let_def)
next
  case (Cons l ls)
  let ?rest = "bytes_in (send_lines ls @ ''.'' @ crlf) @ rest"
  have eq: "bytes_in (send_lines (l # ls) @ ''.'' @ crlf) @ rest = bytes_in (stuff l @ crlf) @ ?rest"
    by (simp add: send_lines_def)
  have rl: "readDataLine False (bytes_in (stuff l @ crlf) @ ?rest) = (Inr (stuff l), ?rest)"
    using Cons.prems(1) by (intro readDataLine_line clean_stuff) simp
  let ?n = "n + int (length (stuff l)) + 1"
  have le: "?n + sent_size ls + 2 \<le> limit" using Cons.prems(2) by (simp add: sent_size_def)
  have "readData_loop limit (buf @ l @ [LF]) ?n False ?rest =
      (Inr ((buf @ l @ [LF]) @ concat (map (\<lambda>l. l @ [LF]) ls), False), rest)"
    using Cons.prems(1) le by (intro Cons.IH) simp_all
  moreover have "\<not> ?n > limit" using le sent_size_nonneg [of ls] by linarith
  ultimately show ?case
    unfolding eq using rl stuff_not_dot [of l] unstuff [of l]
    by (subst readData_loop.simps) (simp add: Let_def del: map_append)
qed

text \<open>
  C34. Dot-stuffing round trip: a message whose lines have no bare CR or LF, sent dot-stuffed with
  CR LF line ends and the final dot, and not above the size limit, is received as exactly its lines
  with LF line ends; the reader stops right after the final dot, so that what a pipelining client
  sends next is still there. Lines may be of any length and may consist of dots.
\<close>

theorem readData_roundtrip:
  assumes "\<forall>l \<in> set ls. clean l" and "sent_size ls + 2 \<le> limit"
  shows "readData limit (bytes_in (send_lines ls @ ''.'' @ crlf) @ rest) =
    (Inr (concat (map (\<lambda>l. l @ [LF]) ls), False), rest)"
  using readData_loop_lines [OF assms(1), of 0 limit "[]" rest] assms(2) by (simp add: readData_def)

lemma readData_roundtrip_witness:
  "readData 100 (bytes_in (send_lines [''hi'', ''..x'', ''.'', []] @ ''.'' @ crlf) @ bytes_in ''QUIT'') =
    (Inr (concat (map (\<lambda>l. l @ [LF]) [''hi'', ''..x'', ''.'', []]), False), bytes_in ''QUIT'')"
  by (rule readData_roundtrip) (simp_all add: clean_def sent_size_def stuff_def HasPrefix_def)

section \<open>Beyond the limits\<close>

lemma readRaw_zero: "readRaw_loop 0 [] inp = (Inr s, inp') \<Longrightarrow> s = []"
proof (induction "0 :: int" "[] :: string" inp rule: readRaw_loop.induct)
  case (1 inp)
  obtain frag st inp1 where rs: "ReadSlice inp bufSize = ((frag, st), inp1)" by (metis surj_pair)
  show ?case
    using "1.prems" "1.hyps" [OF rs [symmetric] refl] rs
    by (subst (asm) readRaw_loop.simps) (auto simp: Let_def split: slice_end.splits)
qed

lemma discard_line: "readDataLine True inp = (Inr s, inp') \<Longrightarrow> s = []"
  by (auto simp: readDataLine_def readRaw_def TrimRight_def split: prod.splits sum.splits dest: readRaw_zero)

lemma readData_loop_over: "\<exists>e inp'. readData_loop limit buf n True inp = (Inl e, inp')"
proof (induction limit buf n "True" inp rule: readData_loop.induct)
  case (1 limit buf n inp)
  obtain x inp1 where rl: "readDataLine True inp = (x, inp1)" by fastforce
  show ?case
  proof (cases x)
    case (Inl e)
    then show ?thesis using rl by (subst readData_loop.simps) simp
  next
    case (Inr line)
    have line: "line = []" using discard_line rl Inr by blast
    have "\<exists>e inp'. readData_loop limit buf (n + 0 + 1) True inp1 = (Inl e, inp')"
      using "1.hyps"(1) [OF rl [unfolded Inr, symmetric] refl refl] line by simp
    then show ?thesis using rl Inr line by (subst readData_loop.simps) (simp add: Let_def)
  qed
qed



lemma ReadSlice_errs:
  "ReadSlice inp room = ((s, st), inp') \<Longrightarrow> set inp' \<subseteq> set inp \<and> (\<forall>e. st = SliceErr e \<longrightarrow> e = ErrEOF \<or> E e \<in> set inp)"
proof (induction inp arbitrary: room s st inp')
  case (Cons x inp)
  obtain s1 st1 inp1 where "ReadSlice inp (room - 1) = ((s1, st1), inp1)" by (metis surj_pair)
  with Cons show ?case by (fastforce split: if_splits in_item.splits)
qed (auto split: if_splits)

lemma readRaw_loop_bounded:
  "readRaw_loop mode buf inp = (r, inp') \<Longrightarrow> 0 < mode \<Longrightarrow> int (length buf) \<le> mode \<Longrightarrow> E LineTooLong \<notin> set inp \<Longrightarrow>
   r \<noteq> Inl LineTooLong \<and> (\<forall>s. r = Inr s \<longrightarrow> int (length s) \<le> mode)"
proof (induction mode buf inp rule: readRaw_loop.induct)
  case (1 mode buf inp)
  obtain frag st inp1 where rs: "ReadSlice inp bufSize = ((frag, st), inp1)" by (metis surj_pair)
  let ?buf = "if mode < 0 \<or> (mode > 0 \<and> int (length buf) + int (length frag) \<le> mode) then buf @ frag else buf"
  have len: "int (length ?buf) \<le> mode" using "1.prems"(2,3) by auto
  have inp1: "E LineTooLong \<notin> set inp1" using ReadSlice_errs [OF rs] "1.prems"(4) by blast
  note un = "1.prems"(1) [unfolded readRaw_loop.simps [of mode buf inp]]
  show ?case
  proof (cases st)
    case SliceNil
    then show ?thesis using un rs len by (auto simp: Let_def split: if_splits)
  next
    case SliceFull
    with un rs have "readRaw_loop mode ?buf inp1 = (r, inp')" by (simp add: Let_def)
    with "1.IH" [OF rs [symmetric] refl refl SliceFull] "1.prems"(2) len inp1 show ?thesis by blast
  next
    case (SliceErr e)
    then show ?thesis using un rs ReadSlice_errs [OF rs] "1.prems"(4) by (auto simp: Let_def)
  qed
qed

text \<open>
  Long command lines. \<open>readLine\<close> never returns \<open>errLineTooLong\<close>, since a fragment that would
  pass the limit is not kept in the first place: a line of any length is accepted, with whatever
  does not fit left out, and at most 8192 bytes of it are used. The reply \<open>500 Line too long\<close> is
  never sent.
\<close>

theorem readLine_never_too_long:
  assumes "E LineTooLong \<notin> set inp"
  shows "fst (readLine inp) \<noteq> Inl LineTooLong \<and> (\<forall>s. fst (readLine inp) = Inr s \<longrightarrow> length s \<le> 8192)"
proof -
  obtain r inp' where r: "readRaw_loop maxCommandLine [] inp = (r, inp')" by fastforce
  from readRaw_loop_bounded [OF r _ _ assms]
  have "r \<noteq> Inl LineTooLong" "\<forall>s. r = Inr s \<longrightarrow> int (length s) \<le> 8192" by (simp_all add: maxCommandLine_def)
  then show ?thesis
    using r length_trim_right by (auto simp: readLine_def readRaw_def TrimRight_def split: sum.split intro: order_trans)
qed

lemma readLine_never_too_long_witness:
  "fst (readLine (bytes_in (replicate 9000 CHR ''x'' @ crlf))) \<noteq> Inl LineTooLong"
proof -
  have "E LineTooLong \<notin> set (bytes_in (replicate 9000 CHR ''x'' @ crlf))" by (simp add: image_iff)
  from readLine_never_too_long [OF this] show ?thesis by blast
qed

end
