(* ===== verification/Smtpd_Session.thy ===== *)
theory Smtpd_Session
  imports Smtpd_IO Config Recorder
begin

text \<open>
  The SMTP session of \<open>internal/smtpd/session.go\<close>: one connection, from the greeting to its end, with
  every command handler.

  A session state holds the fields of \<open>smtpConn\<close>, what is still to be read from the client and what
  has been written to it (one string per line), and the parts of the world the handlers change: the
  store and the process counters. TLS handshakes and the clock come from outside: \<open>nc_hs\<close> lists the
  outcomes of the coming handshakes (with the bytes that can be read afterwards), and \<open>clock\<close> gives the
  time, the random bytes and the formatted dates of the n-th command that asks for them. Logging is
  not modelled.
\<close>

section \<open>Types\<close>

record metrics =
  AuthSuccess :: int
  AuthFailure :: int
  MessagesQueued :: int
  DeliveryAttempts :: int
  MessagesDelivered :: int
  MessagesDead :: int
  Requeued :: int

datatype net_addr = TCPAddr string bool | OtherAddr string

datatype hs_outcome = HsFail "in_item list" | HsOk "in_item list"

record tick =
  now_ns :: int
  id_stamp :: string
  id_rand :: string
  date_text :: string

abbreviation now_ms :: "tick \<Rightarrow> int" where
  "now_ms t \<equiv> now_ns t div 1000000"

record server =
  cfg :: config
  bcr :: bcrypt
  rec :: "recorder option"
  has_tls :: bool
  clock :: "nat \<Rightarrow> tick"

record session =
  remote :: net_addr
  helo :: string
  sender :: string
  rcpts :: "string list"
  user :: "account option"
  tlsOn :: bool
  nc_in :: "in_item list"
  nc_hs :: "hs_outcome list"
  nc_out :: "string list"
  db :: store
  counts :: metrics
  ticks :: nat

section \<open>Helpers\<close>

definition writeLines :: "string list \<Rightarrow> session \<Rightarrow> session" where
  "writeLines lines c = c\<lparr>nc_out := nc_out c @ lines\<rparr>"

declare writeLines_def [simp]

definition reply :: "int \<Rightarrow> string \<Rightarrow> session \<Rightarrow> session" where
  "reply code msg c = writeLines [Itoa code @ '' '' @ msg] c"

definition reset :: "bool \<Rightarrow> session \<Rightarrow> session" where
  "reset clearAuth c = (let c' = c\<lparr>sender := [], rcpts := []\<rparr> in if clearAuth then c'\<lparr>user := None\<rparr> else c')"

text \<open>\<open>time.Now()\<close>: the handlers read the clock once per command.\<close>

definition next_tick :: "server \<Rightarrow> session \<Rightarrow> tick \<times> session" where
  "next_tick srv c = (clock srv (ticks c), c\<lparr>ticks := ticks c + 1\<rparr>)"

definition read_line :: "session \<Rightarrow> (read_err + string) \<times> session" where
  "read_line c = (case readLine (nc_in c) of (r, inp) \<Rightarrow> (r, c\<lparr>nc_in := inp\<rparr>))"

definition IndexAnySpace :: "string \<Rightarrow> nat option" where
  "IndexAnySpace s = find (\<lambda>i. s ! i = CHR '' '' \<or> s ! i = TAB) [0..<length s]"

definition splitCommand :: "string \<Rightarrow> string \<times> string" where
  "splitCommand line0 =
     (let line = TrimRight (TrimLeft line0 '' '') '' '' in
      case IndexAnySpace line of
        Some i \<Rightarrow> (take i line, TrimSpace (drop (i + 1) line))
      | None \<Rightarrow> (line, []))"

definition splitEnvelope :: "string \<Rightarrow> string \<times> string" where
  "splitEnvelope s0 =
     (let s = TrimSpace s0 in
      if HasPrefix s ''<'' then
        (case IndexByte s CHR ''>'' of
           Some end' \<Rightarrow> (take (end' - 1) (drop 1 s), TrimSpace (drop (end' + 1) s))
         | None \<Rightarrow> (TrimPrefix s ''<'', []))
      else case Fields s of
          [] \<Rightarrow> ([], [])
        | f # fs \<Rightarrow> (f, TrimSpace (TrimPrefix s f)))"

fun size_fields :: "string list \<Rightarrow> int" where
  "size_fields [] = 0"
| "size_fields (f # fs) =
     (case CutPrefix f ''SIZE='' of
        None \<Rightarrow> size_fields fs
      | Some rest \<Rightarrow>
          (case ParseInt (TrimSpace rest) of
             Some n \<Rightarrow> if n \<ge> 0 then n else size_fields fs
           | None \<Rightarrow> size_fields fs))"

definition paramSize :: "string \<Rightarrow> int" where
  "paramSize params = size_fields (Fields (ToUpper params))"

definition validEnvelopeAddr :: "string \<Rightarrow> bool" where
  "validEnvelopeAddr addr = (case LastIndexByte addr CHR ''@'' of
       None \<Rightarrow> False
     | Some at \<Rightarrow> if at = 0 \<or> at = length addr - 1 then False else \<not> ContainsAny addr ('' '' @ [TAB] @ ''<>()''))"

definition remoteString :: "net_addr \<Rightarrow> string" where
  "remoteString addr = (case addr of TCPAddr ip _ \<Rightarrow> ip | OtherAddr s \<Rightarrow> s)"

definition remoteIP :: "net_addr \<Rightarrow> string" where
  "remoteIP addr = (let ipStr = remoteString addr in
     if Contains ipStr '':'' then ''['' @ ipStr @ '']'' else ipStr)"

definition isLoopback :: "net_addr \<Rightarrow> bool" where
  "isLoopback addr = (case addr of TCPAddr _ loop \<Rightarrow> loop | OtherAddr _ \<Rightarrow> False)"

definition authAllowed :: "server \<Rightarrow> session \<Rightarrow> bool" where
  "authAllowed srv c = (if \<not> RequireTLS (cfg srv) then True else if tlsOn c then True else isLoopback (remote c))"

definition tls_mode :: "server \<Rightarrow> string" where
  "tls_mode srv = (case TLS (cfg srv) of None \<Rightarrow> [] | Some t \<Rightarrow> Mode t)"

section \<open>Handlers\<close>

definition sendEhlo :: "server \<Rightarrow> session \<Rightarrow> session" where
  "sendEhlo srv c =
     (let lines = [''250-'' @ Hostname (cfg srv), ''250-PIPELINING'', ''250-8BITMIME'',
                   ''250-SIZE '' @ Itoa (MaxMessageSize (cfg srv))];
          lines = (if has_tls srv \<and> tls_mode srv = ''starttls'' \<and> \<not> tlsOn c then lines @ [''250-STARTTLS''] else lines);
          lines = (if authAllowed srv c then lines @ [''250-AUTH PLAIN LOGIN''] else lines);
          lines = butlast lines @ [''250 '' @ drop 4 (last lines)]
      in writeLines lines c)"

definition handleStartTLS :: "server \<Rightarrow> session \<Rightarrow> session" where
  "handleStartTLS srv c =
     (if \<not> has_tls srv \<or> tls_mode srv \<noteq> ''starttls'' then reply 502 ''5.5.1 STARTTLS not available'' c
      else if tlsOn c then reply 503 ''5.5.1 TLS already active'' c
      else let c1 = reply 220 ''2.0.0 Ready to start TLS'' c in
        case nc_hs c1 of
          [] \<Rightarrow> c1
        | HsFail inp # hs \<Rightarrow> c1\<lparr>nc_hs := hs, nc_in := inp\<rparr>
        | HsOk inp # hs \<Rightarrow> reset False (c1\<lparr>nc_hs := hs, nc_in := inp, tlsOn := True, helo := []\<rparr>))"

definition reply334 :: "string \<Rightarrow> session \<Rightarrow> session" where
  "reply334 prompt c = (if prompt = [] then reply 334 '' '' c else reply 334 prompt c)"

definition failAuth :: "session \<Rightarrow> session" where
  "failAuth c = reply 535 ''5.7.8 Authentication credentials invalid'' (reset False (c\<lparr>user := None\<rparr>))"

definition add_counter_now :: "tick \<Rightarrow> string \<Rightarrow> session \<Rightarrow> session" where
  "add_counter_now t nm c = c\<lparr>db := snd (AddCounter (now_ms t) nm 1 (db c))\<rparr>"

definition tryAuthenticate :: "server \<Rightarrow> string \<Rightarrow> string \<Rightarrow> session \<Rightarrow> session" where
  "tryAuthenticate srv login0 password c =
     (let login = ToLower (TrimSpace login0);
          (t, c) = next_tick srv c
      in case GetAccount login (db c) of
          (Inl err, s1) \<Rightarrow> failAuth (c\<lparr>db := s1\<rparr>)
        | (Inr acc, s1) \<Rightarrow>
            (let c = c\<lparr>db := s1\<rparr> in
             if (case acc of None \<Rightarrow> True | Some a \<Rightarrow> \<not> VerifyPassword (bcr srv) (PasswordHash a) password)
             then failAuth (add_counter_now t ''auth_failure'' (c\<lparr>counts := (counts c)\<lparr>AuthFailure := AuthFailure (counts c) + 1\<rparr>\<rparr>))
             else
               let c1 = reset False (c\<lparr>user := acc\<rparr>);
                   c2 = c1\<lparr>counts := (counts c1)\<lparr>AuthSuccess := AuthSuccess (counts c1) + 1\<rparr>\<rparr>;
                   c3 = add_counter_now t ''auth_success'' c2
               in reply 235 ''2.7.0 Authentication successful'' c3))"

text \<open>The handlers that may ask for more input return whether the connection is to be closed.\<close>

definition authPlain :: "server \<Rightarrow> string \<Rightarrow> session \<Rightarrow> bool \<times> session" where
  "authPlain srv inline c0 =
     (case (if inline = [] then read_line (reply334 [] c0) else (Inr inline, c0)) of
        (Inl err, c) \<Rightarrow> (True, c)
      | (Inr payload, c) \<Rightarrow>
          (case DecodeString (TrimSpace payload) of
             None \<Rightarrow> (False, reply 501 ''5.5.2 Invalid base64'' c)
           | Some decoded \<Rightarrow>
               (case SplitByte NUL decoded of
                  [authzID, authcID, password] \<Rightarrow>
                    if authzID \<noteq> [] \<and> authzID \<noteq> authcID
                    then (False, reply 535 ''5.7.8 authorization identity not supported'' c)
                    else (False, tryAuthenticate srv authcID password c)
                | _ \<Rightarrow> (False, reply 501 ''5.5.2 Invalid AUTH PLAIN format'' c))))"

definition authLogin :: "server \<Rightarrow> session \<Rightarrow> bool \<times> session" where
  "authLogin srv c0 =
     (case read_line (reply334 ''VXNlcm5hbWU6'' c0) of
        (Inl err, c) \<Rightarrow> (True, c)
      | (Inr line, c) \<Rightarrow>
          (case DecodeString (TrimSpace line) of
             None \<Rightarrow> (False, reply 501 ''5.5.2 Invalid base64'' c)
           | Some userB64 \<Rightarrow>
               (case read_line (reply334 ''UGFzc3dvcmQ6'' c) of
                  (Inl err, c1) \<Rightarrow> (True, c1)
                | (Inr line1, c1) \<Rightarrow>
                    (case DecodeString (TrimSpace line1) of
                       None \<Rightarrow> (False, reply 501 ''5.5.2 Invalid base64'' c1)
                     | Some passB64 \<Rightarrow> (False, tryAuthenticate srv userB64 passB64 c1)))))"

definition handleAuth :: "server \<Rightarrow> string \<Rightarrow> session \<Rightarrow> bool \<times> session" where
  "handleAuth srv arg c =
     (if user c \<noteq> None then (False, reply 503 ''5.5.1 Already authenticated'' c)
      else if \<not> authAllowed srv c then (False, reply 538 ''5.7.11 Authentication requires TLS (STARTTLS)'' c)
      else let m = ToUpper arg in
        if m = ''LOGIN'' then authLogin srv c
        else if m = ''PLAIN'' then authPlain srv [] c
        else case Fields arg of
            [f0, f1] \<Rightarrow> if EqualFold f0 ''PLAIN'' then authPlain srv f1 c
                        else (False, reply 504 ''5.5.4 Unsupported authentication mechanism'' c)
          | _ \<Rightarrow> (False, reply 504 ''5.5.4 Unsupported authentication mechanism'' c))"

definition handleMail :: "server \<Rightarrow> string \<Rightarrow> session \<Rightarrow> session" where
  "handleMail srv arg c =
     (case user c of
        None \<Rightarrow> reply 530 ''5.7.0 Authentication required'' c
      | Some u \<Rightarrow>
         if \<not> HasPrefix (ToUpper arg) ''FROM:'' then reply 501 ''5.5.4 Syntax: MAIL FROM:<address> [parameters]'' c
         else let (addr0, params) = splitEnvelope (TrimSpace (drop 5 arg));
                  addr = ToLower (TrimSpace addr0)
         in if \<not> validEnvelopeAddr addr then reply 501 (''5.1.7 Invalid sender address: '' @ addr) c
            else if \<not> AllowsFrom u addr
            then reply 553 (''5.7.1 Sender '' @ addr @ '' not allowed for account '' @ Email u) c
            else if paramSize params > 0 \<and> paramSize params > MaxMessageSize (cfg srv)
            then reply 552 (''5.3.4 Message size exceeds the limit of '' @ Itoa (MaxMessageSize (cfg srv)) @ '' bytes'') c
            else reply 250 ''2.1.0 Ok'' (c\<lparr>sender := addr, rcpts := []\<rparr>))"

definition handleRcpt :: "server \<Rightarrow> string \<Rightarrow> session \<Rightarrow> session" where
  "handleRcpt srv arg c =
     (if sender c = [] then reply 503 ''5.5.1 Need MAIL before RCPT'' c
      else if int (length (rcpts c)) \<ge> MaxRecipients (cfg srv)
      then reply 452 (''4.5.3 Limit of '' @ Itoa (MaxRecipients (cfg srv)) @ '' recipients per message reached'') c
      else if \<not> HasPrefix (ToUpper arg) ''TO:'' then reply 501 ''5.5.4 Syntax: RCPT TO:<address> [parameters]'' c
      else let (addr0, params) = splitEnvelope (TrimSpace (drop 3 arg));
               addr = ToLower (TrimSpace addr0)
      in if \<not> validEnvelopeAddr addr then reply 501 (''5.1.3 Invalid recipient address: '' @ addr) c
         else reply 250 ''2.1.5 Ok'' (c\<lparr>rcpts := rcpts c @ [addr]\<rparr>))"

definition receivedHeader :: "server \<Rightarrow> tick \<Rightarrow> string \<Rightarrow> session \<Rightarrow> string" where
  "receivedHeader srv t msgID c =
     (let h = (if helo c = [] then remoteIP (remote c) else helo c) in
      ''Received: from '' @ h @ '' by '' @ Hostname (cfg srv) @ '' with ESMTPSA id '' @ msgID @
      concat (map (\<lambda>to. crlf @ [TAB] @ ''for <'' @ to @ ''>'') (rcpts c)) @
      crlf @ [TAB] @ ''; '' @ date_text t @ crlf)"

definition handleData :: "server \<Rightarrow> session \<Rightarrow> session" where
  "handleData srv c0 =
     (if user c0 = None then reply 530 ''5.7.0 Authentication required'' c0
      else if sender c0 = [] \<or> length (rcpts c0) = 0 then reply 503 ''5.5.1 Need MAIL and RCPT before DATA'' c0
      else let c = reply 354 ''End data with <CR><LF>.<CR><LF>'' c0 in
        case readData (MaxMessageSize (cfg srv)) (nc_in c) of
          (Inl err, inp) \<Rightarrow> c\<lparr>nc_in := inp\<rparr>
        | (Inr (data, over), inp) \<Rightarrow>
            let c1 = c\<lparr>nc_in := inp\<rparr> in
            if over then reset True (reply 552 (''5.3.4 Message size exceeds fixed limit of '' @
                                          Itoa (MaxMessageSize (cfg srv)) @ '' bytes'') c1)
            else
              let (t, c2) = next_tick srv c1;
                  mid = NewID (id_stamp t) (id_rand t);
                  raw = receivedHeader srv t mid c2 @ data;
                  c3 = c2\<lparr>db := Add (rec srv) (now_ns t) mid (sender c2) (rcpts c2) raw (db c2)\<rparr>
              in case EnqueueWithID (now_ms t) mid (sender c3) (rcpts c3) raw (db c3) of
                  (Inl err, s) \<Rightarrow>
                    reset True (reply 451 ''4.3.0 Internal error while queueing; please retry'' (c3\<lparr>db := Drop (rec srv) mid s\<rparr>))
                | (Inr qid, s) \<Rightarrow>
                    let c4 = c3\<lparr>db := s, counts := (counts c3)\<lparr>MessagesQueued := MessagesQueued (counts c3) + 1\<rparr>\<rparr>;
                        c5 = add_counter_now t ''messages_queued'' c4
                    in reset True (reply 250 (''2.0.0 Ok: queued as '' @ qid) c5))"

definition handle :: "server \<Rightarrow> string \<Rightarrow> string \<Rightarrow> session \<Rightarrow> bool \<times> session" where
  "handle srv verb arg c =
     (let v = ToUpper verb in
      if v = ''HELO'' then
        (if arg = [] then (False, reply 501 ''5.5.4 HELO requires a domain'' c)
         else (False, reply 250 (Hostname (cfg srv)) (reset False (c\<lparr>helo := arg\<rparr>))))
      else if v = ''EHLO'' then
        (if arg = [] then (False, reply 501 ''5.5.4 EHLO requires a domain'' c)
         else (False, sendEhlo srv (reset False (c\<lparr>helo := arg\<rparr>))))
      else if v = ''AUTH'' then handleAuth srv arg c
      else if v = ''MAIL'' then (False, handleMail srv arg c)
      else if v = ''RCPT'' then (False, handleRcpt srv arg c)
      else if v = ''DATA'' then (False, handleData srv c)
      else if v = ''RSET'' then (False, reply 250 ''2.0.0 Ok'' (reset True c))
      else if v = ''NOOP'' then (False, reply 250 ''2.0.0 Ok'' c)
      else if v = ''VRFY'' then (False, reply 252 ''2.1.5 Cannot VRFY user, but will accept message'' c)
      else if v = ''EXPN'' then (False, reply 502 ''5.5.1 Command not implemented'' c)
      else if v = ''HELP'' then (False, reply 214 ''2.0.0 https://github.com/ (Carteiro SMTP relay)'' c)
      else if v = ''QUIT'' then (True, reply 221 ''2.0.0 Bye'' c)
      else if v = ''STARTTLS'' then (False, handleStartTLS srv c)
      else if v = ''BDAT'' then (False, reply 502 ''5.5.1 BDAT not supported, use DATA'' c)
      else (False, reply 500 (''5.5.2 Unrecognized command: '' @ verb) c))"


section \<open>What is left to read\<close>

definition hs_size :: "hs_outcome \<Rightarrow> nat" where
  "hs_size h = (case h of HsFail inp \<Rightarrow> length inp | HsOk inp \<Rightarrow> length inp)"

definition sess_size :: "session \<Rightarrow> nat" where
  "sess_size c = length (nc_in c) + sum_list (map hs_size (nc_hs c))"

lemma sess_size_upd [simp]:
  "sess_size (c\<lparr>sender := a\<rparr>) = sess_size c" "sess_size (c\<lparr>rcpts := b\<rparr>) = sess_size c" "sess_size (c\<lparr>user := u\<rparr>) = sess_size c"
  "sess_size (c\<lparr>helo := h\<rparr>) = sess_size c" "sess_size (c\<lparr>db := d\<rparr>) = sess_size c" "sess_size (c\<lparr>counts := m\<rparr>) = sess_size c"
  "sess_size (c\<lparr>ticks := n\<rparr>) = sess_size c" "sess_size (c\<lparr>nc_out := out\<rparr>) = sess_size c" "sess_size (c\<lparr>tlsOn := b2\<rparr>) = sess_size c"
  by (simp_all add: sess_size_def)

lemma sess_size_reply [simp]: "sess_size (reply code msg c) = sess_size c"
  by (simp add: reply_def)

lemma sess_size_reset [simp]: "sess_size (reset b c) = sess_size c"
  by (simp add: reset_def Let_def)

lemma sess_size_ops [simp]:
  "sess_size (reply334 p c) = sess_size c" "sess_size (failAuth c) = sess_size c" "sess_size (add_counter_now t nm c) = sess_size c"
  "sess_size (sendEhlo srv c) = sess_size c" "sess_size (handleRcpt srv arg c) = sess_size c"
  by (simp_all add: reply334_def failAuth_def add_counter_now_def sendEhlo_def handleRcpt_def Let_def split: prod.split)

lemma sess_size_mail [simp]: "sess_size (handleMail srv arg c) = sess_size c"
  by (simp add: handleMail_def Let_def split: option.split prod.split)

lemma sess_size_try [simp]: "sess_size (tryAuthenticate srv l p c) = sess_size c"
  by (simp add: tryAuthenticate_def next_tick_def Let_def split: prod.split sum.split option.split)

lemma read_line_size: "read_line c = (r, c') \<Longrightarrow> sess_size c' \<le> sess_size c"
  by (auto simp: read_line_def sess_size_def split: prod.splits dest: readLine_shorter)

lemma read_line_less: "read_line c = (r, c') \<Longrightarrow> r \<noteq> Inl ErrEOF \<Longrightarrow> sess_size c' < sess_size c"
  by (auto simp: read_line_def sess_size_def split: prod.splits dest: readLine_progress)

lemma read_line_after: "read_line (reply334 p c) = (r, c') \<Longrightarrow> sess_size c' \<le> sess_size c"
  by (drule read_line_size) simp

lemma sess_size_plain: "sess_size (snd (authPlain srv inl c)) \<le> sess_size c"
  by (auto simp: authPlain_def split: prod.split sum.split option.split list.split dest!: read_line_after)

lemma sess_size_login: "sess_size (snd (authLogin srv c)) \<le> sess_size c"
  by (auto simp: authLogin_def split: prod.split sum.split option.split dest!: read_line_after)

lemma sess_size_auth: "sess_size (snd (handleAuth srv arg c)) \<le> sess_size c"
  by (auto simp: handleAuth_def Let_def sess_size_plain sess_size_login split: list.split)

lemma sess_size_tls: "sess_size (handleStartTLS srv c) \<le> sess_size c"
  by (auto simp: handleStartTLS_def Let_def sess_size_def reply_def reset_def hs_size_def split: list.split hs_outcome.split)

lemma sess_size_nc_in: "length inp \<le> length (nc_in c) \<Longrightarrow> sess_size (c\<lparr>nc_in := inp\<rparr>) \<le> sess_size c"
  by (simp add: sess_size_def)

lemma nc_in_reply [simp]: "nc_in (reply code msg c) = nc_in c"
  by (simp add: reply_def)

lemma readData_size: "readData l (nc_in c) = (r, inp) \<Longrightarrow> sess_size (c\<lparr>nc_in := inp\<rparr>) \<le> sess_size c"
  by (drule readData_shorter) (rule sess_size_nc_in)

lemma sess_size_data: "sess_size (handleData srv c) \<le> sess_size c"
  using readData_size [of "MaxMessageSize (cfg srv)" "reply 354 ''End data with <CR><LF>.<CR><LF>'' c"]
  by (auto simp: handleData_def Let_def next_tick_def split: prod.split sum.split if_split)

lemma sess_size_handle: "sess_size (snd (handle srv verb arg c)) \<le> sess_size c"
  by (simp add: handle_def Let_def sess_size_auth sess_size_tls sess_size_data)

section \<open>The connection\<close>

text \<open>One turn of the loop of \<open>serveConn\<close>; the flag says that the connection ends.\<close>

definition serve_step :: "server \<Rightarrow> session \<Rightarrow> bool \<times> session" where
  "serve_step srv c =
     (case read_line c of
        (Inl err, c1) \<Rightarrow>
          if err = LineTooLong then (False, reply 500 ''5.5.2 Line too long'' c1)
          else if err = ErrTimeout
          then (True, reply 421 (''4.4.2 '' @ Hostname (cfg srv) @ '' Service closing transmission channel (timeout)'') c1)
          else (True, c1)
      | (Inr line, c1) \<Rightarrow>
          if line = [] then (False, c1)
          else handle srv (fst (splitCommand line)) (snd (splitCommand line)) c1)"

lemma serve_step_less:
  assumes "serve_step srv c = (False, c1)"
  shows "sess_size c1 < sess_size c"
proof -
  obtain r d where rl: "read_line c = (r, d)" by (cases "read_line c")
  have "sess_size c1 \<le> sess_size d \<and> r \<noteq> Inl ErrEOF"
    using assms rl sess_size_handle [of srv _ _ d]
    by (auto simp: serve_step_def split: sum.splits if_splits) (metis snd_conv)
  with read_line_less [OF rl] show ?thesis by simp
qed

function serve_loop :: "server \<Rightarrow> session \<Rightarrow> session" where
  "serve_loop srv c = (case serve_step srv c of (True, c1) \<Rightarrow> c1 | (False, c1) \<Rightarrow> serve_loop srv c1)"
  by pat_completeness auto
termination
  by (relation "measure (\<lambda>(srv, c). sess_size c)") (auto dest!: sym [of "(_, _)"] dest: serve_step_less)

declare serve_loop.simps [simp del]

text \<open>The handshake of implicit TLS; the flag says that the connection goes on.\<close>

definition implicit_tls :: "server \<Rightarrow> session \<Rightarrow> bool \<times> session" where
  "implicit_tls srv c =
     (if has_tls srv \<and> tls_mode srv = ''implicit'' then
        (case nc_hs c of
           HsOk inp # hs \<Rightarrow> (True, c\<lparr>nc_hs := hs, nc_in := inp, tlsOn := True\<rparr>)
         | HsFail inp # hs \<Rightarrow> (False, c\<lparr>nc_hs := hs, nc_in := inp\<rparr>)
         | [] \<Rightarrow> (False, c))
      else (True, c))"

definition greet :: "server \<Rightarrow> session \<Rightarrow> session" where
  "greet srv c = reply 220 (Hostname (cfg srv) @ '' ESMTP Carteiro'') c"

definition serveConn :: "server \<Rightarrow> session \<Rightarrow> session" where
  "serveConn srv c = (case implicit_tls srv c of (False, c1) \<Rightarrow> c1 | (True, c1) \<Rightarrow> serve_loop srv (greet srv c1))"

text \<open>A new connection over a store.\<close>

definition new_session :: "net_addr \<Rightarrow> in_item list \<Rightarrow> hs_outcome list \<Rightarrow> store \<Rightarrow> metrics \<Rightarrow> nat \<Rightarrow> session" where
  "new_session addr inp hs s m n =
     \<lparr>remote = addr, helo = [], sender = [], rcpts = [], user = None, tlsOn = False, nc_in = inp, nc_hs = hs, nc_out = [],
      db = s, counts = m, ticks = n\<rparr>"

section \<open>The server\<close>

text \<open>
  \<open>New\<close>: the server has TLS when the configuration has it, and then the key pair loads. The accept
  loop starts \<open>serveConn\<close> for each connection; connections share only the store and the counters.
\<close>

definition NewServer :: "syslib \<Rightarrow> config \<Rightarrow> bcrypt \<Rightarrow> recorder option \<Rightarrow> (nat \<Rightarrow> tick) \<Rightarrow> server res" where
  "NewServer lib c bc r clk =
     (let s = \<lparr>cfg = c, bcr = bc, rec = r, has_tls = False, clock = clk\<rparr> in
      case TLS c of
        None \<Rightarrow> Inr s
      | Some t \<Rightarrow>
          (case X509KeyPair lib (CertPEM t) (KeyPEM t) of
             Inl err \<Rightarrow> Inl (Wrapf ''loading TLS certificate: '' err)
           | Inr _ \<Rightarrow> Inr (s\<lparr>has_tls := True\<rparr>)))"

end
