(* ===== verification/Smtpd_Laws.thy ===== *)
theory Smtpd_Laws
  imports Smtpd_Session Queue_Laws
begin

text \<open>
  What a submission session guarantees. The central property is that the server is not an open relay:
  whatever bytes clients send, over any number of interleaved connections, every row a session adds to
  the queue has a sender that some account of the store may use, and recipients that passed the
  envelope checks. The other properties are the functional behaviour of authentication and of \<open>DATA\<close>.
\<close>

section \<open>What a session may do to the store\<close>

definition authorised :: "account set \<Rightarrow> config \<Rightarrow> queue_row \<Rightarrow> bool" where
  "authorised A cf r \<longleftrightarrow> (\<exists>u\<in>A. AllowsFrom u (q_sender r)) \<and> validEnvelopeAddr (q_sender r) \<and> q_to r \<noteq> [] \<and>
     int (length (q_to r)) \<le> MaxRecipients cf \<and> list_all validEnvelopeAddr (q_to r)"

definition submits :: "account set \<Rightarrow> config \<Rightarrow> store \<Rightarrow> store \<Rightarrow> bool" where
  "submits A cf s t \<longleftrightarrow> accounts t = accounts s \<and> dkim_keys t = dkim_keys s \<and>
     (\<exists>rs. queue_messages t = queue_messages s @ rs \<and> list_all (authorised A cf) rs)"

lemma submits_refl [simp]: "submits A cf s s"
  by (simp add: submits_def)

lemma submits_trans: "submits A cf s t \<Longrightarrow> submits A cf t u \<Longrightarrow> submits A cf s u"
  by (auto simp: submits_def)

lemma same_core_submits: "same_core s t \<Longrightarrow> submits A cf s t"
  by (simp add: same_core_def submits_def)

lemma submits_faults [simp]: "submits A cf s (t\<lparr>faults := fs\<rparr>) = submits A cf s t"
  by (simp add: submits_def)

lemma submits_accounts: "submits A cf s t \<Longrightarrow> accounts t = accounts s"
  by (simp add: submits_def)

lemma sql_submits:
  assumes "sql f s = (r, s1)" and "\<And>t. submits A cf t (snd (f t))"
  shows "submits A cf s s1"
  using assms(1)
proof (cases rule: sql_cases)
  case run
  have "submits A cf (s\<lparr>faults := tl (faults s)\<rparr>) s1" using assms(2) [of "s\<lparr>faults := tl (faults s)\<rparr>"] run by simp
  then show ?thesis by (simp add: submits_def)
qed simp

lemma AddCounter_submits: "submits A cf s (snd (AddCounter t nm d s))"
proof -
  have stmt: "submits A cf u (snd (conflict_clause (put_counters t) u))" "submits A cf u (snd (add_counter t nm d u))" for u
    by (simp_all add: conflict_clause_def put_counters_def add_counter_def submits_def split: option.split)
  have "submits A cf s s1" if "sql (conflict_clause (put_counters t)) s = (r, s1)" for r s1
    using that by (rule sql_submits) (rule stmt)
  moreover have "submits A cf s1 (snd (sql (add_counter t nm d) s1))" for s1
    by (rule sql_submits [of "add_counter t nm d" _ "fst (sql (add_counter t nm d) s1)"]) (simp_all add: stmt)
  ultimately show ?thesis
    by (auto simp: AddCounter_def ensureCountersRow_def split: prod.split sum.split intro: submits_trans)
qed

lemma GetAccount_state: "GetAccount l s = (r, s1) \<Longrightarrow> s1 = s\<lparr>faults := tl (faults s)\<rparr>"
  by (auto simp: GetAccount_def Let_def select_def elim!: sql_cases)

lemma GetAccount_mem: "GetAccount l s = (Inr (Some u), s1) \<Longrightarrow> u \<in> set (accounts s) \<and> Email u = norm_addr l"
  using find_Some_iff [of "\<lambda>a. Email a = norm_addr l" "accounts s" u]
  by (auto simp: GetAccount_def Let_def account_row_def norm_addr_def dest!: select_Inr sym [of "Some _"])

lemma EnqueueWithID_submits:
  assumes "EnqueueWithID t mid sd to data s = (r, s1)" and "authorised A cf (new_row t mid sd to data)"
  shows "submits A cf s s1"
proof -
  have "submits A cf u (snd (insert_queue (new_row t mid sd to data) u))" for u
    using assms(2) by (auto simp: insert_queue_def submits_def)
  then have "submits A cf s s2" if "sql (insert_queue (new_row t mid sd to data)) s = (x, s2)" for x s2
    using that by (rule sql_submits [rotated])
  then show ?thesis using assms(1)
    by (auto simp: EnqueueWithID_def submits_def wake_def split: if_splits prod.splits sum.splits) 
qed

section \<open>The session invariant\<close>

definition sess_inv :: "account set \<Rightarrow> server \<Rightarrow> session \<Rightarrow> bool" where
  "sess_inv A srv c \<longleftrightarrow>
     (\<forall>u. user c = Some u \<longrightarrow> u \<in> A \<and> authAllowed srv c) \<and>
     (rcpts c \<noteq> [] \<longrightarrow> sender c \<noteq> []) \<and>
     (sender c \<noteq> [] \<longrightarrow> validEnvelopeAddr (sender c) \<and> (\<exists>u. user c = Some u \<and> AllowsFrom u (sender c))) \<and>
     (rcpts c \<noteq> [] \<longrightarrow> int (length (rcpts c)) \<le> MaxRecipients (cfg srv)) \<and>
     list_all validEnvelopeAddr (rcpts c)"

text \<open>The fields the invariant reads; what changes none of them keeps it.\<close>

definition same_envelope :: "session \<Rightarrow> session \<Rightarrow> bool" where
  "same_envelope c d \<longleftrightarrow> user d = user c \<and> sender d = sender c \<and> rcpts d = rcpts c \<and> tlsOn d = tlsOn c \<and> remote d = remote c"

lemma same_envelope_inv: "same_envelope c d \<Longrightarrow> sess_inv A srv c \<Longrightarrow> sess_inv A srv d"
  unfolding same_envelope_def sess_inv_def authAllowed_def by force

lemma same_envelope_refl [simp]: "same_envelope c c"
  by (simp add: same_envelope_def)

text \<open>One step of a session: the invariant is kept and the store only grows by authorised rows.\<close>

definition good_step :: "account set \<Rightarrow> server \<Rightarrow> session \<Rightarrow> session \<Rightarrow> bool" where
  "good_step A srv c d \<longleftrightarrow> (sess_inv A srv c \<longrightarrow> set (accounts (db c)) \<subseteq> A \<longrightarrow>
     sess_inv A srv d \<and> submits A (cfg srv) (db c) (db d))"

lemma good_stepI: "db d = db c \<Longrightarrow> (sess_inv A srv c \<Longrightarrow> sess_inv A srv d) \<Longrightarrow> good_step A srv c d"
  by (simp add: good_step_def)

lemma good_step_envelope: "same_envelope c d \<Longrightarrow> submits A (cfg srv) (db c) (db d) \<Longrightarrow> good_step A srv c d"
  by (simp add: good_step_def same_envelope_inv)

lemma good_step_refl [simp]: "good_step A srv c c"
  by (simp add: good_step_def)

lemma good_step_trans: "good_step A srv c d \<Longrightarrow> good_step A srv d e \<Longrightarrow> good_step A srv c e"
  by (auto simp: good_step_def submits_accounts intro: submits_trans)

lemma good_reply [simp]: "good_step A srv c (reply k m d) = good_step A srv c d"
proof -
  have "sess_inv A srv (reply k m d) = sess_inv A srv d"
    by (simp add: sess_inv_def reply_def authAllowed_def)
  then show ?thesis by (simp add: good_step_def) (simp add: reply_def)
qed

lemma good_reset: "good_step A srv c (reset b c)"
  by (rule good_stepI) (auto simp: reset_def Let_def sess_inv_def authAllowed_def)

lemma good_read_line: "read_line c = (r, d) \<Longrightarrow> good_step A srv c d"
  by (rule good_stepI) (auto simp: read_line_def sess_inv_def authAllowed_def split: prod.splits)

lemma good_reply334 [simp]: "good_step A srv c (reply334 p d) = good_step A srv c d"
  by (simp add: reply334_def)

lemma good_sendEhlo: "good_step A srv c (sendEhlo srv c)"
  by (rule good_step_envelope) (simp_all add: sendEhlo_def same_envelope_def Let_def)

lemma good_helo: "good_step A srv c (c\<lparr>helo := h\<rparr>)"
  by (rule good_step_envelope) (simp_all add: same_envelope_def)

lemma good_startTLS: "good_step A srv c (handleStartTLS srv c)"
proof -
  have tls: "good_step A srv d (reset False (d\<lparr>nc_hs := hs, nc_in := inp, tlsOn := True, helo := []\<rparr>))" for d hs inp
    by (rule good_stepI) (auto simp: reset_def sess_inv_def authAllowed_def)
  have fail: "good_step A srv d (d\<lparr>nc_hs := hs, nc_in := inp\<rparr>)" for d hs inp
    by (rule good_step_envelope) (simp_all add: same_envelope_def)
  have ready: "good_step A srv c (reply 220 m c)" for m by simp
  show ?thesis using good_step_trans [OF ready tls] good_step_trans [OF ready fail]
    by (simp add: handleStartTLS_def Let_def split: list.split hs_outcome.split)
qed

lemma good_add_counter: "good_step A srv c (add_counter_now t nm c)"
  by (rule good_step_envelope) (simp_all add: add_counter_now_def same_envelope_def AddCounter_submits)

lemma good_counts: "good_step A srv c (c\<lparr>counts := m\<rparr>)"
  by (rule good_step_envelope) (simp_all add: same_envelope_def)

lemma good_failAuth: "good_step A srv c (failAuth c)"
  unfolding failAuth_def good_reply
  by (rule good_stepI) (auto simp: reset_def sess_inv_def authAllowed_def)

text \<open>The state in which the outcome of an account lookup is handled.\<close>

definition looked_up :: "session \<Rightarrow> session" where
  "looked_up c = c\<lparr>ticks := ticks c + 1, db := (db c)\<lparr>faults := tl (faults (db c))\<rparr>\<rparr>"

lemma looked_up_simps [simp]:
  "user (looked_up c) = user c" "sender (looked_up c) = sender c" "rcpts (looked_up c) = rcpts c" "counts (looked_up c) = counts c"
  "nc_out (looked_up c) = nc_out c" "nc_in (looked_up c) = nc_in c" "tlsOn (looked_up c) = tlsOn c" "remote (looked_up c) = remote c"
  "db (looked_up c) = (db c)\<lparr>faults := tl (faults (db c))\<rparr>"
  by (simp_all add: looked_up_def)

definition auth_ok :: "tick \<Rightarrow> account \<Rightarrow> session \<Rightarrow> session" where
  "auth_ok t u c = reply 235 ''2.7.0 Authentication successful'' (add_counter_now t ''auth_success''
     ((reset False (c\<lparr>user := Some u\<rparr>))\<lparr>counts := (counts c)\<lparr>AuthSuccess := AuthSuccess (counts c) + 1\<rparr>\<rparr>))"

definition auth_bad :: "tick \<Rightarrow> session \<Rightarrow> session" where
  "auth_bad t c = failAuth (add_counter_now t ''auth_failure'' (c\<lparr>counts := (counts c)\<lparr>AuthFailure := AuthFailure (counts c) + 1\<rparr>\<rparr>))"

lemma counts_reset [simp]: "counts (reset b c) = counts c"
  by (simp add: reset_def Let_def)

lemma tryAuthenticate_eq:
  "tryAuthenticate srv l p c =
     (case fst (GetAccount l (db c)) of
        Inl e \<Rightarrow> failAuth (looked_up c)
      | Inr None \<Rightarrow> auth_bad (clock srv (ticks c)) (looked_up c)
      | Inr (Some u) \<Rightarrow> if VerifyPassword (bcr srv) (PasswordHash u) p then auth_ok (clock srv (ticks c)) u (looked_up c)
                       else auth_bad (clock srv (ticks c)) (looked_up c))"
proof -
  have norm: "GetAccount (ToLower (TrimSpace l)) s = GetAccount l s" for s
    using norm_addr_idem [of l] by (simp add: GetAccount_def norm_addr_def)
  obtain r s1 where g: "GetAccount l (db c) = (r, s1)" by (cases "GetAccount l (db c)") auto
  then have s1: "s1 = (db c)\<lparr>faults := tl (faults (db c))\<rparr>" by (rule GetAccount_state)
  show ?thesis
    by (simp add: tryAuthenticate_def norm next_tick_def g s1 looked_up_def auth_ok_def auth_bad_def Let_def
        split: sum.split option.split)
qed

lemma good_looked_up: "good_step A srv c (looked_up c)"
  by (rule good_step_envelope) (simp_all add: looked_up_def same_envelope_def)

lemma good_auth_bad: "good_step A srv c (auth_bad t c)"
  unfolding auth_bad_def by (rule good_step_trans [OF good_step_trans [OF good_counts good_add_counter] good_failAuth])

lemma authAllowed_simps [simp]: "authAllowed srv (looked_up c) = authAllowed srv c" "authAllowed srv (reply k m c) = authAllowed srv c"
  by (simp_all add: authAllowed_def reply_def)

lemma authAllowed_read_line: "read_line c = (r, d) \<Longrightarrow> authAllowed srv d = authAllowed srv c"
  by (auto simp: read_line_def authAllowed_def split: prod.splits)

lemma good_auth_ok:
  assumes "authAllowed srv c" and "u \<in> set (accounts (db c))"
  shows "good_step A srv c (auth_ok t u c)"
proof -
  have set: "good_step A srv c ((reset False (c\<lparr>user := Some u\<rparr>))\<lparr>counts := m\<rparr>)" for m
    using assms by (auto simp: good_step_def reset_def sess_inv_def authAllowed_def)
  show ?thesis unfolding auth_ok_def good_reply by (rule good_step_trans [OF set good_add_counter])
qed

lemma good_try:
  assumes "authAllowed srv c"
  shows "good_step A srv c (tryAuthenticate srv l p c)"
proof -
  have ok: "good_step A srv c (auth_ok t u (looked_up c))" if g: "fst (GetAccount l (db c)) = Inr (Some u)" for t u
  proof -
    obtain s1 where "GetAccount l (db c) = (Inr (Some u), s1)" using g by (cases "GetAccount l (db c)") auto
    then have "u \<in> set (accounts (db c))" by (simp add: GetAccount_mem)
    then show ?thesis using assms by (intro good_step_trans [OF good_looked_up good_auth_ok]) simp_all
  qed
  show ?thesis using ok good_step_trans [OF good_looked_up good_auth_bad] good_step_trans [OF good_looked_up good_failAuth]
    by (simp add: tryAuthenticate_eq split: sum.split option.split)
qed

lemma authAllowed_reply334 [simp]: "authAllowed srv (reply334 p c) = authAllowed srv c"
  by (simp add: reply334_def)

text \<open>A line asked for after a 334 prompt.\<close>

lemma good_prompt:
  assumes "read_line (reply334 p c) = (r, d)"
  shows "good_step A srv c d" "authAllowed srv d = authAllowed srv c"
  using good_step_trans [of A srv c "reply334 p c" d] good_read_line [OF assms, of A srv] authAllowed_read_line [OF assms, of srv]
  by simp_all

lemma good_prompt_try:
  "read_line (reply334 p c) = (r, d) \<Longrightarrow> authAllowed srv c \<Longrightarrow> good_step A srv c (tryAuthenticate srv l pw d)"
  by (rule good_step_trans [OF good_prompt(1) good_try]) (simp_all add: good_prompt(2))

lemma good_plain:
  assumes "authAllowed srv c"
  shows "good_step A srv c (snd (authPlain srv inl c))"
proof -
  obtain r d where rl: "read_line (reply334 [] c) = (r, d)" by (cases "read_line (reply334 [] c)")
  show ?thesis
    using good_prompt(1) [OF rl] good_prompt_try [OF rl assms] good_try [OF assms]
    by (simp add: authPlain_def rl split: sum.split option.split list.split)
qed

lemma good_login:
  assumes "authAllowed srv c"
  shows "good_step A srv c (snd (authLogin srv c))"
proof -
  obtain r d where rl: "read_line (reply334 ''VXNlcm5hbWU6'' c) = (r, d)" by (cases "read_line (reply334 ''VXNlcm5hbWU6'' c)")
  obtain r' e where rl': "read_line (reply334 ''UGFzc3dvcmQ6'' d) = (r', e)" by (cases "read_line (reply334 ''UGFzc3dvcmQ6'' d)")
  have d: "good_step A srv c d" "authAllowed srv d" using good_prompt [OF rl] assms by simp_all
  show ?thesis
    using d good_step_trans [OF d(1) good_prompt(1) [OF rl']] good_step_trans [OF d(1) good_prompt_try [OF rl' d(2)]]
    by (simp add: authLogin_def rl rl' split: sum.split option.split)
qed

lemma good_auth: "good_step A srv c (snd (handleAuth srv arg c))"
  by (simp add: handleAuth_def Let_def good_plain good_login split: list.split)

lemma good_mail: "good_step A srv c (handleMail srv arg c)"
proof -
  have set: "good_step A srv c (c\<lparr>sender := a, rcpts := []\<rparr>)" if "user c = Some u" "validEnvelopeAddr a" "AllowsFrom u a" for u a
    using that by (intro good_stepI) (auto simp: sess_inv_def authAllowed_def)
  show ?thesis
    by (simp add: handleMail_def Let_def set split: option.split prod.split)
qed

lemma good_rcpt: "good_step A srv c (handleRcpt srv arg c)"
proof -
  have set: "good_step A srv c (c\<lparr>rcpts := rcpts c @ [a]\<rparr>)"
    if "sender c \<noteq> []" "int (length (rcpts c)) < MaxRecipients (cfg srv)" "validEnvelopeAddr a" for a
    using that by (intro good_stepI) (auto simp: sess_inv_def authAllowed_def)
  show ?thesis
    by (simp add: handleRcpt_def Let_def set not_le split: prod.split)
qed

section \<open>DATA\<close>

text \<open>The identifier, the stored text and the state once the message has been read, and the two ways \<open>DATA\<close> ends.\<close>

definition data_id :: "server \<Rightarrow> session \<Rightarrow> string" where
  "data_id srv c = NewID (id_stamp (clock srv (ticks c))) (id_rand (clock srv (ticks c)))"

definition data_raw :: "server \<Rightarrow> session \<Rightarrow> string \<Rightarrow> string" where
  "data_raw srv c data = receivedHeader srv (clock srv (ticks c)) (data_id srv c) c @ data"

definition data_recorded :: "server \<Rightarrow> session \<Rightarrow> string \<Rightarrow> session" where
  "data_recorded srv c data = c\<lparr>ticks := ticks c + 1,
     db := Add (rec srv) (now_ns (clock srv (ticks c))) (data_id srv c) (sender c) (rcpts c) (data_raw srv c data) (db c)\<rparr>"

definition data_queued :: "server \<Rightarrow> session \<Rightarrow> string \<Rightarrow> (string res \<times> store)" where
  "data_queued srv c data = EnqueueWithID (now_ms (clock srv (ticks c))) (data_id srv c) (sender c) (rcpts c) (data_raw srv c data)
     (db (data_recorded srv c data))"

definition data_ok :: "tick \<Rightarrow> string \<Rightarrow> session \<Rightarrow> session" where
  "data_ok t qid c = reset True (reply 250 (''2.0.0 Ok: queued as '' @ qid) (add_counter_now t ''messages_queued''
     (c\<lparr>counts := (counts c)\<lparr>MessagesQueued := MessagesQueued (counts c) + 1\<rparr>\<rparr>)))"

definition data_failed :: "session \<Rightarrow> session" where
  "data_failed c = reset True (reply 451 ''4.3.0 Internal error while queueing; please retry'' c)"

definition data_over :: "server \<Rightarrow> session \<Rightarrow> session" where
  "data_over srv c = reset True (reply 552 (''5.3.4 Message size exceeds fixed limit of '' @
     Itoa (MaxMessageSize (cfg srv)) @ '' bytes'') c)"

lemma receivedHeader_ticks [simp]: "receivedHeader srv t i (c\<lparr>ticks := n\<rparr>) = receivedHeader srv t i c"
  by (simp add: receivedHeader_def)

lemma handleData_eq:
  assumes "user c \<noteq> None" "sender c \<noteq> []" "rcpts c \<noteq> []"
    and "c1 = (reply 354 ''End data with <CR><LF>.<CR><LF>'' c)\<lparr>nc_in := inp\<rparr>"
    and "readData (MaxMessageSize (cfg srv)) (nc_in c) = (r, inp)"
  shows "handleData srv c =
     (case r of
        Inl e \<Rightarrow> c1
      | Inr (data, over) \<Rightarrow>
          if over then data_over srv c1
          else case data_queued srv c1 data of
              (Inl e, s) \<Rightarrow> data_failed ((data_recorded srv c1 data)\<lparr>db := Drop (rec srv) (data_id srv c1) s\<rparr>)
            | (Inr qid, s) \<Rightarrow> data_ok (clock srv (ticks c1)) qid ((data_recorded srv c1 data)\<lparr>db := s\<rparr>))"
proof (cases r)
  case (Inl e)
  then show ?thesis using assms by (auto simp: handleData_def Let_def)
next
  case (Inr x)
  obtain data over where x: "x = (data, over)" by (cases x)
  obtain q s where q: "data_queued srv c1 data = (q, s)" by (cases "data_queued srv c1 data")
  have q': "EnqueueWithID (now_ms (clock srv (ticks c1))) (data_id srv c1) (sender c1) (rcpts c1) (data_raw srv c1 data)
     (db (data_recorded srv c1 data)) = (q, s)"
    using q by (simp only: data_queued_def)
  note rd = assms(5) [folded nc_in_reply [of 354 "''End data with <CR><LF>.<CR><LF>''" c]]
  have split: "handleData srv c = (if over then data_over srv c1 else
     (case EnqueueWithID (now_ms (clock srv (ticks c1))) (data_id srv c1) (sender c1) (rcpts c1) (data_raw srv c1 data)
        (db (data_recorded srv c1 data)) of
       (Inl e, s) \<Rightarrow> data_failed ((data_recorded srv c1 data)\<lparr>db := Drop (rec srv) (data_id srv c1) s\<rparr>)
     | (Inr qid, s) \<Rightarrow> data_ok (clock srv (ticks c1)) qid ((data_recorded srv c1 data)\<lparr>db := s\<rparr>)))"
    using assms(1-3) rd Inr x unfolding assms(4)
    by (simp del: not_None_eq add: handleData_def Let_def next_tick_def data_over_def data_recorded_def data_raw_def data_id_def
        data_failed_def data_ok_def cong: sum.case_cong prod.case_cong)
  show ?thesis by (simp add: split q' q Inr x)
qed

lemma good_data_ok: "good_step A srv c (data_ok t q c)"
  unfolding data_ok_def
  by (rule good_step_trans [OF _ good_reset]) (simp add: good_step_trans [OF good_counts good_add_counter])

lemma good_data_failed: "good_step A srv c (data_failed c)"
  unfolding data_failed_def by (rule good_step_trans [OF _ good_reset]) simp

lemma good_data_over: "good_step A srv c (data_over srv c)"
  unfolding data_over_def by (rule good_step_trans [OF _ good_reset]) simp

lemma data_recorded_simps [simp]:
  "user (data_recorded srv c d) = user c" "sender (data_recorded srv c d) = sender c" "rcpts (data_recorded srv c d) = rcpts c"
  "tlsOn (data_recorded srv c d) = tlsOn c" "remote (data_recorded srv c d) = remote c" "counts (data_recorded srv c d) = counts c"
  "nc_out (data_recorded srv c d) = nc_out c" "nc_in (data_recorded srv c d) = nc_in c"
  by (simp_all add: data_recorded_def)

lemma data_recorded_core: "same_core (db c) (db (data_recorded srv c d))"
  by (simp add: data_recorded_def recorder_same_core)

lemma sess_inv_authorised:
  assumes "sess_inv A srv c" "user c \<noteq> None" "sender c \<noteq> []" "rcpts c \<noteq> []"
  shows "authorised A (cfg srv) (new_row t i (sender c) (rcpts c) raw)"
  using assms by (auto simp: sess_inv_def authorised_def new_row_def)

lemma good_enqueue:
  assumes "user c \<noteq> None" "sender c \<noteq> []" "rcpts c \<noteq> []" and "data_queued srv c data = (r, s)"
  shows "sess_inv A srv c \<Longrightarrow> submits A (cfg srv) (db c) s"
  using assms sess_inv_authorised [OF _ assms(1-3)] data_recorded_core [of c srv data]
  by (auto simp: data_queued_def intro: submits_trans [OF same_core_submits EnqueueWithID_submits])

lemma reply_fields [simp]:
  "user (reply k m c) = user c" "sender (reply k m c) = sender c" "rcpts (reply k m c) = rcpts c" "db (reply k m c) = db c"
  "ticks (reply k m c) = ticks c" "counts (reply k m c) = counts c" "tlsOn (reply k m c) = tlsOn c" "remote (reply k m c) = remote c"
  "helo (reply k m c) = helo c" "nc_out (reply k m c) = nc_out c @ [Itoa k @ '' '' @ m]"
  by (simp_all add: reply_def)

lemma good_recorded_db:
  assumes "user c \<noteq> None" "sender c \<noteq> []" "rcpts c \<noteq> []" and "data_queued srv c data = (r, s)" and "same_core s s'"
  shows "good_step A srv c ((data_recorded srv c data)\<lparr>db := s'\<rparr>)"
proof -
  have "same_envelope c ((data_recorded srv c data)\<lparr>db := s'\<rparr>)" by (simp add: same_envelope_def)
  then show ?thesis
    using submits_trans [OF good_enqueue [OF assms(1-4), of A] same_core_submits [OF assms(5)]]
    by (simp add: good_step_def same_envelope_inv)
qed

lemma good_data: "good_step A srv c (handleData srv c)"
proof (cases "user c = None \<or> sender c = [] \<or> rcpts c = []")
  case True
  then show ?thesis by (auto simp: handleData_def)
next
  case False
  obtain r inp where rd: "readData (MaxMessageSize (cfg srv)) (nc_in c) = (r, inp)"
    by (cases "readData (MaxMessageSize (cfg srv)) (nc_in c)")
  let ?c = "(reply 354 ''End data with <CR><LF>.<CR><LF>'' c)\<lparr>nc_in := inp\<rparr>"
  have read: "good_step A srv c ?c"
    by (rule good_step_envelope) (simp_all add: same_envelope_def)
  have env: "user ?c \<noteq> None" "sender ?c \<noteq> []" "rcpts ?c \<noteq> []" using False by simp_all
  have failed: "good_step A srv ?c (data_failed ((data_recorded srv ?c data)\<lparr>db := Drop (rec srv) (data_id srv ?c) s\<rparr>))"
    if "data_queued srv ?c data = (e, s)" for data e s
    by (rule good_step_trans [OF good_recorded_db [OF env that recorder_same_core(6)] good_data_failed])
  have ok: "good_step A srv ?c (data_ok t q ((data_recorded srv ?c data)\<lparr>db := s\<rparr>))"
    if "data_queued srv ?c data = (e, s)" for data e s t q
    by (rule good_step_trans [OF good_recorded_db [OF env that same_core_refl] good_data_ok])
  note eq = handleData_eq [of c ?c inp srv r, OF _ _ _ refl rd]
  have "good_step A srv ?c (handleData srv c)"
    using False failed ok good_data_over [of A srv ?c] by (simp add: eq split: sum.split prod.split)
  with read show ?thesis by (rule good_step_trans)
qed

lemma good_handle: "good_step A srv c (snd (handle srv verb arg c))"
  using good_step_trans [OF good_helo good_reset] good_step_trans [OF good_step_trans [OF good_helo good_reset] good_sendEhlo]
  by (simp add: handle_def Let_def good_auth good_mail good_rcpt good_data good_startTLS good_reset)

lemma good_handle': "handle srv verb arg c = (b, d) \<Longrightarrow> good_step A srv c d"
  using good_handle [of A srv c verb arg] by simp

lemma good_serve_step: "serve_step srv c = (b, d) \<Longrightarrow> good_step A srv c d"
proof -
  assume st: "serve_step srv c = (b, d)"
  obtain r e where rl: "read_line c = (r, e)" by (cases "read_line c")
  have e: "good_step A srv c e" using rl by (rule good_read_line)
  show ?thesis using st rl e
    by (auto simp: serve_step_def split: sum.splits if_splits intro: good_step_trans dest!: good_handle' [where A = A])
qed

lemma good_serve: "good_step A srv c (serve_loop srv c)"
proof (induction srv c rule: serve_loop.induct)
  case (1 srv c)
  obtain b d where st: "serve_step srv c = (b, d)" by (cases "serve_step srv c")
  have d: "good_step A srv c d" using st by (rule good_serve_step)
  show ?case using d st 1 [OF st [symmetric]] by (cases b) (auto simp: serve_loop.simps [of srv c] intro: good_step_trans)
qed

lemma good_implicit_tls: "implicit_tls srv c = (b, d) \<Longrightarrow> good_step A srv c d"
proof -
  have tls: "good_step A srv c (c\<lparr>nc_hs := hs, nc_in := inp, tlsOn := True\<rparr>)" for hs inp
    by (rule good_stepI) (auto simp: sess_inv_def authAllowed_def)
  have fail: "good_step A srv c (c\<lparr>nc_hs := hs, nc_in := inp\<rparr>)" for hs inp
    by (rule good_step_envelope) (simp_all add: same_envelope_def)
  assume "implicit_tls srv c = (b, d)"
  then show ?thesis using tls fail
    by (auto simp: implicit_tls_def split: if_splits list.splits hs_outcome.splits)
qed

lemma good_greet: "good_step A srv c (greet srv c)"
  by (simp add: greet_def)

lemma good_serveConn: "good_step A srv c (serveConn srv c)"
proof -
  obtain b d where tls: "implicit_tls srv c = (b, d)" by (cases "implicit_tls srv c")
  have d: "good_step A srv c d" using tls by (rule good_implicit_tls)
  show ?thesis using d tls good_step_trans [OF d good_step_trans [OF good_greet good_serve]]
    by (simp add: serveConn_def split: bool.split)
qed

lemma sess_inv_new: "sess_inv A srv (new_session addr inp hs s m n)"
  by (simp add: sess_inv_def new_session_def)

section \<open>No open relay\<close>

text \<open>
  C12. The server is no open relay. Whatever a client sends on a connection, whatever its handshakes
  do and whichever statements fail, the queue afterwards is the queue before with rows appended, and each
  appended row has a sender that an account of the store may use, between one and \<open>max_recipients\<close>
  recipients, and only addresses that pass the envelope check. The accounts and the DKIM keys are
  unchanged.
\<close>

theorem serveConn_no_open_relay:
  "\<exists>rs. queue_messages (db (serveConn srv (new_session addr inp hs s m n))) = queue_messages s @ rs \<and>
     list_all (authorised (set (accounts s)) (cfg srv)) rs \<and>
     accounts (db (serveConn srv (new_session addr inp hs s m n))) = accounts s \<and>
     dkim_keys (db (serveConn srv (new_session addr inp hs s m n))) = dkim_keys s"
proof -
  let ?c = "new_session addr inp hs s m n"
  have "db ?c = s" by (simp add: new_session_def)
  then have "submits (set (accounts s)) (cfg srv) s (db (serveConn srv ?c))"
    using good_serveConn [of "set (accounts s)" srv ?c] by (simp add: good_step_def sess_inv_new)
  then show ?thesis by (auto simp: submits_def)
qed

section \<open>Connections side by side\<close>

text \<open>
  The accept loop runs a goroutine per connection; they share the store, the counters and the clock.
  A world is the connections being served and what they share. Its steps are: a connection is accepted;
  a connection takes one turn of its loop over the shared state; and anything else that works on the
  store (the deliverer, the panel, other processes) acts, changing accounts within a set \<open>A\<close> and rows of
  the queue only by removing recipients or whole rows.
\<close>

record world =
  conns :: "session list"
  w_db :: store
  w_counts :: metrics
  w_ticks :: nat

definition attach :: "world \<Rightarrow> session \<Rightarrow> session" where
  "attach w c = c\<lparr>db := w_db w, counts := w_counts w, ticks := w_ticks w\<rparr>"

definition detach :: "world \<Rightarrow> nat \<Rightarrow> session \<Rightarrow> world" where
  "detach w i c = w\<lparr>conns := (conns w)[i := c], w_db := db c, w_counts := counts c, w_ticks := ticks c\<rparr>"

definition narrows :: "account set \<Rightarrow> store \<Rightarrow> store \<Rightarrow> bool" where
  "narrows A s t \<longleftrightarrow> set (accounts t) \<subseteq> A \<and>
     (\<forall>r\<in>set (queue_messages t). \<exists>r0\<in>set (queue_messages s).
        q_sender r = q_sender r0 \<and> q_to r \<noteq> [] \<and> set (q_to r) \<subseteq> set (q_to r0) \<and> length (q_to r) \<le> length (q_to r0))"

inductive world_step :: "account set \<Rightarrow> server \<Rightarrow> world \<Rightarrow> world \<Rightarrow> bool" for A srv where
  ws_accept: "implicit_tls srv (attach w (new_session addr inp hs s m n)) = (True, c) \<Longrightarrow>
     world_step A srv w (w\<lparr>conns := conns w @ [greet srv c]\<rparr>)"
| ws_command: "i < length (conns w) \<Longrightarrow> serve_step srv (attach w (conns w ! i)) = (False, c) \<Longrightarrow>
     world_step A srv w (detach w i c)"
| ws_close: "i < length (conns w) \<Longrightarrow> serve_step srv (attach w (conns w ! i)) = (True, c) \<Longrightarrow>
     world_step A srv w ((detach w i c)\<lparr>conns := take i (conns w) @ drop (Suc i) (conns w)\<rparr>)"
| ws_other: "narrows A (w_db w) s \<Longrightarrow> world_step A srv w (w\<lparr>w_db := s\<rparr>)"

text \<open>What holds of a world whose rows satisfy a policy \<open>P\<close>; the policy of submission is \<open>authorised\<close>.\<close>

definition world_ok :: "account set \<Rightarrow> server \<Rightarrow> (queue_row \<Rightarrow> bool) \<Rightarrow> world \<Rightarrow> bool" where
  "world_ok A srv P w \<longleftrightarrow> list_all (sess_inv A srv) (conns w) \<and> set (accounts (w_db w)) \<subseteq> A \<and> list_all P (queue_messages (w_db w))"

abbreviation world_inv :: "account set \<Rightarrow> server \<Rightarrow> world \<Rightarrow> bool" where
  "world_inv A srv \<equiv> world_ok A srv (authorised A (cfg srv))"

text \<open>The server starts with no connection, over a queue that is empty or holds what earlier runs accepted.\<close>

definition fresh_world :: "account set \<Rightarrow> server \<Rightarrow> world \<Rightarrow> bool" where
  "fresh_world A srv w \<longleftrightarrow> conns w = [] \<and> list_all (authorised A (cfg srv)) (queue_messages (w_db w)) \<and>
     set (accounts (w_db w)) \<subseteq> A"

lemma attach_inv [simp]: "sess_inv A srv (attach w c) = sess_inv A srv c"
  by (simp add: sess_inv_def attach_def authAllowed_def)

lemma attach_db [simp]: "db (attach w c) = w_db w"
  by (simp add: attach_def)

lemma list_all_update: "list_all P xs \<Longrightarrow> P x \<Longrightarrow> list_all P (xs[i := x])"
  using set_update_subset_insert [of xs i x] by (auto simp: list_all_iff)

lemma list_all_remove: "list_all P xs \<Longrightarrow> list_all P (take i xs @ drop (Suc i) xs)"
  by (auto simp: list_all_iff dest: in_set_takeD in_set_dropD)

text \<open>
  The law of a policy on rows: a row with the sender of an allowed row and fewer of its recipients, but
  some, is allowed. Whatever only narrows rows keeps such a policy.
\<close>

locale row_policy =
  fixes P :: "queue_row \<Rightarrow> bool"
  assumes some_rcpt: "P r \<Longrightarrow> q_to r \<noteq> []"
    and narrow: "P r0 \<Longrightarrow> q_sender r = q_sender r0 \<Longrightarrow> q_to r \<noteq> [] \<Longrightarrow> set (q_to r) \<subseteq> set (q_to r0) \<Longrightarrow>
      length (q_to r) \<le> length (q_to r0) \<Longrightarrow> P r"
begin

lemma same_envelope: "P r0 \<Longrightarrow> q_sender r = q_sender r0 \<Longrightarrow> q_to r = q_to r0 \<Longrightarrow> P r"
  using narrow [of r0 r] some_rcpt [of r0] by simp

lemma narrows_rows:
  assumes "narrows A s t" and "list_all P (queue_messages s)"
  shows "list_all P (queue_messages t)"
  unfolding list_all_iff
proof
  fix r assume "r \<in> set (queue_messages t)"
  then obtain r0 where "r0 \<in> set (queue_messages s)" "q_sender r = q_sender r0" "q_to r \<noteq> []"
      "set (q_to r) \<subseteq> set (q_to r0)" "length (q_to r) \<le> length (q_to r0)"
    using assms(1) unfolding narrows_def by blast
  then show "P r" using assms(2) narrow [of r0 r] by (auto simp: list_all_iff)
qed

end

locale submission_policy = row_policy P for P +
  fixes A :: "account set" and srv :: server
  assumes submitted: "authorised A (cfg srv) r \<Longrightarrow> P r"
begin

lemma turn_ok:
  assumes "world_ok A srv P w" and "i < length (conns w)" and "serve_step srv (attach w (conns w ! i)) = (b, c)"
  shows "sess_inv A srv c \<and> set (accounts (db c)) \<subseteq> A \<and> list_all P (queue_messages (db c))"
proof -
  have "sess_inv A srv (conns w ! i)" using assms(1,2) by (auto simp: world_ok_def list_all_iff)
  then have "sess_inv A srv c \<and> submits A (cfg srv) (w_db w) (db c)"
    using good_serve_step [OF assms(3), of A] assms(1) by (simp add: good_step_def world_ok_def)
  then show ?thesis using assms(1) submitted by (auto simp: world_ok_def submits_def list_all_iff)
qed

lemma step_ok: "world_step A srv w w' \<Longrightarrow> world_ok A srv P w \<Longrightarrow> world_ok A srv P w'"
proof (induction rule: world_step.induct)
  case (ws_accept w addr inp hs s m n c)
  have "sess_inv A srv (attach w (new_session addr inp hs s m n))" by (simp add: sess_inv_new)
  moreover have "set (accounts (w_db w)) \<subseteq> A" using ws_accept(2) by (simp add: world_ok_def)
  ultimately have "sess_inv A srv (greet srv c)"
    using good_step_trans [OF good_implicit_tls [OF ws_accept(1), of A] good_greet] by (simp add: good_step_def)
  with ws_accept(2) show ?case by (simp add: world_ok_def)
next
  case (ws_command i w c)
  with turn_ok [of w i False c] show ?case by (simp add: world_ok_def detach_def list_all_update)
next
  case (ws_close i w c)
  with turn_ok [of w i True c] show ?case
    by (auto simp: world_ok_def detach_def list_all_iff dest: in_set_takeD in_set_dropD)
next
  case (ws_other w s)
  with narrows_rows [of A "w_db w" s] show ?case by (simp add: world_ok_def) (simp add: narrows_def)
qed

end

interpretation au: submission_policy "authorised A (cfg srv)" A srv for A srv
  by unfold_locales (auto simp: authorised_def list_all_iff subset_iff)

interpretation wsys: invariant_system "fresh_world A srv" "world_step A srv" "world_inv A srv" for A srv
  by unfold_locales (simp add: fresh_world_def world_ok_def, erule au.step_ok)

end
