(* ===== verification/Smtpd_Props.thy ===== *)
theory Smtpd_Props
  imports Smtpd_Laws Config_Laws
begin

text \<open>
  The properties of the submission server: safety of concurrent connections, authentication, and what
  the reply to \<open>DATA\<close> means.
\<close>

section \<open>A server to test with\<close>

definition demo_account :: account where
  "demo_account = \<lparr>Email = ''a@x'', PasswordHash = ''$2a$p'', AllowedFrom = [''a@x'']\<rparr>"

definition demo_server :: server where
  "demo_server = \<lparr>cfg = (defaults demo_sys)\<lparr>Hostname := ''h''\<rparr>, bcr = demo_bcrypt, rec = None, has_tls = False,
     clock = (\<lambda>n. \<lparr>now_ns = int n, id_stamp = ''s'', id_rand = [CHR 0x01], date_text = ''d''\<rparr>)\<rparr>"

definition no_counts :: metrics where
  "no_counts = \<lparr>AuthSuccess = 0, AuthFailure = 0, MessagesQueued = 0, DeliveryAttempts = 0, MessagesDelivered = 0,
     MessagesDead = 0, Requeued = 0\<rparr>"

definition demo_db :: store where
  "demo_db = (new_store ''sqlite'' ''w'')\<lparr>accounts := [demo_account],
     queue_messages := [new_row 1 ''m1'' ''a@x'' [''b@y''] ''hi'']\<rparr>"

definition demo_world :: world where
  "demo_world = \<lparr>conns = [], w_db = demo_db, w_counts = no_counts, w_ticks = 0\<rparr>"

lemma demo_fresh: "fresh_world {demo_account} demo_server demo_world"
proof -
  have "validEnvelopeAddr ''a@x''" "validEnvelopeAddr ''b@y''" by code_simp+
  moreover have "AllowsFrom demo_account ''a@x''" by code_simp
  ultimately show ?thesis
    by (simp add: fresh_world_def demo_world_def demo_db_def new_store_def new_row_def authorised_def demo_server_def defaults_def)
qed

lemma demo_accept:
  "\<exists>w c. world_step {demo_account} demo_server demo_world w \<and> conns w = [c] \<and> w_db w = demo_db \<and> remote c = TCPAddr ''10.0.0.1'' False"
proof -
  let ?c = "attach demo_world (new_session (TCPAddr ''10.0.0.1'' False) [] [] demo_db no_counts 0)"
  have "implicit_tls demo_server ?c = (True, ?c)" by (simp add: implicit_tls_def demo_server_def)
  then have "world_step {demo_account} demo_server demo_world (demo_world\<lparr>conns := conns demo_world @ [greet demo_server ?c]\<rparr>)"
    by (rule ws_accept)
  moreover have "conns demo_world = []" "w_db demo_world = demo_db" "remote (greet demo_server ?c) = TCPAddr ''10.0.0.1'' False"
    by (simp_all add: demo_world_def greet_def attach_def new_session_def)
  ultimately show ?thesis by auto
qed

section \<open>Safety\<close>

text \<open>
  C13. No open relay with any number of connections served side by side: in every world the server can
  reach, with clients sending anything, connections interleaved turn by turn and the
  rest of the program removing recipients and rows or editing accounts, every queued row has a sender
  that one of the accounts of \<open>A\<close> may use, and recipients within the limits.
\<close>

theorem world_no_open_relay:
  assumes "fresh_world A srv w" and "(world_step A srv)\<^sup>*\<^sup>* w w'" and "r \<in> set (queue_messages (w_db w'))"
  shows "(\<exists>u\<in>A. AllowsFrom u (q_sender r)) \<and> q_to r \<noteq> [] \<and> int (length (q_to r)) \<le> MaxRecipients (cfg srv) \<and>
     list_all validEnvelopeAddr (q_sender r # q_to r)"
  using wsys.reachable_inv [OF assms(1,2)] assms(3) by (auto simp: world_ok_def list_all_iff authorised_def)

lemma world_no_open_relay_witness:
  "\<exists>w r. (world_step {demo_account} demo_server)\<^sup>*\<^sup>* demo_world w \<and> conns w \<noteq> [] \<and> r \<in> set (queue_messages (w_db w)) \<and>
     AllowsFrom demo_account (q_sender r)"
proof -
  obtain w c where w: "world_step {demo_account} demo_server demo_world w" "conns w = [c]" "w_db w = demo_db"
    using demo_accept by blast
  have r: "(world_step {demo_account} demo_server)\<^sup>*\<^sup>* demo_world w" using w(1) by blast
  have "new_row 1 ''m1'' ''a@x'' [''b@y''] ''hi'' \<in> set (queue_messages (w_db w))" using w(3) by (simp add: demo_db_def)
  with world_no_open_relay [OF demo_fresh r this] r w(2) show ?thesis
    by (intro exI [of _ w] exI [of _ "new_row 1 ''m1'' ''a@x'' [''b@y''] ''hi''"]) simp
qed

text \<open>
  C10. With \<open>require_tls\<close>, in every reachable world a session is authenticated only over TLS or from a
  loopback address, and it has an envelope sender only when it is authenticated as an account of \<open>A\<close>
  that may use it.
\<close>

theorem world_auth_needs_tls:
  assumes "fresh_world A srv w" and "(world_step A srv)\<^sup>*\<^sup>* w w'" and "c \<in> set (conns w')"
  shows "(user c \<noteq> None \<and> RequireTLS (cfg srv) \<longrightarrow> tlsOn c \<or> isLoopback (remote c)) \<and>
    (sender c \<noteq> [] \<longrightarrow> (\<exists>u\<in>A. user c = Some u \<and> AllowsFrom u (sender c)))"
proof -
  have "sess_inv A srv c" using wsys.reachable_inv [OF assms(1,2)] assms(3) by (simp add: world_ok_def list_all_iff)
  then show ?thesis by (auto simp: sess_inv_def authAllowed_def split: if_splits)
qed

lemma world_auth_needs_tls_witness:
  "\<exists>w c. (world_step {demo_account} demo_server)\<^sup>*\<^sup>* demo_world w \<and> c \<in> set (conns w) \<and>
     \<not> isLoopback (remote c) \<and> (sender c \<noteq> [] \<longrightarrow> (\<exists>u. user c = Some u \<and> AllowsFrom u (sender c)))"
proof -
  obtain w c where w: "world_step {demo_account} demo_server demo_world w" "conns w = [c]" "remote c = TCPAddr ''10.0.0.1'' False"
    using demo_accept by blast
  have r: "(world_step {demo_account} demo_server)\<^sup>*\<^sup>* demo_world w" using w(1) by blast
  show ?thesis using world_auth_needs_tls [OF demo_fresh r, of c] r w(2,3) by (auto simp: isLoopback_def)
qed

section \<open>Authentication\<close>

text \<open>
  C19. The outcome of a login: the session becomes authenticated as an account exactly when the lookup of
  the normalised login finds it and its hash verifies the password; otherwise it is not authenticated,
  whoever it was before. The client gets one line, 235 in the first case and 535 in the other, and the
  envelope is cleared.
\<close>

theorem tryAuthenticate_spec:
  "user (tryAuthenticate srv l p c) =
     (case fst (GetAccount l (db c)) of
        Inr (Some u) \<Rightarrow> if VerifyPassword (bcr srv) (PasswordHash u) p then Some u else None
      | _ \<Rightarrow> None) \<and>
   nc_out (tryAuthenticate srv l p c) = nc_out c @
     [if user (tryAuthenticate srv l p c) = None then ''535 5.7.8 Authentication credentials invalid''
      else ''235 2.7.0 Authentication successful''] \<and>
   sender (tryAuthenticate srv l p c) = [] \<and> rcpts (tryAuthenticate srv l p c) = []"
proof -
  have code: "Itoa 535 = ''535''" "Itoa 235 = ''235''" by code_simp+
  show ?thesis
    by (simp add: tryAuthenticate_eq auth_ok_def auth_bad_def failAuth_def add_counter_now_def reset_def code
        split: sum.split option.split)
qed

text \<open>
  AUTH PLAIN carries credentials faithfully: for a client that is allowed to authenticate, the
  command with the base64 of NUL, login, NUL, password is a login attempt with exactly that login and
  password, for every login and password without NUL bytes.
\<close>

lemma handleAuth_plain_roundtrip:
  assumes "user c = None" and "authAllowed srv c" and "NUL \<notin> set login" and "NUL \<notin> set pw"
  shows "handleAuth srv (''PLAIN '' @ EncodeToString (NUL # login @ NUL # pw)) c = (False, tryAuthenticate srv login pw c)"
proof -
  let ?b = "EncodeToString (NUL # login @ NUL # pw)"
  have ns: "list_all (\<lambda>c. \<not> is_space c) ?b" using EncodeToString_no_space by (auto simp: list_all_iff)
  have ne: "?b \<noteq> []" by simp
  have "Fields (''PLAIN'' @ '' '' @ ?b) = ''PLAIN'' # Fields ('' '' @ ?b)"
    by (rule Fields_word) (simp_all add: is_space_def)
  also have "Fields ('' '' @ ?b) = [?b]"
    using Fields_space [of "CHR '' ''" ?b] Fields_word [OF ne ns, of "[]"] by (simp add: is_space_def)
  finally have fields: "Fields (''PLAIN '' @ ?b) = [''PLAIN'', ?b]" by simp
  have len: "ToUpper (''PLAIN '' @ ?b) \<noteq> s" if "length s = 5" for s
    using that by (auto simp: ToUpper_def dest: arg_cong [of _ _ length])
  have "ToUpper (''PLAIN '' @ ?b) \<noteq> ''LOGIN'' \<and> ToUpper (''PLAIN '' @ ?b) \<noteq> ''PLAIN''"
    by (intro conjI len) simp_all
  moreover have "SplitByte NUL (NUL # login @ NUL # pw) = [[], login, pw]"
    using assms(3,4) by (simp add: SplitByte_append SplitByte_free)
  ultimately show ?thesis
    using assms(1,2) ne
    by (simp only: handleAuth_def Let_def fields authPlain_def)
      (simp add: EqualFold_def TrimSpace_free [OF ns] DecodeString_EncodeToString)
qed

section \<open>DATA\<close>

lemma EnqueueWithID_result:
  "EnqueueWithID t mid sd to data s = (Inr q, s1) \<Longrightarrow> q = mid \<and> queue_messages s1 = queue_messages s @ [new_row t mid sd to data]"
  "EnqueueWithID t mid sd to data s = (Inl e, s1) \<Longrightarrow> queue_messages s1 = queue_messages s"
  by (auto simp: EnqueueWithID_def insert_queue_def split: if_splits prod.splits sum.splits elim!: sql_cases)

lemma AddCounter_queue: "queue_messages (snd (AddCounter t nm d s)) = queue_messages s"
proof -
  have "submits {} (defaults demo_sys) s (snd (AddCounter t nm d s))" by (rule AddCounter_submits)
  then show ?thesis by (cases "queue_messages (snd (AddCounter t nm d s)) = queue_messages s")
    (auto simp: submits_def authorised_def neq_Nil_conv)
qed

text \<open>The two outcomes of \<open>DATA\<close>: the message of \<open>c\<close> is stored and acknowledged in \<open>c'\<close>, or it is neither.\<close>

definition data_stored :: "server \<Rightarrow> session \<Rightarrow> session \<Rightarrow> string \<Rightarrow> bool" where
  "data_stored srv c c' data \<longleftrightarrow>
     nc_out c' = nc_out c @ [''354 End data with <CR><LF>.<CR><LF>'', ''250 2.0.0 Ok: queued as '' @ data_id srv c] \<and>
     queue_messages (db c') =
       queue_messages (db c) @ [new_row (now_ms (clock srv (ticks c))) (data_id srv c) (sender c) (rcpts c) (data_raw srv c data)] \<and>
     (\<exists>inp. readData (MaxMessageSize (cfg srv)) (nc_in c) = (Inr (data, False), inp)) \<and> user c' = None \<and> sender c' = [] \<and> rcpts c' = []"

definition data_refused :: "session \<Rightarrow> session \<Rightarrow> bool" where
  "data_refused c c' \<longleftrightarrow> queue_messages (db c') = queue_messages (db c) \<and>
     (\<exists>ls. nc_out c' = nc_out c @ ls \<and> list_all (\<lambda>l. \<not> HasPrefix l ''250'') ls)"

lemma data_codes: "Itoa 354 = ''354''" "Itoa 250 = ''250''" "Itoa 552 = ''552''" "Itoa 451 = ''451''" "Itoa 530 = ''530''" "Itoa 503 = ''503''"
  by code_simp+

lemma data_after_read:
  assumes "c1 = (reply 354 ''End data with <CR><LF>.<CR><LF>'' c)\<lparr>nc_in := inp\<rparr>"
    and rd: "readData (MaxMessageSize (cfg srv)) (nc_in c) = (Inr (data, False), inp)" and q: "data_queued srv c1 data = (q, s)"
  shows "case q of Inl e \<Rightarrow> data_refused c (data_failed ((data_recorded srv c1 data)\<lparr>db := Drop (rec srv) (data_id srv c1) s\<rparr>))
    | Inr i \<Rightarrow> data_stored srv c (data_ok (clock srv (ticks c1)) i ((data_recorded srv c1 data)\<lparr>db := s\<rparr>)) data"
proof -
  have c1: "nc_out c1 = nc_out c @ [''354 End data with <CR><LF>.<CR><LF>'']" "db c1 = db c" "ticks c1 = ticks c"
      "sender c1 = sender c" "rcpts c1 = rcpts c" "data_id srv c1 = data_id srv c" "data_raw srv c1 d = data_raw srv c d" for d
    by (simp_all add: assms(1) data_codes data_id_def data_raw_def receivedHeader_def)
  have core: "queue_messages (db (data_recorded srv c1 data)) = queue_messages (db c)"
    using data_recorded_core [of c1 srv data] c1(2) by (simp add: same_core_def)
  have drop: "queue_messages (Drop (rec srv) i s) = queue_messages s" for i
    using recorder_same_core(6) [of s "rec srv" i] by (simp add: same_core_def)
  note res = EnqueueWithID_result [of "now_ms (clock srv (ticks c1))" "data_id srv c1" "sender c1" "rcpts c1"
      "data_raw srv c1 data" "db (data_recorded srv c1 data)"]
  show ?thesis
  proof (cases q)
    case (Inl e)
    then have "queue_messages s = queue_messages (db c)" using res(2) q core by (simp add: data_queued_def)
    with Inl show ?thesis using c1 drop by (simp add: data_refused_def data_failed_def reset_def data_codes HasPrefix_def)
  next
    case (Inr i)
    then have "i = data_id srv c1 \<and> queue_messages s =
        queue_messages (db c) @ [new_row (now_ms (clock srv (ticks c1))) (data_id srv c1) (sender c1) (rcpts c1) (data_raw srv c1 data)]"
      using res(1) q core by (simp add: data_queued_def)
    with Inr show ?thesis using c1 rd
      by (simp add: data_stored_def data_ok_def reset_def data_codes add_counter_now_def AddCounter_queue)
  qed
qed

lemma handleData_outcome: "(\<exists>data. data_stored srv c (handleData srv c) data) \<or> data_refused c (handleData srv c)"
proof (cases "user c = None \<or> sender c = [] \<or> rcpts c = []")
  case True
  then show ?thesis by (auto simp: handleData_def data_refused_def data_codes HasPrefix_def)
next
  case False
  obtain r inp where rd: "readData (MaxMessageSize (cfg srv)) (nc_in c) = (r, inp)"
    by (cases "readData (MaxMessageSize (cfg srv)) (nc_in c)")
  define c1 where "c1 = (reply 354 ''End data with <CR><LF>.<CR><LF>'' c)\<lparr>nc_in := inp\<rparr>"
  have eq: "handleData srv c = (case r of Inl e \<Rightarrow> c1 | Inr (data, over) \<Rightarrow> if over then data_over srv c1
      else case data_queued srv c1 data of
          (Inl e, s) \<Rightarrow> data_failed ((data_recorded srv c1 data)\<lparr>db := Drop (rec srv) (data_id srv c1) s\<rparr>)
        | (Inr qid, s) \<Rightarrow> data_ok (clock srv (ticks c1)) qid ((data_recorded srv c1 data)\<lparr>db := s\<rparr>))"
    using False by (intro handleData_eq [OF _ _ _ c1_def rd]) auto
  consider e where "r = Inl e" | data where "r = Inr (data, True)" | data where "r = Inr (data, False)"
    by (metis (full_types) sum.exhaust surj_pair)
  then show ?thesis
  proof cases
    case 3
    obtain q s where q: "data_queued srv c1 data = (q, s)" by (cases "data_queued srv c1 data")
    show ?thesis using data_after_read [OF c1_def rd [unfolded 3] q] eq 3 q by (cases q) auto
  qed (use eq in \<open>auto simp: c1_def data_refused_def data_over_def reset_def data_codes HasPrefix_def\<close>)
qed

text \<open>
  C6. What the answer to \<open>DATA\<close> means, whichever statements fail: the message is acknowledged with 250
  exactly when its row is in the queue, under the identifier the client is told, with the envelope of
  the session and the received text behind a Received header. In every other case the queue is
  unchanged and no line with a 250 code is sent. A session whose message was read to its end leaves
  \<open>DATA\<close> without envelope and without authentication.
\<close>

theorem handleData_ack_stored:
  "(\<exists>data. nc_out (handleData srv c) =
        nc_out c @ [''354 End data with <CR><LF>.<CR><LF>'', ''250 2.0.0 Ok: queued as '' @ data_id srv c] \<and>
      queue_messages (db (handleData srv c)) =
        queue_messages (db c) @ [new_row (now_ms (clock srv (ticks c))) (data_id srv c) (sender c) (rcpts c) (data_raw srv c data)] \<and>
      (\<exists>inp. readData (MaxMessageSize (cfg srv)) (nc_in c) = (Inr (data, False), inp)) \<and>
      user (handleData srv c) = None \<and> sender (handleData srv c) = [] \<and> rcpts (handleData srv c) = []) \<or>
   (queue_messages (db (handleData srv c)) = queue_messages (db c) \<and>
    (\<exists>ls. nc_out (handleData srv c) = nc_out c @ ls \<and> list_all (\<lambda>l. \<not> HasPrefix l ''250'') ls))"
  using handleData_outcome [of srv c] unfolding data_stored_def data_refused_def .

end
