(* ===== verification/Logmask.thy ===== *)
theory Logmask
  imports Msg_Laws
begin

text \<open>
  Masking of mail addresses in log lines, from \<open>internal/logmask/logmask.go\<close>. The regular expression
  \<open>emailRe\<close> is written out as the matcher that it denotes (leftmost match, greedy). Log attributes are
  values of a datatype with a constructor per case that \<open>maskAttr\<close> and \<open>maskAny\<close> tell apart; the handler
  that receives the masked records belongs to \<open>log/slog\<close> and is a parameter.
\<close>

section \<open>Masking one address\<close>

definition publicSuffixes :: "string list" where
  "publicSuffixes = [''com.br'', ''net.br'', ''org.br'', ''gov.br'', ''edu.br'', ''co.uk'', ''org.uk'', ''ac.uk'', ''co.jp'', ''co.nz'',
     ''com.au'', ''net.au'', ''com.mx'', ''com.ar'', ''com.co'', ''com.ve'', ''co.za'', ''com.pt'', ''com.uy'', ''com.pe'']"

text \<open>
  The bytes of the first rune of a string when they are well-formed UTF-8. In a conversion to \<open>[]rune\<close>
  any other first byte is a rune of its own, and prints as the replacement character.
\<close>

definition rune_width :: "string \<Rightarrow> nat option" where
  "rune_width s = (if 1 \<le> length s \<and> utf8_valid (take 1 s) then Some 1
     else if 2 \<le> length s \<and> utf8_valid (take 2 s) then Some 2
     else if 3 \<le> length s \<and> utf8_valid (take 3 s) then Some 3
     else if 4 \<le> length s \<and> utf8_valid (take 4 s) then Some 4 else None)"

definition replacement :: string where
  "replacement = utf8_rune 65533"

definition first_rune :: "string \<Rightarrow> string \<times> string" where
  "first_rune s = (case rune_width s of Some n \<Rightarrow> (take n s, drop n s) | None \<Rightarrow> (replacement, drop 1 s))"

definition maskLabel :: "string \<Rightarrow> string" where
  "maskLabel l = (if l = [] then ''***'' else case first_rune l of (r, rest) \<Rightarrow> if rest = [] then ''***'' else r @ ''***'')"

definition maskDomain :: "string \<Rightarrow> string" where
  "maskDomain d =
     (if d = [] then ''***''
      else let labels = SplitByte CHR ''.'' d;
               suffix = (if length labels \<ge> 2 \<and> labels ! (length labels - 2) @ ''.'' @ labels ! (length labels - 1) \<in> set publicSuffixes
                         then 2 else 1);
               regIdx = int (length labels) - suffix - 1
           in if regIdx < 0 then maskLabel d
              else maskLabel (labels ! nat regIdx) @ ''.'' @ Join (drop (length labels - nat suffix) labels) ''.'')"

definition Email_mask :: "string \<Rightarrow> string" where
  "Email_mask s = (case IndexByte s CHR ''@'' of
       None \<Rightarrow> s
     | Some at \<Rightarrow> maskLabel (take at s) @ ''@'' @ maskDomain (drop (at + 1) s))"

definition List_mask :: "string list \<Rightarrow> string list" where
  "List_mask xs = map Email_mask xs"

section \<open>The regular expression\<close>

definition is_alnum :: "char \<Rightarrow> bool" where
  "is_alnum c \<longleftrightarrow> (let n = of_char c :: nat in 48 \<le> n \<and> n \<le> 57 \<or> 65 \<le> n \<and> n \<le> 90 \<or> 97 \<le> n \<and> n \<le> 122)"

definition local_char :: "char \<Rightarrow> bool" where
  "local_char c \<longleftrightarrow> is_alnum c \<or> c \<in> set ''.!#$%&*+/=?^_{|}~-'' \<or> c = CHR 0x27"

definition label_char :: "char \<Rightarrow> bool" where
  "label_char c \<longleftrightarrow> is_alnum c \<or> c = CHR ''-''"

text \<open>
  \<open>[A-Za-z0-9](?:[A-Za-z0-9-]{0,61}[A-Za-z0-9])?\<close>: the longest prefix of at most 63 label characters that
  begins and ends with a letter or digit; its length.
\<close>

definition match_label :: "string \<Rightarrow> nat option" where
  "match_label s = (case s of [] \<Rightarrow> None
     | c # _ \<Rightarrow> if is_alnum c then Some (length (trim_right (\<lambda>c. c = CHR ''-'') (takeWhile label_char (take 63 s)))) else None)"

text \<open>\<open>(?:\.label)*\<close>: the number of characters.\<close>

function match_dots :: "string \<Rightarrow> nat" where
  "match_dots s = (case s of [] \<Rightarrow> 0
     | c # r \<Rightarrow> if c = CHR ''.'' then (case match_label r of None \<Rightarrow> 0 | Some k \<Rightarrow> 1 + k + match_dots (drop k r)) else 0)"
  by pat_completeness auto
termination
  by (relation "measure length") auto

declare match_dots.simps [simp del]

text \<open>
  A match of \<open>emailRe\<close> at the beginning of a string: its length. The local part is the whole run of its
  characters, since \<open>@\<close> is not one of them; a label before a dot is the whole run of label characters.
\<close>

definition match_email :: "string \<Rightarrow> nat option" where
  "match_email s =
     (let loc = takeWhile local_char s; r = drop (length loc) s in
      if loc = [] \<or> r = [] \<or> hd r \<noteq> CHR ''@'' then None
      else case match_label (tl r) of
          None \<Rightarrow> None
        | Some k \<Rightarrow> (let n = match_dots (drop k (tl r)) in if n = 0 then None else Some (length loc + 1 + k + n)))"

lemma match_email_pos: "match_email s = Some n \<Longrightarrow> 0 < n \<and> s \<noteq> []"
  by (auto simp: match_email_def Let_def split: if_splits option.splits)

text \<open>\<open>ReplaceAllStringFunc(s, Email)\<close>\<close>

function ReplaceAllStringFunc :: "string \<Rightarrow> string" where
  "ReplaceAllStringFunc s = (case match_email s of
       Some n \<Rightarrow> Email_mask (take n s) @ ReplaceAllStringFunc (drop n s)
     | None \<Rightarrow> (case s of [] \<Rightarrow> [] | c # r \<Rightarrow> c # ReplaceAllStringFunc r))"
  by pat_completeness auto
termination
  by (relation "measure length") (auto dest: match_email_pos)

declare ReplaceAllStringFunc.simps [simp del]

definition MaskText :: "string \<Rightarrow> string" where
  "MaskText s = (if \<not> Contains s ''@'' then s else ReplaceAllStringFunc s)"

section \<open>Log records\<close>

text \<open>Values of type \<open>any\<close>, as \<open>maskAny\<close> tells them apart; \<open>AnyOther\<close> is every other dynamic type, such as errors.\<close>

datatype 'o anyval =
    AnyString string
  | AnyStrings "string list"
  | AnySlice "'o anyval list"
  | AnyMap "(string \<times> 'o anyval) list"
  | AnyOther 'o

fun maskAny :: "'o anyval \<Rightarrow> 'o anyval" where
  "maskAny (AnyString t) = AnyString (MaskText t)"
| "maskAny (AnyStrings t) = AnyStrings (map MaskText t)"
| "maskAny (AnySlice t) = AnySlice (map maskAny t)"
| "maskAny (AnyMap t) = AnyMap (map (\<lambda>(k, s). (k, maskAny s)) t)"
| "maskAny (AnyOther x) = AnyOther x"

datatype 'o logval =
    KindString string
  | KindAny "'o anyval"
  | KindGroup "(string \<times> 'o logval) list"
  | KindOther 'o

text \<open>\<open>slog.Any\<close> stores a string as a value of kind string.\<close>

definition slog_Any :: "'o anyval \<Rightarrow> 'o logval" where
  "slog_Any x = (case x of AnyString t \<Rightarrow> KindString t | _ \<Rightarrow> KindAny x)"

fun maskAttr :: "'o logval \<Rightarrow> 'o logval" where
  "maskAttr (KindString t) = KindString (MaskText t)"
| "maskAttr (KindAny x) = slog_Any (maskAny x)"
| "maskAttr (KindGroup g) = KindGroup (map (\<lambda>(k, c). (k, maskAttr c)) g)"
| "maskAttr (KindOther x) = KindOther x"

record 'o logrec =
  Level :: int
  Message :: string
  Attrs :: "(string \<times> 'o logval) list"

definition mask_attrs :: "(string \<times> 'o logval) list \<Rightarrow> (string \<times> 'o logval) list" where
  "mask_attrs attrs = map (\<lambda>(k, v). (k, maskAttr v)) attrs"

text \<open>The methods of a \<open>slog.Handler\<close> of type \<open>'h\<close>; handling a record has an effect of type \<open>'e\<close>.\<close>

record ('h, 'e, 'o) slog_handler =
  sh_Enabled :: "'h \<Rightarrow> int \<Rightarrow> bool"
  sh_Handle :: "'h \<Rightarrow> 'o logrec \<Rightarrow> 'e"
  sh_WithAttrs :: "'h \<Rightarrow> (string \<times> 'o logval) list \<Rightarrow> 'h"
  sh_WithGroup :: "'h \<Rightarrow> string \<Rightarrow> 'h"

datatype 'h logger = Plain 'h | maskHandler 'h

definition NewLogger :: "'h \<Rightarrow> bool \<Rightarrow> 'h logger" where
  "NewLogger base enabled = (if \<not> enabled then Plain base else maskHandler base)"

fun Enabled :: "('h, 'e, 'o) slog_handler \<Rightarrow> 'h logger \<Rightarrow> int \<Rightarrow> bool" where
  "Enabled ops (Plain h) l = sh_Enabled ops h l"
| "Enabled ops (maskHandler h) l = sh_Enabled ops h l"

fun Handle :: "('h, 'e, 'o) slog_handler \<Rightarrow> 'h logger \<Rightarrow> 'o logrec \<Rightarrow> 'e" where
  "Handle ops (Plain h) r = sh_Handle ops h r"
| "Handle ops (maskHandler h) r = sh_Handle ops h (r\<lparr>Message := MaskText (Message r), Attrs := mask_attrs (Attrs r)\<rparr>)"

fun WithAttrs :: "('h, 'e, 'o) slog_handler \<Rightarrow> 'h logger \<Rightarrow> (string \<times> 'o logval) list \<Rightarrow> 'h logger" where
  "WithAttrs ops (Plain h) attrs = Plain (sh_WithAttrs ops h attrs)"
| "WithAttrs ops (maskHandler h) attrs = maskHandler (sh_WithAttrs ops h (mask_attrs attrs))"

fun WithGroup :: "('h, 'e, 'o) slog_handler \<Rightarrow> 'h logger \<Rightarrow> string \<Rightarrow> 'h logger" where
  "WithGroup ops (Plain h) nm = Plain (sh_WithGroup ops h nm)"
| "WithGroup ops (maskHandler h) nm = maskHandler (sh_WithGroup ops h nm)"

end
