(* ===== verification/Logmask_Laws.thy ===== *)
theory Logmask_Laws
  imports Logmask
begin

text \<open>
  What \<open>MaskText\<close> does to a text with addresses in it: the matcher finds exactly the address, and what
  is left of it is the first character of the local part, the first character of the registrable
  label, and the public suffix.
\<close>

section \<open>The matcher finds well-formed addresses\<close>

definition valid_label :: "string \<Rightarrow> bool" where
  "valid_label l \<longleftrightarrow> l \<noteq> [] \<and> length l \<le> 63 \<and> list_all label_char l \<and> is_alnum (hd l) \<and> is_alnum (last l)"

definition dotted :: "string list \<Rightarrow> string" where
  "dotted ls = concat (map (\<lambda>l. CHR ''.'' # l) ls)"

text \<open>What may follow an address so that it ends there.\<close>

definition boundary :: "string \<Rightarrow> bool" where
  "boundary post \<longleftrightarrow> post = [] \<or> \<not> label_char (hd post) \<and>
     (hd post = CHR ''.'' \<longrightarrow> tl post = [] \<or> \<not> is_alnum (hd (tl post)))"

lemma not_alnum [simp]: "\<not> is_alnum CHR ''.''" "\<not> is_alnum CHR ''@''" "\<not> is_alnum CHR ''-''"
  by (simp_all add: is_alnum_def)

lemma not_local_at [simp]: "\<not> local_char CHR ''@''"
  by (simp add: local_char_def)

lemma not_label [simp]: "\<not> label_char CHR ''.''" "\<not> label_char CHR ''@''"
  by (simp_all add: label_char_def)

lemma label_not_dot: "valid_label l \<Longrightarrow> CHR ''.'' \<notin> set l" "valid_label l \<Longrightarrow> CHR ''@'' \<notin> set l"
  by (auto simp: valid_label_def list_all_iff)

lemma takeWhile_stop: "list_all P l \<Longrightarrow> r = [] \<or> \<not> P (hd r) \<Longrightarrow> takeWhile P (l @ r) = l"
  by (induction l) (cases r; auto)+

lemma match_label_full:
  assumes "valid_label l" and "r = [] \<or> \<not> label_char (hd r)"
  shows "match_label (l @ r) = Some (length l)"
proof -
  have "take 63 (l @ r) = l @ take (63 - length l) r" using assms(1) by (simp add: valid_label_def)
  moreover have "take (63 - length l) r = [] \<or> \<not> label_char (hd (take (63 - length l) r))"
    using assms(2) by (cases "63 - length l = 0") (auto simp: hd_take)
  ultimately have "takeWhile label_char (take 63 (l @ r)) = l"
    using takeWhile_stop [of label_char l "take (63 - length l) r"] assms(1) by (simp only: valid_label_def)
  moreover have "trim_right (\<lambda>c. c = CHR ''-'') l = l"
    using assms(1) by (intro trim_right_id) (auto simp: valid_label_def)
  ultimately show ?thesis using assms(1) by (cases l) (simp_all add: match_label_def valid_label_def)
qed

lemma match_dots_boundary: "boundary post \<Longrightarrow> match_dots post = 0"
  by (auto simp: match_dots.simps [of post] boundary_def match_label_def split: list.split)

lemma dotted_boundary: "boundary post \<Longrightarrow> dotted ls @ post = [] \<or> \<not> label_char (hd (dotted ls @ post))"
  by (cases ls) (auto simp: dotted_def boundary_def)

lemma match_dots_labels:
  "list_all valid_label ls \<Longrightarrow> boundary post \<Longrightarrow> match_dots (dotted ls @ post) = length (dotted ls)"
proof (induction ls)
  case (Cons l ls)
  have "match_label (l @ dotted ls @ post) = Some (length l)"
    using Cons.prems by (intro match_label_full dotted_boundary) auto
  then show ?case using Cons by (simp add: match_dots.simps [of "dotted (l # ls) @ post"]) (simp add: dotted_def)
qed (simp add: dotted_def match_dots_boundary)

definition address :: "string \<Rightarrow> string list \<Rightarrow> string" where
  "address loc labels = loc @ ''@'' @ Join labels ''.''"

lemma Join_dotted: "Join (l # ls) ''.'' = l @ dotted ls"
  by (induction ls arbitrary: l) (auto simp: dotted_def)

lemma match_email_address:
  assumes "loc \<noteq> []" and "list_all local_char loc" and "2 \<le> length labels" and "list_all valid_label labels" and "boundary post"
  shows "match_email (address loc labels @ post) = Some (length (address loc labels))"
proof -
  obtain l ls where labels: "labels = l # ls" "ls \<noteq> []" using assms(3) by (cases labels) (auto simp: Suc_le_eq)
  have adr: "address loc labels = loc @ ''@'' @ l @ dotted ls" by (simp add: address_def labels(1) Join_dotted)
  have "takeWhile local_char (address loc labels @ post) = loc"
    using assms(2) takeWhile_stop [of local_char loc "''@'' @ l @ dotted ls @ post"] by (simp add: adr)
  moreover have "match_label (l @ dotted ls @ post) = Some (length l)"
    using assms labels by (intro match_label_full dotted_boundary) auto
  moreover have "0 < length (dotted ls)" using labels(2) by (cases ls) (simp_all add: dotted_def)
  moreover have "match_dots (dotted ls @ post) = length (dotted ls)" using assms labels by (intro match_dots_labels) auto
  ultimately show ?thesis using assms(1) by (simp add: match_email_def Let_def adr)
qed

lemma match_email_None_before:
  assumes "CHR ''@'' \<notin> set pre" and "pre \<noteq> []" and "\<not> local_char (last pre)"
  shows "match_email (pre @ s) = None"
proof -
  let ?n = "length (takeWhile local_char pre)"
  have "takeWhile local_char pre \<noteq> pre" using assms(2,3) by (metis last_in_set set_takeWhileD)
  then have lt: "?n < length pre" by (metis takeWhile_eq_take take_all linorder_not_less)
  have ex: "\<exists>x\<in>set pre. \<not> local_char x" using assms(2,3) last_in_set by blast
  have tw: "takeWhile local_char (pre @ s) = takeWhile local_char pre" using ex by (auto simp: takeWhile_append1)
  have "hd (drop ?n (pre @ s)) = pre ! ?n" using lt by (simp add: hd_drop_conv_nth nth_append)
  then have "hd (drop ?n (pre @ s)) \<noteq> CHR ''@''" using assms(1) lt by (metis nth_mem)
  then show ?thesis by (simp add: match_email_def Let_def tw)
qed

lemma ReplaceAll_None: "match_email (c # s) = None \<Longrightarrow> ReplaceAllStringFunc (c # s) = c # ReplaceAllStringFunc s"
  by (simp add: ReplaceAllStringFunc.simps [of "c # s"])

lemma match_email_at: "match_email s = Some n \<Longrightarrow> CHR ''@'' \<in> set s"
proof -
  assume "match_email s = Some n"
  then have "drop (length (takeWhile local_char s)) s \<noteq> []" "hd (drop (length (takeWhile local_char s)) s) = CHR ''@''"
    by (auto simp: match_email_def Let_def split: if_splits)
  then show ?thesis by (metis hd_in_set in_set_dropD)
qed

lemma ReplaceAll_skip:
  "CHR ''@'' \<notin> set pre \<Longrightarrow> pre = [] \<or> \<not> local_char (last pre) \<Longrightarrow> ReplaceAllStringFunc (pre @ s) = pre @ ReplaceAllStringFunc s"
proof (induction pre)
  case (Cons c pre)
  have "match_email ((c # pre) @ s) = None" using Cons.prems by (intro match_email_None_before) auto
  then show ?case using Cons by (cases "pre = []") (simp_all add: ReplaceAll_None)
qed simp

lemma ReplaceAll_free: "CHR ''@'' \<notin> set s \<Longrightarrow> ReplaceAllStringFunc s = s"
proof (induction s)
  case (Cons c s)
  have "match_email (c # s) = None"
    using Cons.prems match_email_at [of "c # s"] by (cases "match_email (c # s)") auto
  then show ?case using Cons by (simp add: ReplaceAll_None)
qed (simp add: ReplaceAllStringFunc.simps match_email_def)

lemma MaskText_eq: "MaskText s = ReplaceAllStringFunc s"
  by (simp add: MaskText_def Contains_byte ReplaceAll_free)

section \<open>What is left of an address\<close>

text \<open>What is shown of a label.\<close>

definition hint :: "string \<Rightarrow> string" where
  "hint l = (if length l < 2 then ''***'' else hd l # ''***'')"

text \<open>The labels that stay visible: a listed pair, or else the last one.\<close>

definition visible_suffix :: "string list \<Rightarrow> string list \<Rightarrow> bool" where
  "visible_suffix front suf = (case suf of
       [y] \<Rightarrow> last front @ ''.'' @ y \<notin> set publicSuffixes
     | [x, y] \<Rightarrow> x @ ''.'' @ y \<in> set publicSuffixes
     | _ \<Rightarrow> False)"

lemma visible_suffix_iff:
  "visible_suffix front suf \<longleftrightarrow> (\<exists>x y. suf = [x, y] \<and> x @ ''.'' @ y \<in> set publicSuffixes) \<or>
     (\<exists>y. suf = [y] \<and> last front @ ''.'' @ y \<notin> set publicSuffixes)"
  by (auto simp: visible_suffix_def split: list.split)

definition ascii :: "string \<Rightarrow> bool" where
  "ascii s \<longleftrightarrow> list_all (\<lambda>c. (of_char c :: nat) < 128) s"

lemma maskLabel_ascii: "ascii l \<Longrightarrow> maskLabel l = hint l"
  by (cases l) (auto simp: maskLabel_def first_rune_def rune_width_def hint_def ascii_def Suc_le_eq)

lemma alnum_ascii: "is_alnum c \<Longrightarrow> (of_char c :: nat) < 128"
  by (auto simp: is_alnum_def Let_def)

lemma valid_label_ascii: "valid_label l \<Longrightarrow> ascii l"
  by (auto simp: valid_label_def ascii_def list_all_iff label_char_def alnum_ascii)

lemma local_ascii: "list_all local_char s \<Longrightarrow> ascii s"
  by (auto simp: ascii_def list_all_iff local_char_def alnum_ascii)

lemma SplitByte_Join:
  "labels \<noteq> [] \<Longrightarrow> list_all (\<lambda>l. CHR ''.'' \<notin> set l) labels \<Longrightarrow> SplitByte CHR ''.'' (Join labels ''.'') = labels"
proof (induction labels)
  case (Cons l ls)
  then show ?case by (cases ls) (simp_all add: SplitByte_free SplitByte_append)
qed simp

lemma maskDomain_labels:
  assumes "list_all valid_label (sub @ [reg])" and "list_all valid_label suf" and "visible_suffix (sub @ [reg]) suf"
  shows "maskDomain (Join (sub @ [reg] @ suf) ''.'') = hint reg @ dotted suf"
proof -
  let ?labels = "sub @ [reg] @ suf"
  have ne: "Join ?labels ''.'' \<noteq> []"
    using assms by (cases sub) (auto simp: Join_dotted valid_label_def)
  have sp: "SplitByte CHR ''.'' (Join ?labels ''.'') = ?labels"
    using assms by (intro SplitByte_Join) (auto simp: list_all_iff label_not_dot)
  have reg: "maskLabel reg = hint reg" using assms(1) by (intro maskLabel_ascii valid_label_ascii) simp
  from assms(3) consider x y where "suf = [x, y]" "x @ ''.'' @ y \<in> set publicSuffixes"
    | y where "suf = [y]" "reg @ ''.'' @ y \<notin> set publicSuffixes" by (auto simp: visible_suffix_iff)
  then show ?thesis
  proof cases
    case 1
    then show ?thesis using ne unfolding maskDomain_def sp by (simp add: Let_def nth_append reg Join_dotted dotted_def nat_diff_distrib)
  next
    case 2
    then show ?thesis using ne unfolding maskDomain_def sp by (simp add: Let_def nth_append reg Join_dotted dotted_def nat_diff_distrib)
  qed
qed

lemma Email_mask_address:
  "list_all local_char loc \<Longrightarrow> Email_mask (address loc labels) = hint loc @ ''@'' @ maskDomain (Join labels ''.'')"
proof -
  assume loc: "list_all local_char loc"
  then have "CHR ''@'' \<notin> set loc" by (auto simp: list_all_iff)
  then show ?thesis using loc by (simp add: Email_mask_def address_def IndexByte_append maskLabel_ascii local_ascii)
qed

text \<open>
  C33. In a log text, an address that stands between other text is replaced by the first character of
  its local part, the first character of its registrable label and its public suffix, whatever its
  other characters and subdomains are; the text before it stays and the text after it is treated the
  same way. Single characters are hidden completely.
\<close>

theorem MaskText_hides:
  assumes "CHR ''@'' \<notin> set pre" and "pre = [] \<or> \<not> local_char (last pre)" and "boundary post"
    and "loc \<noteq> []" and "list_all local_char loc" and "list_all valid_label (sub @ [reg])" and "list_all valid_label suf"
    and "visible_suffix (sub @ [reg]) suf"
  shows "MaskText (pre @ address loc (sub @ [reg] @ suf) @ post) =
     pre @ hint loc @ ''@'' @ hint reg @ dotted suf @ MaskText post"
proof -
  let ?labels = "sub @ [reg] @ suf"
  have "2 \<le> length ?labels" "list_all valid_label ?labels" using assms by (auto simp: visible_suffix_iff)
  then have m: "match_email (address loc ?labels @ post) = Some (length (address loc ?labels))"
    using match_email_address assms by blast
  have "ReplaceAllStringFunc (address loc ?labels @ post) = Email_mask (address loc ?labels) @ ReplaceAllStringFunc post"
    unfolding ReplaceAllStringFunc.simps [of "address loc ?labels @ post"] m by simp
  then show ?thesis
    using ReplaceAll_skip [OF assms(1,2)] Email_mask_address [OF assms(5)] maskDomain_labels [OF assms(6-8)] by (simp add: MaskText_eq)
qed

lemma MaskText_hides_witness:
  "MaskText (''to '' @ address ''joao.silva'' [''mx'', ''example'', ''com'', ''br''] @ '', ok'') = ''to j***@e***.com.br, ok''"
proof -
  have "MaskText '', ok'' = '', ok''" by code_simp
  moreover have "list_all local_char ''joao.silva''" "list_all valid_label [''mx'', ''example'']" "list_all valid_label [''com'', ''br'']"
    "visible_suffix ([''mx''] @ [''example'']) [''com'', ''br'']" "boundary '', ok''" "\<not> local_char CHR '' ''"
    by code_simp+
  ultimately show ?thesis
    using MaskText_hides [of "''to ''" "'', ok''" "''joao.silva''" "[''mx'']" "''example''" "[''com'', ''br'']"]
    by (simp add: hint_def dotted_def)
qed

text \<open>
  Values of other types than strings, slices and maps of them pass through the handler as they are; an
  error whose text names an address is such a value.
\<close>

lemma other_values_unmasked: "maskAttr (KindAny (AnyOther x)) = KindAny (AnyOther x)"
  by (simp add: slog_Any_def)

end
