(* ===== verification/Relay.thy ===== *)
theory Relay
  imports Recorder Dkim Smtpd_Session "HOL-Library.Word"
begin

text \<open>
  The deliverer of \<open>internal/relay/deliver.go\<close>: a batch of due messages is taken from the queue and
  each is delivered domain by domain to the mail exchangers of its recipients, with retries, permanent
  rejections and dead letters.

  The network is outside the program and appears as the functions of \<open>relay\<close>: what the n-th DNS query
  answers and what the n-th dialled connection does. A connection that comes up is a \<open>peer\<close>, the
  outcomes of the commands of \<open>net/smtp\<close> on it. \<open>d_ev\<close> counts the queries, the connections and the
  readings of the clock. \<open>mx_log\<close> lists the messages that mail exchangers have accepted, which is the
  purpose of the program; nothing in the code reads it.
\<close>

section \<open>Types\<close>

record mx =
  Host :: string
  Pref :: int

record peer =
  p_hello :: "unit res"
  p_has_starttls :: bool
  p_starttls :: "unit res"
  p_mail :: "string \<Rightarrow> unit res"
  p_rcpt :: "nat \<Rightarrow> string \<Rightarrow> unit res"
  p_data :: "unit res"
  p_write :: "string \<Rightarrow> unit res"
  p_close :: "unit res"

record relay =
  r_cfg :: config
  r_rec :: "recorder option"
  r_crypto :: cryptolib
  lookupMX :: "nat \<Rightarrow> string \<Rightarrow> mx list res"
  LookupHost :: "nat \<Rightarrow> string \<Rightarrow> string list res"
  ParseIP :: "string \<Rightarrow> bool"
  DialTimeout :: "nat \<Rightarrow> string \<Rightarrow> unit res"
  NewClient :: "nat \<Rightarrow> string \<Rightarrow> peer res"
  Now :: "nat \<Rightarrow> int"
  map_range :: "(string \<times> string) list \<Rightarrow> (string \<times> string) list"

record sent_mail =
  sm_host :: string
  sm_from :: string
  sm_rcpts :: "string list"
  sm_body :: string

record dstate =
  d_db :: store
  d_counts :: metrics
  d_ev :: nat
  mx_log :: "sent_mail list"

definition smtpPort :: string where
  "smtpPort = ''25''"

text \<open>Every question to the outside takes the next number.\<close>

definition ask :: "dstate \<Rightarrow> nat \<times> dstate" where
  "ask s = (d_ev s, s\<lparr>d_ev := d_ev s + 1\<rparr>)"

definition add_counter_at :: "relay \<Rightarrow> string \<Rightarrow> dstate \<Rightarrow> dstate" where
  "add_counter_at d nm s = (case ask s of (n, s) \<Rightarrow> s\<lparr>d_db := snd (AddCounter (Now d n div 1000000) nm 1 (d_db s))\<rparr>)"

section \<open>Addresses\<close>

definition domainOf :: "string \<Rightarrow> string" where
  "domainOf addr = (case LastIndexByte addr CHR ''@'' of
       None \<Rightarrow> addr
     | Some at \<Rightarrow> ToLower (TrimSuffix (drop (at + 1) addr) ''.''))"

primrec splitByDomain :: "string list \<Rightarrow> string \<Rightarrow> string list \<times> string list" where
  "splitByDomain [] domain = ([], [])"
| "splitByDomain (a # addrs) domain =
     (case splitByDomain addrs domain of (grp, rest) \<Rightarrow>
        if domainOf a = domain then (a # grp, rest) else (grp, a # rest))"

definition JoinHostPort :: "string \<Rightarrow> string \<Rightarrow> string" where
  "JoinHostPort host port = (if Contains host '':'' then ''['' @ host @ '']:'' @ port else host @ '':'' @ port)"

definition hostAddrs :: "relay \<Rightarrow> string \<Rightarrow> dstate \<Rightarrow> string list \<times> dstate" where
  "hostAddrs d host s =
     (let addr = JoinHostPort host smtpPort in
      if ParseIP d host then ([addr], s)
      else case ask s of (n, s1) \<Rightarrow>
        (case LookupHost d n host of
           Inl err \<Rightarrow> ([addr], s1)
         | Inr ips \<Rightarrow> if length ips = 0 then ([addr], s1) else (map (\<lambda>ip. JoinHostPort ip smtpPort) ips, s1)))"

section \<open>Errors\<close>

text \<open>\<open>errors.As\<close> for the two error types that the relay looks for.\<close>

fun as_textproto :: "go_error \<Rightarrow> int option" where
  "as_textproto (TextprotoError code m) = Some code"
| "as_textproto (Wrapf m e) = as_textproto e"
| "as_textproto _ = None"

fun as_dns :: "go_error \<Rightarrow> bool option" where
  "as_dns (DNSError notFound m) = Some notFound"
| "as_dns (Wrapf m e) = as_dns e"
| "as_dns _ = None"

definition isPermanent :: "go_error \<Rightarrow> bool" where
  "isPermanent err = (case as_textproto err of Some code \<Rightarrow> code \<ge> 500 \<and> code \<noteq> 421 | None \<Rightarrow> False)"

section \<open>Finding and reaching a mail exchanger\<close>

definition resolveHost :: "relay \<Rightarrow> string \<Rightarrow> dstate \<Rightarrow> string res \<times> dstate" where
  "resolveHost d domain0 s =
     (let domain = TrimSuffix domain0 ''.'' in
      case ask s of (n, s1) \<Rightarrow>
      (case lookupMX d n domain of
         Inl err \<Rightarrow>
           if as_dns err = Some True then (Inl (Wrapf (''domain '' @ domain @ '' does not exist: '') err), s1)
           else (Inl (Wrapf (''MX lookup for '' @ domain @ '': '') err), s1)
       | Inr mxs \<Rightarrow>
           if length mxs > 0 then (Inr (Host (hd (sort_key Pref mxs))), s1)
           else case ask s1 of (n2, s2) \<Rightarrow>
             (case LookupHost d n2 domain of
                Inl err \<Rightarrow>
                  if as_dns err = Some True
                  then (Inl (Wrapf (''domain '' @ domain @ '' does not exist (no MX or A): '') err), s2)
                  else (Inl (Wrapf (''resolving '' @ domain @ '': '') err), s2)
              | Inr hosts \<Rightarrow>
                  if length hosts = 0 then (Inl (Errorf (''domain '' @ domain @ '' has no MX or A/AAAA records'')), s2)
                  else (Inr (hd hosts), s2))))"

fun try_addrs :: "relay \<Rightarrow> string \<Rightarrow> string list \<Rightarrow> go_error option \<Rightarrow> dstate \<Rightarrow> peer res \<times> dstate" where
  "try_addrs d host [] lastErr s =
     (case lastErr of
        None \<Rightarrow> (Inl (Errorf (''no address resolved for '' @ host)), s) | Some err \<Rightarrow> (Inl err, s))"
| "try_addrs d host (addr # addrs) lastErr s =
     (case ask s of (n, s1) \<Rightarrow>
      (case DialTimeout d n addr of
         Inl err \<Rightarrow> try_addrs d host addrs (Some err) s1
       | Inr _ \<Rightarrow>
           (case NewClient d n host of
              Inl err \<Rightarrow> try_addrs d host addrs (Some err) s1
            | Inr client \<Rightarrow> (Inr client, s1))))"

definition connect :: "relay \<Rightarrow> string \<Rightarrow> dstate \<Rightarrow> peer res \<times> dstate" where
  "connect d host s = (case hostAddrs d host s of (addrs, s1) \<Rightarrow> try_addrs d host addrs None s1)"

section \<open>One group of recipients\<close>

definition map_put :: "string \<Rightarrow> string \<Rightarrow> (string \<times> string) list \<Rightarrow> (string \<times> string) list" where
  "map_put k v m = (if k \<in> fst ` set m then map (\<lambda>(x, y). if x = k then (x, v) else (x, y)) m else m @ [(k, v)])"

text \<open>\<open>for _, r := range rs { perm[r] = reason }\<close>\<close>

definition reject_all :: "string list \<Rightarrow> string \<Rightarrow> (string \<times> string) list \<Rightarrow> (string \<times> string) list" where
  "reject_all rs reason perm = fold (\<lambda>r. map_put r reason) rs perm"

fun rcpt_loop :: "peer \<Rightarrow> nat \<Rightarrow> string list \<Rightarrow> string list \<Rightarrow> (string \<times> string) list \<Rightarrow>
    go_error option \<times> string list \<times> (string \<times> string) list" where
  "rcpt_loop client n [] delivered perm = (None, delivered, perm)"
| "rcpt_loop client n (rcp # tos) delivered perm =
     (case p_rcpt client n rcp of
        Inl err \<Rightarrow>
          if isPermanent err then rcpt_loop client (n + 1) tos delivered (map_put rcp (''RCPT: '' @ err_text err) perm)
          else (Some (Wrapf (''RCPT '' @ rcp @ '': '') err), delivered, perm)
      | Inr _ \<Rightarrow> rcpt_loop client (n + 1) tos (delivered @ [rcp]) perm)"

text \<open>The connection a group uses: STARTTLS when offered, in plain text over a second connection when it fails.\<close>

definition open_session :: "relay \<Rightarrow> string \<Rightarrow> string \<Rightarrow> dstate \<Rightarrow> peer res \<times> dstate" where
  "open_session d domain host s =
     (case connect d host s of
        (Inl err, s1) \<Rightarrow> (Inl (Wrapf (''connecting to '' @ host @ '' (MX of '' @ domain @ ''): '') err), s1)
      | (Inr client, s1) \<Rightarrow>
          (case p_hello client of
             Inl err \<Rightarrow> (Inl (Wrapf (''EHLO to '' @ host @ '': '') err), s1)
           | Inr _ \<Rightarrow>
               if p_has_starttls client then
                 (case p_starttls client of
                    Inr _ \<Rightarrow> (Inr client, s1)
                  | Inl tlsErr \<Rightarrow>
                      (case connect d host s1 of
                         (Inl err, s2) \<Rightarrow> (Inl (Wrapf (''reconnecting to '' @ host @ '': '') err), s2)
                       | (Inr client2, s2) \<Rightarrow>
                           (case p_hello client2 of
                              Inl err \<Rightarrow> (Inl (Wrapf (''EHLO (plain) to '' @ host @ '': '') err), s2)
                            | Inr _ \<Rightarrow> (Inr client2, s2))))
               else (Inr client, s1)))"

text \<open>The transaction on an open connection; an accepted message is added to the log.\<close>

definition transact :: "string \<Rightarrow> peer \<Rightarrow> string list \<Rightarrow> string \<Rightarrow> string \<Rightarrow> dstate \<Rightarrow>
    (string list \<times> (string \<times> string) list) res \<times> dstate" where
  "transact host client tos sd body s =
     (case p_mail client sd of
        Inl err \<Rightarrow>
          if isPermanent err then (Inr ([], reject_all tos (''MAIL FROM: '' @ err_text err) []), s)
          else (Inl (Wrapf ''MAIL FROM: '' err), s)
      | Inr _ \<Rightarrow>
          (case rcpt_loop client 0 tos [] [] of
             (Some connErr, delivered, perm) \<Rightarrow> (Inl connErr, s)
           | (None, delivered, perm) \<Rightarrow>
               if length delivered = 0 then (Inr ([], perm), s)
               else (case p_data client of
                   Inl err \<Rightarrow> (Inl (Wrapf ''DATA: '' err), s)
                 | Inr _ \<Rightarrow>
                     (case p_write client body of
                        Inl err \<Rightarrow> (Inl (Wrapf ''writing data: '' err), s)
                      | Inr _ \<Rightarrow>
                          (case p_close client of
                             Inl err \<Rightarrow>
                               if isPermanent err then (Inr ([], reject_all delivered (''DATA: '' @ err_text err) perm), s)
                               else (Inl (Wrapf ''DATA: '' err), s)
                           | Inr _ \<Rightarrow>
                               (Inr (delivered, perm),
                                s\<lparr>mx_log := mx_log s @ [\<lparr>sm_host = host, sm_from = sd, sm_rcpts = delivered, sm_body = body\<rparr>]\<rparr>))))))"

definition deliverGroup :: "relay \<Rightarrow> string \<Rightarrow> string list \<Rightarrow> string \<Rightarrow> string \<Rightarrow> dstate \<Rightarrow>
    (string list \<times> (string \<times> string) list) res \<times> dstate" where
  "deliverGroup d domain tos sd body s0 =
     (let s = add_counter_at d ''delivery_attempts''
                (s0\<lparr>d_counts := (d_counts s0)\<lparr>DeliveryAttempts := DeliveryAttempts (d_counts s0) + 1\<rparr>\<rparr>)
      in case resolveHost d domain s of
        (Inl err, s1) \<Rightarrow>
          if isPermanent err then (Inr ([], reject_all tos (err_text err) []), s1)
          else (Inl (Wrapf (''resolving MX of '' @ domain @ '': '') err), s1)
      | (Inr host, s1) \<Rightarrow>
          (case open_session d domain host s1 of
             (Inl err, s2) \<Rightarrow> (Inl err, s2)
           | (Inr client, s2) \<Rightarrow> transact host client tos sd body s2))"

section \<open>A group is delivered, rejected or retried as a whole\<close>

definition dom_list :: "(string \<times> string) list \<Rightarrow> string set" where
  "dom_list m = fst ` set m"

lemma dom_put [simp]: "dom_list (map_put k v m) = insert k (dom_list m)"
  by (force simp: dom_list_def map_put_def image_iff)

lemma distinct_put: "distinct (map fst m) \<Longrightarrow> distinct (map fst (map_put k v m))"
  by (auto simp: map_put_def map_idI comp_def case_prod_beta if_distrib cong: if_cong)

lemma dom_reject_all [simp]: "dom_list (reject_all rs reason m) = set rs \<union> dom_list m"
  by (induction rs arbitrary: m) (auto simp: reject_all_def)

lemma dom_list_Nil [simp]: "dom_list [] = {}"
  by (simp add: dom_list_def)

lemma rcpt_loop_partition:
  "rcpt_loop client n tos delivered perm = (None, delivered', perm') \<Longrightarrow>
   set delivered' \<union> dom_list perm' = set delivered \<union> dom_list perm \<union> set tos"
  by (induction client n tos delivered perm rule: rcpt_loop.induct) (auto split: sum.splits if_splits)

lemma rcpt_loop_subset:
  "rcpt_loop client n tos delivered perm = (e, delivered', perm') \<Longrightarrow>
   set delivered' \<subseteq> set delivered \<union> set tos \<and> length delivered' \<le> length delivered + length tos"
  by (induction client n tos delivered perm rule: rcpt_loop.induct) (fastforce split: sum.splits if_splits)+

lemma transact_partition:
  "transact host client tos sd body s = (Inr (delivered, perm), s') \<Longrightarrow> set delivered \<union> dom_list perm = set tos"
  by (auto simp: transact_def split: sum.splits prod.splits if_splits option.splits dest!: rcpt_loop_partition)

lemma deliverGroup_partition:
  "deliverGroup d domain tos sd body s = (Inr (delivered, perm), s') \<Longrightarrow> set delivered \<union> dom_list perm = set tos"
  by (auto simp: deliverGroup_def Let_def split: sum.splits prod.splits if_splits dest!: transact_partition)

lemma splitByDomain_eq: "splitByDomain addrs domain = (filter (\<lambda>a. domainOf a = domain) addrs, filter (\<lambda>a. domainOf a \<noteq> domain) addrs)"
  by (induction addrs) auto

section \<open>One message\<close>

text \<open>
  The set \<open>left\<close> of the code, in the order of the group; Go ranges over it in an arbitrary order, but
  it is always empty here (\<open>deliverGroup_partition\<close>).
\<close>

definition left_of :: "string list \<Rightarrow> string list \<Rightarrow> (string \<times> string) list \<Rightarrow> string list" where
  "left_of grp delivered perm = remdups (filter (\<lambda>a. a \<notin> set delivered \<and> a \<notin> fst ` set perm) grp)"

record progress =
  remaining :: "string list"
  deliveredAny :: bool
  permCount :: nat
  retryErr :: "go_error option"
  pmsg :: message
  pst :: dstate

definition merge_perm :: "(string \<times> string) list \<Rightarrow> (string \<times> string) list \<Rightarrow> (string \<times> string) list" where
  "merge_perm perm m = fold (\<lambda>(a, reason). map_put a reason) perm m"

definition group_step :: "relay \<Rightarrow> string \<Rightarrow> progress \<Rightarrow> progress" where
  "group_step d body p =
     (let domain = domainOf (hd (remaining p));
          (grp, keep) = splitByDomain (remaining p) domain
      in case deliverGroup d domain grp (From (pmsg p)) body (pst p) of
          (Inl gErr, s1) \<Rightarrow> p\<lparr>remaining := keep @ grp, retryErr := Some gErr, pst := s1\<rparr>
        | (Inr (delivered, perm), s1) \<Rightarrow>
            (let rem = keep @ left_of grp delivered perm;
                 m = (pmsg p)\<lparr>Permanent := merge_perm perm (Permanent (pmsg p)), To := rem\<rparr>;
                 s2 = s1\<lparr>d_db := snd (Persist m (d_db s1))\<rparr>
             in p\<lparr>remaining := rem, deliveredAny := deliveredAny p \<or> length delivered > 0,
                  permCount := permCount p + length perm, pmsg := m, pst := s2\<rparr>))"

text \<open>
  The contract of \<open>deliverGroup\<close>: without a retry error, every recipient of the group has been delivered
  or permanently rejected. The loop of \<open>deliver\<close> ends because of it.
\<close>

locale group_delivery =
  fixes send :: "string \<Rightarrow> string list \<Rightarrow> 's \<Rightarrow> (string list \<times> (string \<times> string) list) res \<times> 's"
  assumes partition: "send domain grp s = (Inr (delivered, perm), s') \<Longrightarrow> set delivered \<union> dom_list perm = set grp"
begin

lemma left_empty: "send domain grp s = (Inr (delivered, perm), s') \<Longrightarrow> left_of grp delivered perm = []"
  using partition [of domain grp s delivered perm s'] by (auto simp: left_of_def dom_list_def filter_empty_conv)

end

interpretation dg: group_delivery "\<lambda>domain grp. deliverGroup d domain grp sd body" for d sd body
  by unfold_locales (rule deliverGroup_partition)

text \<open>What a turn does to the list of recipients that are left.\<close>

lemma group_step_remaining:
  assumes "remaining p \<noteq> []" and "retryErr (group_step d body p) = None"
  shows "remaining (group_step d body p) = filter (\<lambda>a. domainOf a \<noteq> domainOf (hd (remaining p))) (remaining p)"
  using assms dg.left_empty by (auto simp: group_step_def Let_def splitByDomain_eq split: prod.splits sum.splits)

lemma group_step_less:
  assumes "remaining p \<noteq> []" and "retryErr (group_step d body p) = None"
  shows "length (remaining (group_step d body p)) < length (remaining p)"
  unfolding group_step_remaining [OF assms] using assms(1) by (cases "remaining p") (auto simp: less_Suc_eq_le)

function deliver_loop :: "relay \<Rightarrow> string \<Rightarrow> progress \<Rightarrow> progress" where
  "deliver_loop d body p =
     (if remaining p = [] then p
      else let p' = group_step d body p in
        if retryErr p' \<noteq> None then p' else deliver_loop d body p')"
  by pat_completeness auto
termination
  by (relation "measure (\<lambda>(d, body, p). length (remaining p))") (auto simp: group_step_less)

declare deliver_loop.simps [simp del]

section \<open>Message text\<close>

text \<open>\<open>bytes.ReplaceAll(data, CRLF, LF)\<close>\<close>

fun replace_crlf :: "string \<Rightarrow> string" where
  "replace_crlf (a # b # s) = (if a = CR \<and> b = LF then LF # replace_crlf s else a # replace_crlf (b # s))"
| "replace_crlf s = s"

fun join_crlf :: "string list \<Rightarrow> string" where
  "join_crlf [] = []"
| "join_crlf [l] = TrimSuffix l [CR]"
| "join_crlf (l # l2 # ls) = TrimSuffix l [CR] @ crlf @ join_crlf (l2 # ls)"

definition normalizeCRLF :: "string \<Rightarrow> string" where
  "normalizeCRLF data =
     (let lines = SplitByte LF (replace_crlf data);
          lines = (if length lines > 0 \<and> last lines = [] then butlast lines else lines)
      in join_crlf lines @ crlf)"

definition prepareBody :: "relay \<Rightarrow> message \<Rightarrow> dstate \<Rightarrow> string res \<times> dstate" where
  "prepareBody d m s =
     (let body = normalizeCRLF (Data m);
          fromDomain = domainOf (From m)
      in case GetDKIM fromDomain (d_db s) of
          (Inl err, db1) \<Rightarrow> (Inr body, s\<lparr>d_db := db1\<rparr>)
        | (Inr None, db1) \<Rightarrow> (Inr body, s\<lparr>d_db := db1\<rparr>)
        | (Inr (Some key), db1) \<Rightarrow>
            (case ParseSigner (r_crypto d) (KeyData key) of
               Inl err \<Rightarrow> (Inr body, s\<lparr>d_db := db1\<rparr>)
             | Inr sg \<Rightarrow>
                 (case Sign (r_crypto d) body fromDomain (Selector key) sg of
                    Inl err \<Rightarrow> (Inr body, s\<lparr>d_db := db1\<rparr>)
                  | Inr sbody \<Rightarrow> (Inr sbody, s\<lparr>d_db := db1\<rparr>))))"

section \<open>Retry delay\<close>

text \<open>\<open>x << uint(n)\<close> on \<open>int64\<close>: bits are lost at the top, and a count of 64 or more, as a negative count becomes, gives zero.\<close>

definition shl64 :: "int \<Rightarrow> int \<Rightarrow> int" where
  "shl64 x n = (if n < 0 \<or> n \<ge> 64 then 0 else sint (push_bit (nat n) (word_of_int x :: 64 word)))"

definition backoff :: "relay \<Rightarrow> int \<Rightarrow> int" where
  "backoff d attempt =
     (let base = RetryBase (Delivery (r_cfg d));
          max' = RetryMax (Delivery (r_cfg d));
          shift = attempt - 1;
          shift = (if shift > 62 then 62 else shift);
          delay = shl64 base shift
      in if delay \<le> 0 \<or> delay > max' then max' else delay)"

section \<open>The outcome of a message\<close>

definition permSummary :: "relay \<Rightarrow> (string \<times> string) list \<Rightarrow> string" where
  "permSummary d perm =
     (if length perm = 0 then []
      else let parts = map (\<lambda>(addr, reason). addr @ '': '' @ reason) (map_range d perm);
               parts = (if length parts > 3 then take 3 parts @ [''...''] else parts)
           in Join parts ''; '')"

definition deadLetter :: "relay \<Rightarrow> string \<Rightarrow> string \<Rightarrow> dstate \<Rightarrow> dstate" where
  "deadLetter d mid reason s =
     (case DeadLetter mid reason (d_db s) of
        (Inl err, db1) \<Rightarrow> s\<lparr>d_db := db1\<rparr>
      | (Inr _, db1) \<Rightarrow>
          (case ask s of (n, s1) \<Rightarrow>
             let s2 = s1\<lparr>d_db := MarkDead (r_rec d) (Now d n div 1000000) mid reason db1,
                         d_counts := (d_counts s1)\<lparr>MessagesDead := MessagesDead (d_counts s1) + 1\<rparr>\<rparr>
             in add_counter_at d ''messages_dead'' s2))"

definition deliver_retry :: "relay \<Rightarrow> go_error \<Rightarrow> message \<Rightarrow> dstate \<Rightarrow> dstate" where
  "deliver_retry d err m0 s =
     (let m = m0\<lparr>LastError := err_text err, Attempts := Attempts m0 + 1\<rparr> in
      if Attempts m \<ge> MaxAttempts (Delivery (r_cfg d))
      then deadLetter d (ID m) (''exhausted '' @ Itoa (Attempts m) @ '' attempts: '' @ err_text err) s
      else case ask s of (n, s1) \<Rightarrow>
        let m1 = m\<lparr>NextAttempt := Some (Now d n + backoff d (Attempts m))\<rparr>;
            db1 = snd (Persist m1 (d_db s1));
            db2 = snd (Release (ID m) db1)
        in s1\<lparr>d_db := db2\<rparr>)"

definition deliver_done :: "relay \<Rightarrow> progress \<Rightarrow> dstate" where
  "deliver_done d p =
     (let m = pmsg p; s = pst p in
      if \<not> deliveredAny p \<and> length (To m) = 0 \<and> permCount p > 0
      then deadLetter d (ID m) (''all recipients rejected the message permanently: '' @ permSummary d (Permanent m)) s
      else case Succeed (ID m) (d_db s) of
          (Inl err, db1) \<Rightarrow> s\<lparr>d_db := db1\<rparr>
        | (Inr _, db1) \<Rightarrow>
            (case ask s of (n, s1) \<Rightarrow>
               let s2 = s1\<lparr>d_db := MarkDelivered (r_rec d) (Now d n div 1000000) (ID m) db1\<rparr> in
               if permCount p > 0 then s2
               else add_counter_at d ''messages_delivered''
                      (s2\<lparr>d_counts := (d_counts s2)\<lparr>MessagesDelivered := MessagesDelivered (d_counts s2) + 1\<rparr>\<rparr>)))"

definition start_progress :: "message \<Rightarrow> dstate \<Rightarrow> progress" where
  "start_progress m s = \<lparr>remaining = To m, deliveredAny = False, permCount = 0, retryErr = None, pmsg = m, pst = s\<rparr>"

definition deliver :: "relay \<Rightarrow> message \<Rightarrow> dstate \<Rightarrow> dstate" where
  "deliver d m s0 =
     (case ask s0 of (n, s1) \<Rightarrow>
      (case prepareBody d m (s1\<lparr>d_db := BumpAttempt (r_rec d) (Now d n div 1000000) (ID m) (d_db s1)\<rparr>) of
         (Inl err, s2) \<Rightarrow> deadLetter d (ID m) (''preparation: '' @ err_text err) s2
       | (Inr body, s2) \<Rightarrow>
           (let p0 = deliver_loop d body (start_progress m s2);
                p = p0\<lparr>pmsg := (pmsg p0)\<lparr>To := remaining p0\<rparr>\<rparr>
            in case retryErr p of
                Some err \<Rightarrow> deliver_retry d err (pmsg p) (pst p)
              | None \<Rightarrow> deliver_done d p)))"

section \<open>Batches\<close>

definition batch_size :: "relay \<Rightarrow> int" where
  "batch_size d = (let batch = Concurrency (Delivery (r_cfg d)) * 2 in if batch < 2 then 2 else batch)"

text \<open>
  The messages of a batch are delivered by one goroutine each; they work on different rows of the
  queue. The model delivers them one after another, in an order \<open>sched\<close> that the scheduler chooses.
\<close>

definition processBatch :: "relay \<Rightarrow> (message list \<Rightarrow> message list) \<Rightarrow> dstate \<Rightarrow> dstate" where
  "processBatch d sched s =
     (case ask s of (n, s1) \<Rightarrow>
      (case NextDue (Now d n) (batch_size d) (d_db s1) of
         (Inl err, db1) \<Rightarrow> s1\<lparr>d_db := db1\<rparr>
       | (Inr msgs, db1) \<Rightarrow> fold (deliver d) (sched msgs) (s1\<lparr>d_db := db1\<rparr>)))"

datatype run_event = CtxDone | Tick | Notified

text \<open>\<open>Run\<close> over the events its \<open>select\<close> receives; a ticker with an interval that is not positive is a panic.\<close>

fun run_loop :: "relay \<Rightarrow> (message list \<Rightarrow> message list) \<Rightarrow> run_event list \<Rightarrow> dstate \<Rightarrow> dstate" where
  "run_loop d sched [] s = s"
| "run_loop d sched (CtxDone # evs) s = processBatch d sched s"
| "run_loop d sched (Tick # evs) s = run_loop d sched evs (processBatch d sched s)"
| "run_loop d sched (Notified # evs) s = run_loop d sched evs (processBatch d sched (s\<lparr>d_db := (d_db s)\<lparr>notify := False\<rparr>\<rparr>))"

definition Run :: "relay \<Rightarrow> (message list \<Rightarrow> message list) \<Rightarrow> run_event list \<Rightarrow> dstate \<Rightarrow> dstate res" where
  "Run d sched evs s =
     (if PollInterval (Delivery (r_cfg d)) \<le> 0 then Inl (Panic ''non-positive interval for NewTicker'')
      else Inr (run_loop d sched evs s))"

end
