(* ===== verification/Dnscheck.thy ===== *)
theory Dnscheck
  imports Relay
begin

text \<open>
  The DNS diagnostics of a sending domain, from \<open>internal/dnscheck/dnscheck.go\<close>: SPF, DKIM, DMARC, MX
  and reverse DNS. The resolver is an interface of the code and a record of functions here.
\<close>

section \<open>Types\<close>

record resolver =
  LookupTXT :: "string \<Rightarrow> string list res"
  LookupMX :: "string \<Rightarrow> mx list res"
  LookupHostname :: "string \<Rightarrow> string list res"
  LookupAddr :: "string \<Rightarrow> string list res"

datatype status = StatusPass | StatusWarn | StatusFail | StatusInfo

record check_result =
  Name :: string
  Label :: string
  Status :: status
  Verdict :: string
  Found :: "string list"
  Expected :: string

record report =
  rep_Domain :: string
  rep_Selector :: string
  rep_Hostname :: string
  OK :: bool
  Passed :: nat
  Warnings :: nat
  Failed :: nat
  Checks :: "check_result list"

record check_request =
  req_Domain :: string
  req_Selector :: string
  PrivateKeyPEM :: string
  req_Hostname :: string

text \<open>A text in single quotes.\<close>

definition sq :: "string \<Rightarrow> string" where
  "sq s = CHR 0x27 # s @ [CHR 0x27]"

section \<open>Records\<close>

fun tag_loop :: "string list \<Rightarrow> string \<Rightarrow> string" where
  "tag_loop [] key = []"
| "tag_loop (part # parts) key = (case Cut part CHR ''='' of
       Some (k, v) \<Rightarrow> if EqualFold (TrimSpace k) key then TrimSpace v else tag_loop parts key
     | None \<Rightarrow> tag_loop parts key)"

definition tagValue :: "string \<Rightarrow> string \<Rightarrow> string" where
  "tagValue rcd key = tag_loop (SplitByte CHR '';'' rcd) key"

definition normalizeB64 :: "string \<Rightarrow> string" where
  "normalizeB64 s = filter (\<lambda>r. \<not> (r = CHR '' '' \<or> r = TAB \<or> r = LF \<or> r = CR)) s"

definition normalizeDomain :: "string \<Rightarrow> string" where
  "normalizeDomain d = ToLower (TrimSuffix (TrimSpace d) ''.'')"

section \<open>SPF\<close>

definition spf_lookup :: "string \<Rightarrow> bool" where
  "spf_lookup name \<longleftrightarrow> name = ''a'' \<or> HasPrefix name ''a:'' \<or> HasPrefix name ''a/'' \<or>
     name = ''mx'' \<or> HasPrefix name ''mx:'' \<or> name = ''ptr'' \<or> HasPrefix name ''ptr:'' \<or>
     HasPrefix name ''include:'' \<or> HasPrefix name ''exists:'' \<or> HasPrefix name ''redirect=''"

fun spf_loop :: "string list \<Rightarrow> string \<Rightarrow> nat \<Rightarrow> string \<times> nat" where
  "spf_loop [] qualifier lookups = (qualifier, lookups)"
| "spf_loop (f # fs) qualifier lookups =
     (let tok = ToLower f; name = TrimLeft tok ''+-~?'' in
      if name = ''all'' then
        (let q = TrimSuffix tok ''all'' in spf_loop fs ((if q = [] then ''+'' else q) @ ''all'') lookups)
      else spf_loop fs qualifier (if spf_lookup name then lookups + 1 else lookups))"

definition spfTerms :: "string \<Rightarrow> string \<times> nat" where
  "spfTerms rcd = spf_loop (Fields rcd) [] 0"

definition spf_records :: "string list \<Rightarrow> string list" where
  "spf_records recs = map TrimSpace (filter (\<lambda>txt. HasPrefix (ToLower (TrimSpace txt)) ''v=spf1'') recs)"

definition spf_verdict :: "string \<Rightarrow> status \<times> string" where
  "spf_verdict qualifier =
     (if qualifier = ''-all'' then (StatusPass, ''SPF record found with a hard fail ('' @ sq ''-all'' @ '')'')
      else if qualifier = ''~all'' then
        (StatusWarn, ''SPF ends with '' @ sq ''~all'' @ '' (soft fail); switch to '' @ sq ''-all'' @ '' once you confirm the record is right'')
      else if qualifier = ''+all'' then
        (StatusFail, ''SPF ends with '' @ sq ''+all'' @ '' (or a bare '' @ sq ''all'' @ ''), authorizing the whole internet; use '' @ sq ''-all'')
      else if qualifier = ''?all'' then
        (StatusFail, ''SPF ends with '' @ sq ''?all'' @ '' (neutral), which gives no protection; use '' @ sq ''-all'')
      else (StatusWarn, ''SPF record has no '' @ sq ''all'' @ '' mechanism, so unlisted senders are neither authorized nor rejected''))"

definition checkSPF :: "resolver \<Rightarrow> string \<Rightarrow> check_result" where
  "checkSPF r domain =
     (let c = \<lparr>Name = ''spf'', Label = ''SPF'', Status = StatusFail, Verdict = [], Found = [], Expected = []\<rparr> in
      case LookupTXT r domain of
        Inl err \<Rightarrow> c\<lparr>Status := StatusWarn, Verdict := ''cannot query TXT for '' @ domain @ '': '' @ err_text err\<rparr>
      | Inr recs \<Rightarrow>
          (case spf_records recs of
             [] \<Rightarrow> c\<lparr>Verdict := ''no SPF record on the sending domain; publish one authorizing this server'',
                     Expected := ''v=spf1 ip4:<server-ip> -all''\<rparr>
           | [rcd] \<Rightarrow>
               (let (qualifier, lookups) = spfTerms rcd;
                    (st, msg) = spf_verdict qualifier;
                    c1 = c\<lparr>Found := [rcd], Status := st, Verdict := msg\<rparr>
                in if lookups > 10
                   then c1\<lparr>Status := StatusFail, Verdict := ''SPF uses '' @ Itoa (int lookups) @
                          '' DNS lookups; the limit is 10, so receivers treat it as a permanent error''\<rparr>
                   else c1)
           | spf \<Rightarrow> c\<lparr>Found := spf,
               Verdict := ''multiple v=spf1 records on the same name; receivers treat this as a permanent error (merge them into one)''\<rparr>))"

section \<open>DKIM\<close>

definition dkim_record_name :: "string \<Rightarrow> string \<Rightarrow> string" where
  "dkim_record_name selector domain = selector @ ''._domainkey.'' @ domain"

definition dkim_candidate :: "string \<Rightarrow> bool" where
  "dkim_candidate txt \<longleftrightarrow> HasPrefix (ToUpper (TrimSpace txt)) ''V=DKIM1'' \<or> Contains txt ''p=''"

text \<open>The record that the stored key should have; no key is the empty record.\<close>

definition expected_record :: "cryptolib \<Rightarrow> string \<Rightarrow> string res" where
  "expected_record cl keyPEM =
     (if TrimSpace keyPEM = [] then Inr []
      else case ParseSigner cl keyPEM of
          Inl err \<Rightarrow> Inl (Wrapf ''the DKIM private key stored in Carteiro is invalid: '' err)
        | Inr sg \<Rightarrow> (case PublicRecord cl sg of
              Inl err \<Rightarrow> Inl (Wrapf ''cannot derive the public key: '' err) | Inr txt \<Rightarrow> Inr txt))"

definition checkDKIM :: "cryptolib \<Rightarrow> resolver \<Rightarrow> string \<Rightarrow> string \<Rightarrow> string \<Rightarrow> check_result" where
  "checkDKIM cl r domain selector keyPEM =
     (let c = \<lparr>Name = ''dkim'', Label = ''DKIM'', Status = StatusFail, Verdict = [], Found = [], Expected = []\<rparr> in
      if selector = [] then
        c\<lparr>Status := StatusInfo, Verdict := ''no selector for this domain; add a DKIM key so outbound mail is signed''\<rparr>
      else
        let name = dkim_record_name selector domain;
            missing = ''no DKIM record at '' @ name @ ''; publish the record below''
        in case expected_record cl keyPEM of
          Inl err \<Rightarrow> c\<lparr>Status := StatusWarn, Verdict := err_text err\<rparr>
        | Inr expected \<Rightarrow>
            (let c = c\<lparr>Expected := expected\<rparr> in
             case LookupTXT r name of
               Inl err \<Rightarrow> c\<lparr>Verdict := missing\<rparr>
             | Inr recs \<Rightarrow>
                 (let found = (case find dkim_candidate recs of None \<Rightarrow> [] | Some txt \<Rightarrow> TrimSpace txt) in
                  if found = [] then c\<lparr>Verdict := missing\<rparr>
                  else let c = c\<lparr>Found := [found]\<rparr> in
                    if expected = [] then
                      c\<lparr>Status := StatusWarn,
                        Verdict := ''DKIM record found, but there is no private key stored in Carteiro to compare it with''\<rparr>
                    else if tagValue found ''p'' = [] then
                      c\<lparr>Verdict := ''the DKIM record has an empty p= (the key is revoked)''\<rparr>
                    else if normalizeB64 (tagValue found ''p'') \<noteq> normalizeB64 (tagValue expected ''p'') then
                      c\<lparr>Verdict := ''the p= published in DNS does not match the private key stored in Carteiro; re-publish the record below''\<rparr>
                    else c\<lparr>Status := StatusPass, Verdict := ''the DKIM record matches the private key stored in Carteiro''\<rparr>)))"

section \<open>DMARC, MX and reverse DNS\<close>

definition checkDMARC :: "resolver \<Rightarrow> string \<Rightarrow> check_result" where
  "checkDMARC r domain =
     (let c = \<lparr>Name = ''dmarc'', Label = ''DMARC'', Status = StatusFail, Verdict = [], Found = [], Expected = []\<rparr>;
          name = ''_dmarc.'' @ domain;
          missing = c\<lparr>Verdict := ''no DMARC record at '' @ name @ ''; publish one so receivers know how to treat failures'',
                     Expected := ''v=DMARC1; p=none; rua=mailto:postmaster@'' @ domain\<rparr>
      in case LookupTXT r name of
          Inl err \<Rightarrow> missing
        | Inr recs \<Rightarrow>
            (case find (\<lambda>txt. HasPrefix (ToUpper (TrimSpace txt)) ''V=DMARC1'') recs of
               None \<Rightarrow> missing
             | Some txt \<Rightarrow>
                 (let found = TrimSpace txt; c = c\<lparr>Found := [found]\<rparr>; policy = ToLower (tagValue found ''p'') in
                  if policy = ''reject'' then c\<lparr>Status := StatusPass, Verdict := ''DMARC policy is p=reject (full enforcement)''\<rparr>
                  else if policy = ''quarantine''
                  then c\<lparr>Status := StatusPass, Verdict := ''DMARC policy is p=quarantine (failing mail goes to spam)''\<rparr>
                  else c\<lparr>Status := StatusWarn,
                    Verdict := ''DMARC policy is none/missing (monitoring only); move to quarantine or reject once reports look clean''\<rparr>)))"

definition checkMX :: "resolver \<Rightarrow> string \<Rightarrow> check_result" where
  "checkMX r domain =
     (let c = \<lparr>Name = ''mx'', Label = ''MX (bounces)'', Status = StatusWarn, Verdict = [], Found = [], Expected = []\<rparr>;
          none = c\<lparr>Verdict := ''no MX records for the sending domain; mail still sends, but bounces and DMARC reports cannot be delivered''\<rparr>
      in case LookupMX r domain of
          Inl err \<Rightarrow> none
        | Inr mxs \<Rightarrow>
            if length mxs = 0 then none
            else c\<lparr>Status := StatusPass,
              Verdict := Itoa (int (length mxs)) @ '' MX record(s); bounces and DMARC reports can be delivered'',
              Found := map (\<lambda>m. Itoa (Pref m) @ '' '' @ TrimSuffix (Host m) ''.'') mxs\<rparr>)"

definition ptr_names :: "resolver \<Rightarrow> string list \<Rightarrow> string list" where
  "ptr_names r ips = concat (map (\<lambda>ip. case LookupAddr r ip of Inl err \<Rightarrow> [] | Inr names \<Rightarrow> map (\<lambda>n. TrimSuffix n ''.'') names) ips)"

definition checkReverse :: "resolver \<Rightarrow> string \<Rightarrow> check_result" where
  "checkReverse r hostname =
     (let c = \<lparr>Name = ''ptr'', Label = ''Reverse DNS (PTR)'', Status = StatusInfo, Verdict = [], Found = [], Expected = []\<rparr> in
      if hostname = [] then
        c\<lparr>Verdict := ''hostname is not configured; set '' @ sq ''hostname'' @ '' to enable the PTR check''\<rparr>
      else
        let c = c\<lparr>Expected := hostname\<rparr>;
            unknown = c\<lparr>Status := StatusWarn, Verdict := ''cannot resolve the configured hostname '' @ hostname\<rparr>
        in case LookupHostname r hostname of
          Inl err \<Rightarrow> unknown
        | Inr ips \<Rightarrow>
            if length ips = 0 then unknown
            else let c = c\<lparr>Found := ptr_names r ips\<rparr> in
              if length (Found c) = 0 then
                c\<lparr>Status := StatusWarn,
                  Verdict := ''no PTR record for '' @ hd ips @ ''; set reverse DNS to '' @ hostname @ '' at the IP provider''\<rparr>
              else if list_ex (\<lambda>n. EqualFold n hostname) (Found c) then
                c\<lparr>Status := StatusPass, Verdict := ''PTR matches the configured hostname (forward-confirmed reverse DNS)''\<rparr>
              else c\<lparr>Status := StatusWarn,
                  Verdict := ''the PTR does not point back to '' @ hostname @ ''; receivers treat this as a spam signal''\<rparr>)"

section \<open>The report\<close>

definition count_status :: "status \<Rightarrow> check_result list \<Rightarrow> nat" where
  "count_status st cs = length (filter (\<lambda>c. Status c = st) cs)"

definition Check :: "cryptolib \<Rightarrow> resolver \<Rightarrow> resolver option \<Rightarrow> check_request \<Rightarrow> report" where
  "Check cl DefaultResolver r0 req =
     (let r = (case r0 of None \<Rightarrow> DefaultResolver | Some r \<Rightarrow> r);
          domain = normalizeDomain (req_Domain req);
          selector = TrimSpace (req_Selector req);
          hostname = TrimSpace (req_Hostname req);
          checks = [checkSPF r domain, checkDKIM cl r domain selector (PrivateKeyPEM req), checkDMARC r domain,
                    checkMX r domain, checkReverse r hostname];
          failed = count_status StatusFail checks
      in \<lparr>rep_Domain = domain, rep_Selector = selector, rep_Hostname = hostname, OK = (failed = 0),
          Passed = count_status StatusPass checks, Warnings = count_status StatusWarn checks, Failed = failed, Checks = checks\<rparr>)"

section \<open>The verdicts\<close>

text \<open>The public key that belongs to a private key.\<close>

definition public_key :: "cryptolib \<Rightarrow> signer \<Rightarrow> string res" where
  "public_key cl sg = (case sg of RSASigner key \<Rightarrow> MarshalPKIXPublicKey cl key
     | Ed25519Signer key \<Rightarrow> Inr (Ed25519Public cl key) | OtherSigner \<Rightarrow> Inl (Errorf ''unsupported public key type''))"

lemma b64_char_not_semicolon: "b64_char n \<noteq> CHR '';''"
proof -
  have "k < 256 \<Longrightarrow> k \<noteq> 59 \<Longrightarrow> (char_of k :: char) \<noteq> CHR '';''" for k :: nat
    by (auto simp: char_of_eq_iff take_bit_eq_mod)
  then show ?thesis by (auto simp: b64_char_def)
qed

lemma EncodeToString_no_semicolon: "CHR '';'' \<notin> set (EncodeToString s)"
  using b64_char_not_semicolon [THEN not_sym]
  by (induction s rule: EncodeToString.induct) (simp_all add: Let_def)

lemma normalizeB64_encoded [simp]: "normalizeB64 (EncodeToString s) = EncodeToString s"
  using EncodeToString_no_space [of _ s] by (auto simp: normalizeB64_def is_space_def intro!: filter_True)

lemma TrimSpace_encoded [simp]: "TrimSpace (EncodeToString s) = EncodeToString s"
  using EncodeToString_no_space by (intro TrimSpace_free) (simp add: list_all_iff)

lemma tagValue_record:
  assumes "CHR '';'' \<notin> set kind"
  shows "tagValue (''v=DKIM1; k='' @ kind @ ''; p='' @ EncodeToString pub) ''p'' = EncodeToString pub"
proof -
  have parts: "SplitByte CHR '';'' (''v=DKIM1; k='' @ kind @ ''; p='' @ EncodeToString pub) =
      [''v=DKIM1'', '' k='' @ kind, '' p='' @ EncodeToString pub]"
    using assms EncodeToString_no_semicolon [of pub] SplitByte_append [of "CHR '';''" "''v=DKIM1''"]
      SplitByte_append [of "CHR '';''" "'' k='' @ kind"] by (simp add: SplitByte_free)
  have cuts: "Cut ''v=DKIM1'' CHR ''='' = Some (''v'', ''DKIM1'')" "Cut ('' k='' @ kind) CHR ''='' = Some ('' k'', kind)"
      "Cut ('' p='' @ EncodeToString pub) CHR ''='' = Some ('' p'', EncodeToString pub)"
    using Cut_append [of "CHR ''=''" "''v''"] Cut_append [of "CHR ''=''" "'' k''" kind]
      Cut_append [of "CHR ''=''" "'' p''" "EncodeToString pub"] by simp_all
  have keys: "\<not> EqualFold (TrimSpace ''v'') ''p''" "\<not> EqualFold (TrimSpace '' k'') ''p''" "EqualFold (TrimSpace '' p'') ''p''"
    by code_simp+
  show ?thesis unfolding tagValue_def parts by (simp add: cuts [simplified] keys)
qed

lemma expected_record_key:
  assumes "expected_record cl keyPEM = Inr expected" and "expected \<noteq> []"
  shows "\<exists>sg pub. ParseSigner cl keyPEM = Inr sg \<and> public_key cl sg = Inr pub \<and> tagValue expected ''p'' = EncodeToString pub"
  using assms tagValue_record [of "''rsa''"] tagValue_record [of "''ed25519''"]
  by (auto simp: expected_record_def PublicRecord_def public_key_def split: if_splits sum.splits signer.splits)

lemma expected_record_ok:
  assumes "TrimSpace keyPEM \<noteq> []" and "ParseSigner cl keyPEM = Inr sg" and "public_key cl sg = Inr pub"
  shows "\<exists>expected. expected_record cl keyPEM = Inr expected \<and> expected \<noteq> [] \<and> tagValue expected ''p'' = EncodeToString pub"
  using assms tagValue_record [of "''rsa''"] tagValue_record [of "''ed25519''"]
  by (cases sg) (auto simp: expected_record_def PublicRecord_def public_key_def split: sum.splits)

text \<open>The key that the first DKIM record at a name publishes.\<close>

definition published_key :: "resolver \<Rightarrow> string \<Rightarrow> string" where
  "published_key r name = (case LookupTXT r name of Inl err \<Rightarrow> []
     | Inr recs \<Rightarrow> (case find dkim_candidate recs of None \<Rightarrow> [] | Some txt \<Rightarrow> tagValue (TrimSpace txt) ''p''))"

lemma checkDKIM_status:
  "Status (checkDKIM cl r domain selector keyPEM) =
     (if selector = [] then StatusInfo
      else case expected_record cl keyPEM of
          Inl err \<Rightarrow> StatusWarn
        | Inr expected \<Rightarrow>
            (case LookupTXT r (dkim_record_name selector domain) of
               Inl err \<Rightarrow> StatusFail
             | Inr recs \<Rightarrow>
                 (let found = (case find dkim_candidate recs of None \<Rightarrow> [] | Some txt \<Rightarrow> TrimSpace txt) in
                  if found = [] then StatusFail else if expected = [] then StatusWarn
                  else if tagValue found ''p'' = [] then StatusFail
                  else if normalizeB64 (tagValue found ''p'') \<noteq> normalizeB64 (tagValue expected ''p'') then StatusFail
                  else StatusPass)))"
  by (simp add: checkDKIM_def Let_def del: append.simps split: sum.split)

lemma tagValue_Nil: "tagValue [] key = []"
  by (simp add: tagValue_def Cut_def)

lemma checkDKIM_pass:
  "Status (checkDKIM cl r domain selector keyPEM) = StatusPass \<longleftrightarrow>
     selector \<noteq> [] \<and> published_key r (dkim_record_name selector domain) \<noteq> [] \<and>
     (\<exists>expected. expected_record cl keyPEM = Inr expected \<and> expected \<noteq> [] \<and>
        normalizeB64 (published_key r (dkim_record_name selector domain)) = normalizeB64 (tagValue expected ''p''))"
  by (auto simp: checkDKIM_status published_key_def Let_def tagValue_Nil split: sum.split option.split)

text \<open>
  C32. The DKIM diagnosis passes exactly when a selector is given, a private key is stored and readable,
  and the key that DNS publishes under the selector is, up to white space, the base64 text of the
  public key that belongs to it.
\<close>

theorem checkDKIM_pass_iff:
  "Status (checkDKIM cl r domain selector keyPEM) = StatusPass \<longleftrightarrow>
     selector \<noteq> [] \<and> TrimSpace keyPEM \<noteq> [] \<and> published_key r (dkim_record_name selector domain) \<noteq> [] \<and>
     (\<exists>sg pub. ParseSigner cl keyPEM = Inr sg \<and> public_key cl sg = Inr pub \<and>
        normalizeB64 (published_key r (dkim_record_name selector domain)) = EncodeToString pub)"
  (is "?pass \<longleftrightarrow> ?spec")
proof
  assume ?pass
  then obtain expected where "expected_record cl keyPEM = Inr expected" "expected \<noteq> []"
      "normalizeB64 (published_key r (dkim_record_name selector domain)) = normalizeB64 (tagValue expected ''p'')"
    and rest: "selector \<noteq> []" "published_key r (dkim_record_name selector domain) \<noteq> []"
    unfolding checkDKIM_pass by blast
  moreover from this(1,2) have "TrimSpace keyPEM \<noteq> []" by (auto simp: expected_record_def)
  ultimately show ?spec using expected_record_key [of cl keyPEM expected] by auto
next
  assume spec: ?spec
  then obtain sg pub where key: "ParseSigner cl keyPEM = Inr sg" "public_key cl sg = Inr pub"
      "normalizeB64 (published_key r (dkim_record_name selector domain)) = EncodeToString pub" by blast
  then show ?pass unfolding checkDKIM_pass using expected_record_ok [OF _ key(1,2)] spec by auto
qed

text \<open>
  The SPF diagnosis passes exactly when the domain has one SPF record, the last \<open>all\<close> in it is a hard
  fail, and it names at most ten mechanisms that need a lookup.
\<close>

lemma spf_verdict_pass: "fst (spf_verdict q) = StatusPass \<longleftrightarrow> q = ''-all''"
  by (auto simp: spf_verdict_def)

lemma checkSPF_status:
  "Status (checkSPF r domain) = (case LookupTXT r domain of
       Inl err \<Rightarrow> StatusWarn
     | Inr recs \<Rightarrow> (case spf_records recs of
           [rcd] \<Rightarrow> if snd (spfTerms rcd) > 10 then StatusFail else fst (spf_verdict (fst (spfTerms rcd)))
         | _ \<Rightarrow> StatusFail))"
  by (simp add: checkSPF_def Let_def case_prod_beta del: append.simps split: sum.split list.split)

lemma checkSPF_pass_iff:
  "Status (checkSPF r domain) = StatusPass \<longleftrightarrow>
     (\<exists>recs rcd n. LookupTXT r domain = Inr recs \<and> spf_records recs = [rcd] \<and> spfTerms rcd = (''-all'', n) \<and> n \<le> 10)"
  by (auto simp: checkSPF_status spf_verdict_pass prod_eq_iff split: sum.split list.split)

text \<open>
  The report counts every diagnosis once: those that pass, those that warn, those that fail and
  those that could not be evaluated add up to five, and the report is good exactly when none failed.
\<close>

lemma Check_report:
  "OK (Check cl dr r req) = (\<forall>c\<in>set (Checks (Check cl dr r req)). Status c \<noteq> StatusFail) \<and>
   Passed (Check cl dr r req) + Warnings (Check cl dr r req) + Failed (Check cl dr r req) +
     count_status StatusInfo (Checks (Check cl dr r req)) = 5 \<and> length (Checks (Check cl dr r req)) = 5"
proof -
  have "count_status StatusPass cs + count_status StatusWarn cs + count_status StatusFail cs + count_status StatusInfo cs = length cs" for cs
  proof (induction cs)
    case (Cons c cs)
    then show ?case by (cases "Status c") (simp_all add: count_status_def)
  qed (simp add: count_status_def)
  from this [of "Checks (Check cl dr r req)"] show ?thesis
    by (auto simp: Check_def Let_def count_status_def filter_empty_conv)
qed

end
