(* ===== verification/Api.thy ===== *)
theory Api
  imports Dnscheck
begin

text \<open>
  The administrative HTTP API of \<open>internal/api/api.go\<close>: routing, the bearer token, and every handler.

  A request is what \<open>net/http\<close> hands to the multiplexer: its method, the segments of its clean path
  (already unescaped; a trailing slash is an empty last segment), the query, the \<open>Authorization\<close> header
  and the body. \<open>encoding/json\<close> is the record \<open>jsonlib\<close>: what decoding a body into a request structure
  gives. A response is its status code and the Go value that \<open>writeJSON\<close> encodes. The clock, the random
  bytes and the answers of DNS at the n-th request come with the server record.
\<close>

section \<open>Requests and responses\<close>

record create_account_req =
  caEmail :: string
  caPassword :: string
  caAllowedFrom :: "string list"

record update_account_req =
  uaAllowedFrom :: "string list option"
  uaPassword :: "string option"

record create_dkim_req =
  cdDomain :: string
  cdSelector :: string
  cdKeyData :: string

record send_req =
  srFrom :: string
  srTo :: "string list"
  srSubject :: string
  srText :: string
  srHTML :: string

record jsonlib =
  decode_create_account :: "string \<Rightarrow> create_account_req res"
  decode_update_account :: "string \<Rightarrow> update_account_req res"
  decode_create_dkim :: "string \<Rightarrow> create_dkim_req res"
  decode_send :: "string \<Rightarrow> send_req res"

record http_req =
  Method :: string
  Path :: "string list"
  Query :: "string \<Rightarrow> string"
  Authorization :: string
  Body :: string
  PathValue :: string

datatype jval = JStr string | JBool bool | JStrs "string list"

record stats_response =
  srVersion :: string
  srUptimeSeconds :: int
  srCounters :: "(string \<times> int) list"
  srQueue :: stats

datatype payload =
    Object "(string \<times> jval) list"
  | AccountViews "(string \<times> string list) list"
  | DKIMViews "(string \<times> string) list"
  | QueueStats stats
  | Messages "message_lite list"
  | Summaries "summary list"
  | Details detail
  | DNSReport report
  | StatsDoc stats_response
  | PlainText string
  | SpecDoc string

record http_resp =
  Code :: int
  Payload :: payload

definition writeJSON :: "int \<Rightarrow> payload \<Rightarrow> http_resp" where
  "writeJSON code v = \<lparr>Code = code, Payload = v\<rparr>"

definition writeError :: "int \<Rightarrow> string \<Rightarrow> http_resp" where
  "writeError code msg = writeJSON code (Object [(''error'', JStr msg)])"

section \<open>The server\<close>

record api_server =
  token :: string
  a_rec :: "recorder option"
  version :: string
  hostname :: string
  started :: int
  maxMessageSize :: int
  maxRecipients :: int
  dns :: "nat \<Rightarrow> resolver"
  a_bcrypt :: bcrypt
  a_crypto :: cryptolib
  a_json :: jsonlib
  a_mime :: mimelib
  a_clock :: "nat \<Rightarrow> tick"
  a_boundary :: "nat \<Rightarrow> string res"
  openAPISpec :: string

record api_state =
  a_db :: store
  a_counts :: metrics
  a_ticks :: nat

type_synonym handler = "api_server \<Rightarrow> http_req \<Rightarrow> api_state \<Rightarrow> http_resp \<times> api_state"

text \<open>The parts of the server that are not arguments of \<open>New\<close>: libraries and the outside world.\<close>

record api_env =
  env_bcrypt :: bcrypt
  env_crypto :: cryptolib
  env_json :: jsonlib
  env_mime :: mimelib
  env_clock :: "nat \<Rightarrow> tick"
  env_boundary :: "nat \<Rightarrow> string res"
  env_spec :: string
  DefaultResolver :: "nat \<Rightarrow> resolver"
  env_started :: int

definition NewAPI :: "api_env \<Rightarrow> api_cfg \<Rightarrow> recorder option \<Rightarrow> string \<Rightarrow> string \<Rightarrow> int \<Rightarrow> int \<Rightarrow> api_server" where
  "NewAPI env cf rc ver host maxSize maxRcpts =
     \<lparr>token = Token cf, a_rec = rc, version = ver, hostname = TrimSpace host, started = env_started env,
      maxMessageSize = (if maxSize \<le> 0 then 26214400 else maxSize),
      maxRecipients = (if maxRcpts \<le> 0 then 100 else maxRcpts),
      dns = DefaultResolver env, a_bcrypt = env_bcrypt env, a_crypto = env_crypto env, a_json = env_json env,
      a_mime = env_mime env, a_clock = env_clock env, a_boundary = env_boundary env, openAPISpec = env_spec env\<rparr>"

text \<open>A handler reads the clock at most once.\<close>

definition api_now :: "api_server \<Rightarrow> api_state \<Rightarrow> tick \<times> api_state" where
  "api_now srv s = (a_clock srv (a_ticks s), s\<lparr>a_ticks := a_ticks s + 1\<rparr>)"

definition with_db :: "store \<Rightarrow> api_state \<Rightarrow> api_state" where
  "with_db d s = s\<lparr>a_db := d\<rparr>"

section \<open>System handlers\<close>

definition handleHealth :: handler where
  "handleHealth srv r s = (writeJSON 200 (Object [(''status'', JStr ''ok'')]), s)"

definition handleOpenAPI :: handler where
  "handleOpenAPI srv r s = (\<lparr>Code = 200, Payload = SpecDoc (openAPISpec srv)\<rparr>, s)"

definition counter_value :: "string \<Rightarrow> (string \<times> int) list \<Rightarrow> int" where
  "counter_value name m = (case map_of m name of None \<Rightarrow> 0 | Some v \<Rightarrow> v)"

definition gauge_text :: "string \<Rightarrow> string \<Rightarrow> int \<Rightarrow> string" where
  "gauge_text name help v = ''# HELP '' @ name @ '' '' @ help @ [LF] @ ''# TYPE '' @ name @ '' gauge'' @ [LF] @ name @ '' '' @ Itoa v @ [LF]"

definition counter_text :: "string \<Rightarrow> int \<Rightarrow> string" where
  "counter_text name v = ''# HELP carteiro_'' @ name @ ''_total Lifetime '' @ name @ '' events.'' @ [LF] @
     ''# TYPE carteiro_'' @ name @ ''_total counter'' @ [LF] @ ''carteiro_'' @ name @ ''_total '' @ Itoa v @ [LF]"

definition handleMetrics :: handler where
  "handleMetrics srv r s0 =
     (let (t, s) = api_now srv s0;
          (st, d1) = Stats (now_ns t) (a_db s);
          gauges = (case st of Inl err \<Rightarrow> [] | Inr q \<Rightarrow>
             gauge_text ''carteiro_queue_queued'' ''Messages currently queued.'' (Queued q) @
             gauge_text ''carteiro_queue_due'' ''Messages currently due for delivery.'' (Due q) @
             gauge_text ''carteiro_queue_dead'' ''Messages in dead-letter.'' (Dead q));
          (cs, d2) = GetCounters (now_ms t) d1;
          totals = (case cs of Inl err \<Rightarrow> [] | Inr m \<Rightarrow>
             concat (map (\<lambda>name. counter_text name (counter_value name m))
               [''auth_success'', ''auth_failure'', ''messages_queued'', ''delivery_attempts'', ''messages_delivered'',
                ''messages_dead'', ''messages_requeued'']))
      in (\<lparr>Code = 200, Payload = PlainText (gauges @ totals)\<rparr>, with_db d2 s))"

definition stats_counters_doc :: "(string \<times> int) list \<Rightarrow> (string \<times> int) list" where
  "stats_counters_doc m = map (\<lambda>name. (name @ ''_total'', counter_value name m))
     [''auth_success'', ''auth_failure'', ''messages_queued'', ''delivery_attempts'', ''messages_delivered'',
      ''messages_dead'', ''messages_requeued'']"

definition handleStats :: handler where
  "handleStats srv r s0 =
     (let (t, s) = api_now srv s0 in
      case Stats (now_ns t) (a_db s) of
        (Inl err, d1) \<Rightarrow> (writeError 500 (err_text err), with_db d1 s)
      | (Inr st, d1) \<Rightarrow>
          (case GetCounters (now_ms t) d1 of
             (Inl err, d2) \<Rightarrow> (writeError 500 (err_text err), with_db d2 s)
           | (Inr m, d2) \<Rightarrow>
               (writeJSON 200 (StatsDoc \<lparr>srVersion = version srv, srUptimeSeconds = (now_ns t - started srv) div 1000000000,
                  srCounters = stats_counters_doc m, srQueue = st\<rparr>), with_db d2 s)))"

section \<open>Accounts\<close>

definition handleListAccounts :: handler where
  "handleListAccounts srv r s =
     (case ListAccounts (a_db s) of
        (Inl err, d1) \<Rightarrow> (writeError 500 (err_text err), with_db d1 s)
      | (Inr accs, d1) \<Rightarrow> (writeJSON 200 (AccountViews (map (\<lambda>a. (Email a, AllowedFrom a)) accs)), with_db d1 s))"

definition handleCreateAccount :: handler where
  "handleCreateAccount srv r s =
     (case decode_create_account (a_json srv) (Body r) of
        Inl err \<Rightarrow> (writeError 400 (''invalid JSON body: '' @ err_text err), s)
      | Inr req \<Rightarrow>
          (let email = ToLower (TrimSpace (caEmail req)) in
           if email = [] \<or> \<not> Contains email ''@'' then (writeError 400 ''email must be a valid address'', s)
           else if caPassword req = [] then (writeError 400 ''password must not be empty'', s)
           else case UpsertAccounts (a_bcrypt srv)
                   [\<lparr>SeedEmail = email, SeedPassword = caPassword req, SeedAllowedFrom = caAllowedFrom req\<rparr>] (a_db s) of
               ((sm, Some err), d1) \<Rightarrow> (writeError 500 (err_text err), with_db d1 s)
             | ((sm, None), d1) \<Rightarrow>
                 (let created = (length (Created sm) = 1) in
                  (writeJSON (if created then 201 else 200)
                     (Object [(''email'', JStr email), (''created'', JBool created),
                              (''note'', JStr ''password hashed with bcrypt before storage'')]), with_db d1 s))))"

definition handleDeleteAccount :: handler where
  "handleDeleteAccount srv r s =
     (let email = ToLower (TrimSpace (PathValue r)) in
      case DeleteAccount email (a_db s) of
        (Inl err, d1) \<Rightarrow> (writeError 500 (err_text err), with_db d1 s)
      | (Inr _, d1) \<Rightarrow> (writeJSON 200 (Object [(''deleted'', JStr email)]), with_db d1 s))"

definition handleUpdateAccount :: handler where
  "handleUpdateAccount srv r s =
     (let email = ToLower (TrimSpace (PathValue r)) in
      case decode_update_account (a_json srv) (Body r) of
        Inl err \<Rightarrow> (writeError 400 (''invalid JSON body: '' @ err_text err), s)
      | Inr req \<Rightarrow>
          (case GetAccount email (a_db s) of
             (Inl err, d1) \<Rightarrow> (writeError 500 (err_text err), with_db d1 s)
           | (Inr None, d1) \<Rightarrow> (writeError 404 ''account not found'', with_db d1 s)
           | (Inr (Some acc), d1) \<Rightarrow>
               (let newPassword = (case uaPassword req of None \<Rightarrow> [] | Some p \<Rightarrow> p);
                    allowed = (case uaAllowedFrom req of None \<Rightarrow> AllowedFrom acc | Some l \<Rightarrow> l)
                in if uaAllowedFrom req = None \<and> newPassword = []
                   then (writeError 400 ''nothing to update (send allowed_from, a new password, or both)'', with_db d1 s)
                   else if list_ex (\<lambda>f. TrimSpace f = []) allowed
                   then (writeError 400 ''allowed_from must not contain empty addresses'', with_db d1 s)
                   else case UpdateAccount (a_bcrypt srv) email allowed newPassword d1 of
                       (Inl err, d2) \<Rightarrow> (writeError 500 (err_text err), with_db d2 s)
                     | (Inr _, d2) \<Rightarrow>
                         (writeJSON 200 (Object [(''email'', JStr email), (''updated'', JBool True), (''allowed_from'', JStrs allowed),
                            (''password_changed'', JBool (newPassword \<noteq> []))]), with_db d2 s))))"

section \<open>DKIM keys\<close>

definition handleListDKIM :: handler where
  "handleListDKIM srv r s =
     (case ListDKIM (a_db s) of
        (Inl err, d1) \<Rightarrow> (writeError 500 (err_text err), with_db d1 s)
      | (Inr keys, d1) \<Rightarrow> (writeJSON 200 (DKIMViews (map (\<lambda>k. (Domain k, Selector k)) keys)), with_db d1 s))"

definition handleCreateDKIM :: handler where
  "handleCreateDKIM srv r s =
     (case decode_create_dkim (a_json srv) (Body r) of
        Inl err \<Rightarrow> (writeError 400 (''invalid JSON body: '' @ err_text err), s)
      | Inr req \<Rightarrow>
          (let domain = ToLower (TrimSpace (cdDomain req)); selector = TrimSpace (cdSelector req) in
           if domain = [] \<or> selector = [] then (writeError 400 ''domain and selector are required'', s)
           else case ParseSigner (a_crypto srv) (cdKeyData req) of
               Inl err \<Rightarrow> (writeError 400 (''key_data is not a valid PEM private key: '' @ err_text err), s)
             | Inr _ \<Rightarrow>
                 (case UpsertDKIM [\<lparr>Domain = domain, Selector = selector, KeyData = cdKeyData req\<rparr>] (a_db s) of
                    ((sm, Some err), d1) \<Rightarrow> (writeError 500 (err_text err), with_db d1 s)
                  | ((sm, None), d1) \<Rightarrow>
                      (let created = (length (Created sm) = 1) in
                       (writeJSON (if created then 201 else 200)
                          (Object [(''domain'', JStr domain), (''selector'', JStr selector), (''created'', JBool created),
                             (''dns'', JStr (selector @ ''._domainkey.'' @ domain @ '' TXT '' @ quoted ''v=DKIM1; k=rsa; p=<public key>''))]),
                        with_db d1 s)))))"

definition handleDeleteDKIM :: handler where
  "handleDeleteDKIM srv r s =
     (let domain = ToLower (TrimSpace (PathValue r)) in
      case DeleteDKIM domain (a_db s) of
        (Inl err, d1) \<Rightarrow> (writeError 500 (err_text err), with_db d1 s)
      | (Inr _, d1) \<Rightarrow> (writeJSON 200 (Object [(''deleted'', JStr domain)]), with_db d1 s))"

section \<open>The queue\<close>

definition handleQueueStats :: handler where
  "handleQueueStats srv r s0 =
     (let (t, s) = api_now srv s0 in
      case Stats (now_ns t) (a_db s) of
        (Inl err, d1) \<Rightarrow> (writeError 500 (err_text err), with_db d1 s)
      | (Inr st, d1) \<Rightarrow> (writeJSON 200 (QueueStats st), with_db d1 s))"

text \<open>A limit in the query: \<^term>\<open>None\<close> when it is given and is no positive number.\<close>

definition query_limit :: "int \<Rightarrow> http_req \<Rightarrow> int option" where
  "query_limit dflt r = (let v = Query r ''limit'' in
     if v = [] then Some dflt else case ParseInt v of None \<Rightarrow> None | Some n \<Rightarrow> if n < 1 then None else Some n)"

definition handleListMessages :: handler where
  "handleListMessages srv r s =
     (let status = ToLower (Query r ''status'');
          status = (if status = [] then StatusQueued else status)
      in if status \<noteq> StatusQueued \<and> status \<noteq> StatusDead then (writeError 400 ''status must be queued or dead'', s)
         else case query_limit 100 r of
             None \<Rightarrow> (writeError 400 ''invalid limit'', s)
           | Some limit \<Rightarrow>
               (case ListMessages status limit (a_db s) of
                  (Inl err, d1) \<Rightarrow> (writeError 500 (err_text err), with_db d1 s)
                | (Inr msgs, d1) \<Rightarrow> (writeJSON 200 (Messages msgs), with_db d1 s)))"

definition handleRequeue :: handler where
  "handleRequeue srv r s0 =
     (let mid = TrimSpace (PathValue r) in
      case RequeueDead mid (a_db s0) of
        (Inl err, d1) \<Rightarrow> (writeError 404 (err_text err), with_db d1 s0)
      | (Inr _, d1) \<Rightarrow>
          (let (t, s) = api_now srv s0;
               d2 = snd (AddCounter (now_ms t) ''messages_requeued'' 1 d1);
               d3 = MarkQueued (a_rec srv) (now_ms t) mid d2
           in (writeJSON 200 (Object [(''requeued'', JStr mid)]),
               s\<lparr>a_db := d3, a_counts := (a_counts s)\<lparr>Requeued := Requeued (a_counts s) + 1\<rparr>\<rparr>)))"

section \<open>Recent sends\<close>

definition handleListSends :: handler where
  "handleListSends srv r s =
     (case query_limit 50 r of
        None \<Rightarrow> (writeError 400 ''invalid limit'', s)
      | Some limit \<Rightarrow>
          if a_rec srv = None then (writeJSON 200 (Summaries []), s)
          else case List (a_rec srv) limit (a_db s) of (l, d1) \<Rightarrow> (writeJSON 200 (Summaries l), with_db d1 s))"

definition handleGetSend :: handler where
  "handleGetSend srv r s =
     (if a_rec srv = None then (writeError 404 ''send tracking is disabled'', s)
      else case Get (a_rec srv) (TrimSpace (PathValue r)) (a_db s) of
          (None, d1) \<Rightarrow> (writeError 404 ''send not found (it may have been evicted from the ring buffer)'', with_db d1 s)
        | (Some d, d1) \<Rightarrow> (writeJSON 200 (Details d), with_db d1 s))"

section \<open>DNS diagnostics\<close>

definition handleDNSCheck :: handler where
  "handleDNSCheck srv r s =
     (let domain = ToLower (TrimSpace (Query r ''domain'')); selector = TrimSpace (Query r ''selector'') in
      if domain = [] then (writeError 400 ''domain query parameter is required'', s)
      else case GetDKIM domain (a_db s) of
          (Inl err, d1) \<Rightarrow> (writeError 500 (err_text err), with_db d1 s)
        | (Inr found, d1) \<Rightarrow>
            (let (keyPEM, selector) = (case found of None \<Rightarrow> ([], selector)
                   | Some key \<Rightarrow> (KeyData key, if selector = [] then Selector key else selector));
                 rcv = dns srv (a_ticks s)
             in (writeJSON 200 (DNSReport (Check (a_crypto srv) rcv (Some rcv)
                   \<lparr>req_Domain = domain, req_Selector = selector, PrivateKeyPEM = keyPEM, req_Hostname = hostname srv\<rparr>)),
                 (with_db d1 s)\<lparr>a_ticks := a_ticks s + 1\<rparr>)))"

section \<open>Composing a message\<close>

text \<open>\<open>senderAllowed\<close>: a failing query is a refusal.\<close>

definition senderAllowed :: "string \<Rightarrow> store \<Rightarrow> bool \<times> store" where
  "senderAllowed sd s =
     (case ListAccounts s of
        (Inl err, s1) \<Rightarrow> (False, s1)
      | (Inr accs, s1) \<Rightarrow> (list_ex (\<lambda>a. AllowsFrom a sd) accs, s1))"

text \<open>The loop over the recipients; \<open>seen\<close> is the set of the addresses in \<open>to\<close>.\<close>

fun to_loop :: "string list \<Rightarrow> string list \<Rightarrow> string list res" where
  "to_loop [] to = Inr to"
| "to_loop (a0 # as) to =
     (let a = ToLower (TrimSpace a0) in
      if a = [] then to_loop as to
      else if \<not> Contains a ''@'' then Inl (Errorf (''invalid recipient address: '' @ a))
      else if a \<notin> set to then to_loop as (to @ [a]) else to_loop as to)"

text \<open>What \<open>handleSend\<close> does with a message that has passed the checks.\<close>

definition queue_composed :: "api_server \<Rightarrow> tick \<Rightarrow> string \<Rightarrow> string \<Rightarrow> string list \<Rightarrow> string \<Rightarrow> api_state \<Rightarrow> http_resp \<times> api_state" where
  "queue_composed srv t mid sd to msg s =
     (let d1 = Add (a_rec srv) (now_ns t) mid sd to msg (a_db s) in
      case EnqueueWithID (now_ms t) mid sd to msg d1 of
        (Inl err, d2) \<Rightarrow> (writeError 500 ''failed to queue the message'', with_db (Drop (a_rec srv) mid d2) s)
      | (Inr qid, d2) \<Rightarrow>
          (let d3 = snd (AddCounter (now_ms t) ''messages_queued'' 1 d2) in
           (writeJSON 201 (Object [(''id'', JStr qid), (''status'', JStr StatusQueued)]),
            s\<lparr>a_db := d3, a_counts := (a_counts s)\<lparr>MessagesQueued := MessagesQueued (a_counts s) + 1\<rparr>\<rparr>)))"

definition compose :: "api_server \<Rightarrow> send_req \<Rightarrow> string \<Rightarrow> string list \<Rightarrow> api_state \<Rightarrow> http_resp \<times> api_state" where
  "compose srv req sd to s0 =
     (if length to = 0 then (writeError 400 ''at least one recipient is required'', s0)
      else if int (length to) > maxRecipients srv
      then (writeError 400 (''message exceeds the limit of '' @ Itoa (maxRecipients srv) @ '' recipients''), s0)
      else if ContainsAny (srSubject req) crlf then (writeError 400 ''subject must not contain line breaks'', s0)
      else let (t, s) = api_now srv s0;
               mid = NewID (id_stamp t) (id_rand t)
           in case BuildMessage (a_mime srv) (date_text t) (a_boundary srv (a_ticks s0)) mid sd to (srSubject req) (srText req) (srHTML req) of
               Inl err \<Rightarrow> (writeError 400 (err_text err), s)
             | Inr msg \<Rightarrow>
                 if int (length msg) > maxMessageSize srv
                 then (writeError 400 (''message exceeds the limit of '' @ Itoa (maxMessageSize srv) @ '' bytes''), s)
                 else queue_composed srv t mid sd to msg s)"

definition handleSend :: handler where
  "handleSend srv r s =
     (case decode_send (a_json srv) (Body r) of
        Inl err \<Rightarrow> (writeError 400 (''invalid JSON body: '' @ err_text err), s)
      | Inr req \<Rightarrow>
          (let sd = ToLower (TrimSpace (srFrom req)) in
           if \<not> Contains sd ''@'' then (writeError 400 ''from must be a valid sender address'', s)
           else case senderAllowed sd (a_db s) of
               (False, d1) \<Rightarrow> (writeError 403 ''sender not allowed by any account'', with_db d1 s)
             | (True, d1) \<Rightarrow>
                 (case to_loop (srTo req) [] of
                    Inl err \<Rightarrow> (writeError 400 (err_text err), with_db d1 s)
                  | Inr to \<Rightarrow> compose srv req sd to (with_db d1 s))))"

section \<open>Routing\<close>

definition validToken :: "api_server \<Rightarrow> string \<Rightarrow> bool" where
  "validToken srv given \<longleftrightarrow> token srv = given"

text \<open>Whether a request carries the token.\<close>

definition bearer_ok :: "api_server \<Rightarrow> http_req \<Rightarrow> bool" where
  "bearer_ok srv r = (case CutPrefix (Authorization r) ''Bearer '' of None \<Rightarrow> False | Some tk \<Rightarrow> validToken srv (TrimSpace tk))"

definition requireAuth :: "handler \<Rightarrow> handler" where
  "requireAuth nxt srv r s =
     (if \<not> bearer_ok srv r then (writeError 401 ''invalid or missing bearer token'', s) else nxt srv r s)"

datatype segment = Lit string | Wild

record route =
  rt_method :: string
  rt_path :: "segment list"
  rt_public :: bool
  rt_legacy :: bool
  rt_h :: handler

definition rt :: "string \<Rightarrow> segment list \<Rightarrow> bool \<Rightarrow> bool \<Rightarrow> handler \<Rightarrow> route" where
  "rt m p pub leg h = \<lparr>rt_method = m, rt_path = p, rt_public = pub, rt_legacy = leg, rt_h = h\<rparr>"

definition routes :: "route list" where
  "routes =
     [rt ''GET'' [Lit ''health''] True True handleHealth,
      rt ''GET'' [Lit ''metrics''] True True handleMetrics,
      rt ''GET'' [Lit ''openapi.json''] True True handleOpenAPI,
      rt ''GET'' [Lit ''accounts''] False False handleListAccounts,
      rt ''POST'' [Lit ''accounts''] False False handleCreateAccount,
      rt ''PATCH'' [Lit ''accounts'', Wild] False False handleUpdateAccount,
      rt ''DELETE'' [Lit ''accounts'', Wild] False False handleDeleteAccount,
      rt ''GET'' [Lit ''dkim''] False True handleListDKIM,
      rt ''POST'' [Lit ''dkim''] False True handleCreateDKIM,
      rt ''DELETE'' [Lit ''dkim'', Wild] False True handleDeleteDKIM,
      rt ''GET'' [Lit ''queue'', Lit ''stats''] False True handleQueueStats,
      rt ''GET'' [Lit ''queue''] False True handleListMessages,
      rt ''POST'' [Lit ''queue'', Wild, Lit ''retry''] False True handleRequeue,
      rt ''GET'' [Lit ''stats''] False False handleStats,
      rt ''GET'' [Lit ''sends''] False False handleListSends,
      rt ''GET'' [Lit ''sends'', Wild] False False handleGetSend,
      rt ''POST'' [Lit ''send''] False False handleSend,
      rt ''GET'' [Lit ''dns''] False False handleDNSCheck]"

definition registerRoutes :: "segment list \<Rightarrow> bool \<Rightarrow> (string \<times> segment list \<times> handler) list" where
  "registerRoutes pfx legacy =
     map (\<lambda>x. (rt_method x, pfx @ rt_path x, if rt_public x then rt_h x else requireAuth (rt_h x)))
       (filter (\<lambda>x. \<not> (legacy \<and> \<not> rt_legacy x)) routes)"

definition mux :: "(string \<times> segment list \<times> handler) list" where
  "mux = registerRoutes [] True @ registerRoutes [Lit ''api''] False"

text \<open>
  \<open>http.ServeMux\<close>: a pattern matches segment by segment, a wildcard one non-empty segment; \<open>GET\<close> also
  serves \<open>HEAD\<close>. No two of the patterns match the same request. An unknown path is 404, and a known one
  with another method 405.
\<close>

fun match_path :: "segment list \<Rightarrow> string list \<Rightarrow> string option" where
  "match_path [] [] = Some []"
| "match_path (Lit l # ps) (x # xs) = (if l = x then match_path ps xs else None)"
| "match_path (Wild # ps) (x # xs) = (if x = [] then None else case match_path ps xs of None \<Rightarrow> None | Some _ \<Rightarrow> Some x)"
| "match_path _ _ = None"

definition match_method :: "string \<Rightarrow> string \<Rightarrow> bool" where
  "match_method pat m \<longleftrightarrow> pat = m \<or> pat = ''GET'' \<and> m = ''HEAD''"

definition ServeHTTP :: handler where
  "ServeHTTP srv r s =
     (case find (\<lambda>(m, p, h). match_path p (Path r) \<noteq> None \<and> match_method m (Method r)) mux of
        Some (m, p, h) \<Rightarrow> h srv (r\<lparr>PathValue := the (match_path p (Path r))\<rparr>) s
      | None \<Rightarrow>
          if list_ex (\<lambda>(m, p, h). match_path p (Path r) \<noteq> None) mux
          then (\<lparr>Code = 405, Payload = PlainText ''Method Not Allowed''\<rparr>, s)
          else (\<lparr>Code = 404, Payload = PlainText ''404 page not found''\<rparr>, s))"

end
