(* ===== verification/Api_Laws.thy ===== *)
theory Api_Laws
  imports Api
begin

text \<open>
  What the administrative API guarantees: what every request keeps of the store, what a request without
  the token can do, and what the handlers that change the store do.
\<close>

section \<open>What every request keeps\<close>

text \<open>
  The operations of the store that the API calls, and the law that a property of the store needs so
  that no request breaks it: each of them keeps it. Statements that only touch the history keep it
  because it does not look at the history. Sending is apart: what it adds to the queue depends on the request.
\<close>

locale api_upkeep = table_invariant +
  assumes history: "same_core s s2 \<Longrightarrow> I s2 = I s"
    and upsert_accounts: "I s \<Longrightarrow> I (snd (UpsertAccounts bc seeds s))"
    and update_account: "I s \<Longrightarrow> I (snd (UpdateAccount bc email allowed pw s))"
    and delete_account: "I s \<Longrightarrow> I (snd (DeleteAccount email s))"
    and upsert_dkim_keys: "I s \<Longrightarrow> I (snd (UpsertDKIM keys s))"
    and delete_dkim: "I s \<Longrightarrow> I (snd (DeleteDKIM dm s))"
    and requeue: "I s \<Longrightarrow> I (snd (RequeueDead mid s))"
    and add_count: "I s \<Longrightarrow> I (snd (AddCounter t nm k s))"
    and get_counts: "I s \<Longrightarrow> I (snd (GetCounters t s))"
begin

lemma results:
  "UpsertAccounts bc seeds s = (x1, s1) \<Longrightarrow> I s \<Longrightarrow> I s1" "UpdateAccount bc email allowed pw s = (x2, s1) \<Longrightarrow> I s \<Longrightarrow> I s1"
  "DeleteAccount email s = (x2, s1) \<Longrightarrow> I s \<Longrightarrow> I s1" "UpsertDKIM keys s = (x1, s1) \<Longrightarrow> I s \<Longrightarrow> I s1"
  "DeleteDKIM dm s = (x2, s1) \<Longrightarrow> I s \<Longrightarrow> I s1" "RequeueDead mid s = (x2, s1) \<Longrightarrow> I s \<Longrightarrow> I s1"
  "GetCounters t s = (x4, s1) \<Longrightarrow> I s \<Longrightarrow> I s1"
  using upsert_accounts [of s bc seeds] update_account [of s bc email allowed pw] delete_account [of s email] upsert_dkim_keys [of s keys]
    delete_dkim [of s dm] requeue [of s mid] get_counts [of s t]
  by auto

lemma reads:
  "GetAccount email s = (x1, s1) \<Longrightarrow> I s \<Longrightarrow> I s1" "ListAccounts s = (x2, s1) \<Longrightarrow> I s \<Longrightarrow> I s1"
  "GetDKIM dm s = (x3, s1) \<Longrightarrow> I s \<Longrightarrow> I s1" "ListDKIM s = (x4, s1) \<Longrightarrow> I s \<Longrightarrow> I s1"
  "ListMessages st lim s = (x5, s1) \<Longrightarrow> I s \<Longrightarrow> I s1"
  by (auto simp: GetAccount_def ListAccounts_def GetDKIM_def ListDKIM_def ListMessages_def Let_def elim: select_keeps)

lemma read_stats: "Stats t s = (x, s1) \<Longrightarrow> I s \<Longrightarrow> I s1"
  by (auto simp: Stats_def count_rows_def split: prod.splits sum.splits dest!: select_keeps)

lemma read_history: "List rc lim s = (x, s1) \<Longrightarrow> I s \<Longrightarrow> I s1" "Get rc mid s = (y, s1) \<Longrightarrow> I s \<Longrightarrow> I s1"
  by (auto simp: List_def Get_def ListSendLogs_def GetSendLog_def Let_def split: option.splits prod.splits sum.splits dest!: select_keeps)

lemma read_senders: "senderAllowed sd s = (b, s1) \<Longrightarrow> I s \<Longrightarrow> I s1"
  by (auto simp: senderAllowed_def split: prod.splits sum.splits dest: reads(2))

lemma recorded: "I (Add rc t mid sd to data s) = I s" "I (Drop rc mid s) = I s" "I (MarkQueued rc t mid s) = I s"
  by (simp_all add: history recorder_same_core)

lemma system_handlers:
  assumes "I (a_db s)"
  shows "I (a_db (snd (handleHealth srv r s)))" "I (a_db (snd (handleOpenAPI srv r s)))" "I (a_db (snd (handleMetrics srv r s)))"
    "I (a_db (snd (handleStats srv r s)))" "I (a_db (snd (handleQueueStats srv r s)))"
  using assms
  by (auto simp: handleHealth_def handleOpenAPI_def handleMetrics_def handleStats_def handleQueueStats_def with_db_def api_now_def Let_def
      split: prod.splits sum.splits dest: read_stats results(7))

lemma account_handlers:
  assumes "I (a_db s)"
  shows "I (a_db (snd (handleListAccounts srv r s)))" "I (a_db (snd (handleCreateAccount srv r s)))"
    "I (a_db (snd (handleDeleteAccount srv r s)))" "I (a_db (snd (handleUpdateAccount srv r s)))"
  using assms
  by (auto simp: handleListAccounts_def handleCreateAccount_def handleDeleteAccount_def handleUpdateAccount_def with_db_def Let_def
      split: prod.splits sum.splits option.splits dest: reads results)

lemma dkim_handlers:
  assumes "I (a_db s)"
  shows "I (a_db (snd (handleListDKIM srv r s)))" "I (a_db (snd (handleCreateDKIM srv r s)))"
    "I (a_db (snd (handleDeleteDKIM srv r s)))" "I (a_db (snd (handleDNSCheck srv r s)))"
  using assms
  by (auto simp: handleListDKIM_def handleCreateDKIM_def handleDeleteDKIM_def handleDNSCheck_def with_db_def Let_def
      split: prod.splits sum.splits option.splits dest: reads results)

lemma queue_handlers:
  assumes "I (a_db s)"
  shows "I (a_db (snd (handleListMessages srv r s)))" "I (a_db (snd (handleRequeue srv r s)))"
    "I (a_db (snd (handleListSends srv r s)))" "I (a_db (snd (handleGetSend srv r s)))"
  using assms
  by (auto simp: handleListMessages_def handleRequeue_def handleListSends_def handleGetSend_def with_db_def api_now_def Let_def
      recorded add_count split: prod.splits sum.splits option.splits dest: reads results read_history)

lemma routes_keep: "x \<in> set routes \<Longrightarrow> I (a_db s) \<Longrightarrow> I (a_db (snd (rt_h x srv r s))) \<or> rt_h x = handleSend"
  by (auto simp: routes_def rt_def intro: system_handlers account_handlers dkim_handlers queue_handlers)

lemma mux_keeps:
  assumes "(m, p, h) \<in> set mux" and "I (a_db s)" and "\<And>r. I (a_db (snd (handleSend srv r s)))"
  shows "I (a_db (snd (h srv r s)))"
  using assms routes_keep by (fastforce simp: mux_def registerRoutes_def requireAuth_def)

lemma ServeHTTP_upkeep: "I (a_db s) \<Longrightarrow> (\<And>r. I (a_db (snd (handleSend srv r s)))) \<Longrightarrow> I (a_db (snd (ServeHTTP srv r s)))"
  by (auto simp: ServeHTTP_def split: option.splits dest!: find_Some_iff_mem intro: mux_keeps)

end

text \<open>A property that holds whatever is enqueued.\<close>

locale api_invariant = api_upkeep +
  assumes enqueue: "I s \<Longrightarrow> I (snd (EnqueueWithID t mid sd to data s))"
begin

lemma enqueued: "EnqueueWithID t mid sd to data s = (x, s1) \<Longrightarrow> I s \<Longrightarrow> I s1"
  using enqueue [of s t mid sd to data] by simp

lemma composed: "I (a_db s) \<Longrightarrow> I (a_db (snd (queue_composed srv t mid sd to msg s)))"
  by (auto simp: queue_composed_def with_db_def recorded add_count Let_def split: prod.splits sum.splits dest: enqueued)

lemma composing: "I (a_db s) \<Longrightarrow> I (a_db (snd (compose srv req sd to s)))"
  by (auto simp: compose_def api_now_def Let_def split: sum.split intro!: composed)

lemma send_handler: "I (a_db s) \<Longrightarrow> I (a_db (snd (handleSend srv r s)))"
  using composing
  by (auto simp: handleSend_def with_db_def Let_def split: prod.splits sum.splits bool.splits dest: read_senders)

lemma ServeHTTP_keeps: "I (a_db s) \<Longrightarrow> I (a_db (snd (ServeHTTP srv r s)))"
  by (intro ServeHTTP_upkeep send_handler)

end

text \<open>The statements on the other tables keep the queue and the accounts as they are.\<close>

lemma queue_inv_stmts:
  "queue_inv (snd (put_account a s)) = queue_inv s" "queue_inv (snd (del_account k s)) = queue_inv s"
  "queue_inv (snd (edit_account k g s)) = queue_inv s" "queue_inv (snd (put_dkim key s)) = queue_inv s"
  "queue_inv (snd (del_dkim k s)) = queue_inv s" "queue_inv (snd (conflict_clause (put_counters t) s)) = queue_inv s"
  "queue_inv (snd (add_counter t nm n s)) = queue_inv s"
  by (simp_all add: queue_inv_def put_account_def del_account_def edit_account_def put_dkim_def del_dkim_def conflict_clause_def
      put_counters_def add_counter_def split: option.split)

lemma accounts_inv_stmts:
  "accounts_inv (snd (update_queue P g s)) = accounts_inv s" "accounts_inv (snd (insert_queue row s)) = accounts_inv s"
  "accounts_inv (snd (put_dkim key s)) = accounts_inv s" "accounts_inv (wake s) = accounts_inv s"
  "accounts_inv (snd (del_dkim k s)) = accounts_inv s" "accounts_inv (snd (conflict_clause (put_counters t) s)) = accounts_inv s"
  "accounts_inv (snd (add_counter t nm n s)) = accounts_inv s"
  by (simp_all add: accounts_inv_def update_queue_def insert_queue_def put_dkim_def del_dkim_def conflict_clause_def
      put_counters_def add_counter_def Let_def split: option.split)

text \<open>A property that the statements on the DKIM table and on the counters keep, is kept by their operations.\<close>

locale side_tables = table_invariant +
  assumes put_dkim: "I (snd (put_dkim key s)) = I s" and del_dkim: "I (snd (del_dkim dm s)) = I s"
    and put_counters: "I (snd (conflict_clause (put_counters t) s)) = I s" and add_counter: "I (snd (add_counter t nm n s)) = I s"
begin

lemma stmt: "sql f s = (x, s1) \<Longrightarrow> I s \<Longrightarrow> (\<And>u. I (snd (f u)) = I u) \<Longrightarrow> I s1"
  using sql_keeps' by blast

lemma upsert_keys: "I s \<Longrightarrow> I (snd (UpsertDKIM keys s))"
  unfolding UpsertDKIM_def
proof (erule upsert_loop_inv)
  fix x s assume "I s"
  then show "I (snd (upsert_dkim x s))"
    by (auto simp: upsert_dkim_def GetDKIM_def Let_def put_dkim split: prod.splits sum.splits option.splits
        dest!: select_keeps dest: stmt [of "put_dkim _"])
qed

lemma delete_key: "I s \<Longrightarrow> I (snd (DeleteDKIM dm s))"
  using sql_keeps [of s "del_dkim _"] by (simp add: DeleteDKIM_def Let_def del_dkim)

lemma counters_row: "ensureCountersRow t s = (x, s1) \<Longrightarrow> I s \<Longrightarrow> I s1"
  using stmt [of "conflict_clause (put_counters t)"] put_counters by (simp add: ensureCountersRow_def)

lemma add: "I s \<Longrightarrow> I (snd (AddCounter t nm n s))"
  using sql_keeps [of _ "Store_Tables.add_counter t nm n"]
  by (auto simp: AddCounter_def add_counter split: prod.splits sum.splits dest: counters_row)

lemma get: "I s \<Longrightarrow> I (snd (GetCounters t s))"
  by (auto simp: GetCounters_def split: prod.splits sum.splits option.splits dest!: counters_row select_keeps)

end

interpretation sq: side_tables queue_inv
  by unfold_locales (simp_all add: queue_inv_stmts)

interpretation sa: side_tables accounts_inv
  by unfold_locales (simp_all add: accounts_inv_stmts)

lemma queue_inv_account_ops:
  assumes "queue_inv s"
  shows "queue_inv (snd (UpsertAccounts bc seeds s))" "queue_inv (snd (DeleteAccount email s))"
    "queue_inv (snd (UpdateAccount bc email allowed pw s))"
proof -
  have one: "queue_inv (snd (upsert_account bc x s))" if "queue_inv s" for x s
    using that by (auto simp: upsert_account_def GetAccount_def Let_def queue_inv_stmts split: prod.splits sum.splits option.splits
        dest!: q.select_keeps dest: sq.stmt [of "put_account _"])
  show "queue_inv (snd (UpsertAccounts bc seeds s))"
    unfolding UpsertAccounts_def by (rule upsert_loop_inv [where I = queue_inv, OF assms]) (rule one)
  show "queue_inv (snd (DeleteAccount email s))"
    using assms q.sql_keeps [of s "del_account _"] by (simp add: DeleteAccount_def Let_def queue_inv_stmts)
  show "queue_inv (snd (UpdateAccount bc email allowed pw s))"
    using assms by (auto simp: UpdateAccount_def GetAccount_def Let_def queue_inv_stmts split: prod.splits sum.splits option.splits
        dest!: q.select_keeps dest: sq.stmt [of "edit_account _ _"])
qed

lemma accounts_inv_queue_ops:
  assumes "accounts_inv s"
  shows "accounts_inv (snd (RequeueDead mid s))" "accounts_inv (snd (EnqueueWithID t mid sd to data s))"
proof -
  have upd: "accounts_inv (snd (sql (update_queue P g) s))" for P g
    by (rule ai.sql_keeps) (simp_all add: assms accounts_inv_stmts)
  have ins: "accounts_inv (snd (sql (insert_queue row) s))" for row
    by (rule ai.sql_keeps) (simp_all add: assms accounts_inv_stmts)
  show "accounts_inv (snd (RequeueDead mid s))"
    by (simp add: RequeueDead_def case_prod_beta upd accounts_inv_stmts(4) split: sum.split)
  show "accounts_inv (snd (EnqueueWithID t mid sd to data s))"
    by (simp add: EnqueueWithID_def case_prod_beta ins assms accounts_inv_stmts(4) split: sum.split)
qed

interpretation aq: api_invariant queue_inv
  by unfold_locales (simp_all add: same_core_queue_inv queue_inv_account_ops RequeueDead_inv EnqueueWithID_inv
      sq.upsert_keys sq.delete_key sq.add sq.get)

interpretation aa: api_invariant accounts_inv
  by unfold_locales (simp_all add: accounts_inv_queue_ops UpsertAccounts_inv DeleteAccount_inv UpdateAccount_inv
      sa.upsert_keys sa.delete_key sa.add sa.get, simp add: accounts_inv_def same_core_def)

end
