(* ===== verification/Startup.thy ===== *)
theory Startup
  imports Api_Laws Config_Laws Logmask
begin

text \<open>
  The main program of \<open>cmd/carteiro/main.go\<close> up to the moment its servers run: loading the
  configuration, opening the database, seeding accounts and keys, and building the parts; and the small
  pieces around them: the process counters as Prometheus text (\<open>internal/metrics\<close>), the web panel
  (\<open>internal/api/panel.go\<close>) and the handler of the embedded dashboard (\<open>internal/webui\<close>).
\<close>

section \<open>Process counters as text\<close>

definition prom_counters :: "metrics \<Rightarrow> (string \<times> string \<times> int) list" where
  "prom_counters m =
     [(''carteiro_auth_success_total'', ''Successful SMTP AUTH logins.'', AuthSuccess m),
      (''carteiro_auth_failure_total'', ''Failed SMTP AUTH attempts.'', AuthFailure m),
      (''carteiro_messages_queued_total'', ''Messages accepted and queued.'', MessagesQueued m),
      (''carteiro_delivery_attempts_total'', ''Delivery attempts towards MX servers.'', DeliveryAttempts m),
      (''carteiro_messages_delivered_total'', ''Messages fully delivered.'', MessagesDelivered m),
      (''carteiro_messages_dead_total'', ''Messages moved to dead-letter.'', MessagesDead m),
      (''carteiro_messages_requeued_total'', ''Dead messages requeued through the API.'', Requeued m)]"

definition WritePrometheus :: "metrics \<Rightarrow> string" where
  "WritePrometheus m = concat (map (\<lambda>(name, help, v).
       ''# HELP '' @ name @ '' '' @ help @ [LF] @ ''# TYPE '' @ name @ '' counter'' @ [LF] @ name @ '' '' @ Itoa v @ [LF])
     (sort_key fst (prom_counters m)))"

section \<open>The web panel\<close>

text \<open>\<open>strings.Trim(host, "[]")\<close>\<close>

definition TrimBrackets :: "string \<Rightarrow> string" where
  "TrimBrackets s = TrimRight (TrimLeft s ''[]'') ''[]''"

definition APITargetURL :: "string \<Rightarrow> string" where
  "APITargetURL apiListen =
     (let (host, port) = (case SplitHostPort apiListen of None \<Rightarrow> (''127.0.0.1'', ''9090'') | Some hp \<Rightarrow> hp);
          host = (if host = [] \<or> host = ''0.0.0.0'' \<or> host = ''::'' \<or> host = ''[::]'' then ''127.0.0.1'' else host)
      in ''http://'' @ JoinHostPort (TrimBrackets host) port)"

text \<open>
  What the handler of the dashboard does with a path: serve the file (forbidding caches to keep it when
  it is a page), serve the page of the application, or answer 404. \<open>stat\<close> tells which embedded files exist.
\<close>

datatype web_answer = ServeFile bool | ServeIndex | WebNotFound

definition webui_Handler :: "(string \<Rightarrow> bool) \<Rightarrow> string \<Rightarrow> string \<Rightarrow> web_answer" where
  "webui_Handler stat method path =
     (let p = TrimPrefix path ''/''; p = (if p = [] then ''index.html'' else p) in
      if stat p then ServeFile (HasSuffix p ''.html'')
      else if (method = ''GET'' \<or> method = ''HEAD'') \<and> \<not> Contains p ''.'' \<and> \<not> HasPrefix p ''api/'' then ServeIndex
      else WebNotFound)"

datatype panel_answer = ProxyToAPI | FromDashboard web_answer

text \<open>The multiplexer of \<open>NewPanel\<close>.\<close>

definition panel_handler :: "(string \<Rightarrow> bool) \<Rightarrow> string \<Rightarrow> string \<Rightarrow> panel_answer" where
  "panel_handler stat method path =
     (if path = ''/api'' \<or> HasPrefix path ''/api/'' then ProxyToAPI else FromDashboard (webui_Handler stat method path))"

lemma panel_separates:
  "panel_handler stat method path = ProxyToAPI \<longleftrightarrow> path = ''/api'' \<or> HasPrefix path ''/api/''"
  by (simp add: panel_handler_def)

section \<open>Seeding\<close>

definition resolveDBPath :: "oslib \<Rightarrow> environ \<Rightarrow> config \<Rightarrow> string res" where
  "resolveDBPath os env c =
     (case Storage c of
        None \<Rightarrow> Inl (Panic ''nil pointer dereference'')
      | Some st \<Rightarrow>
          if StorageType st = ''mysql'' then Inr (DSN st)
          else if SQLitePath st \<noteq> [] then Inr (SQLitePath st)
          else case DefaultDataDir os env of Inl err \<Rightarrow> Inl err | Inr dir \<Rightarrow> Inr (dir @ ''/carteiro.db''))"

definition seed_of :: "cfg_account \<Rightarrow> account_seed" where
  "seed_of a = \<lparr>SeedEmail = CfgEmail a, SeedPassword = CfgPassword a, SeedAllowedFrom = CfgAllowedFrom a\<rparr>"

definition seedAccounts :: "bcrypt \<Rightarrow> config \<Rightarrow> store \<Rightarrow> unit res \<times> store" where
  "seedAccounts bc c s =
     (if length (Accounts c) > 0 then
        (case UpsertAccounts bc (map seed_of (Accounts c)) s of
           ((sm, Some err), s1) \<Rightarrow> (Inl (Wrapf ''seeding accounts: '' err), s1)
         | ((sm, None), s1) \<Rightarrow> (Inr (), s1))
      else (Inr (), s))"

fun seed_keys :: "cryptolib \<Rightarrow> cfg_dkim list \<Rightarrow> dkim_key list res" where
  "seed_keys cl [] = Inr []"
| "seed_keys cl (k # ks) =
     (case ParseSigner cl (CfgKeyData k) of
        Inl err \<Rightarrow> Inl (Wrapf (''seeding dkim for '' @ CfgDomain k @ '': '') err)
      | Inr _ \<Rightarrow>
          (case seed_keys cl ks of Inl err \<Rightarrow> Inl err
           | Inr keys \<Rightarrow> Inr (\<lparr>Domain = CfgDomain k, Selector = CfgSelector k, KeyData = CfgKeyData k\<rparr> # keys)))"

definition seedDKIM :: "cryptolib \<Rightarrow> config \<Rightarrow> store \<Rightarrow> unit res \<times> store" where
  "seedDKIM cl c s =
     (if length (DKIM c) > 0 then
        (case seed_keys cl (DKIM c) of
           Inl err \<Rightarrow> (Inl err, s)
         | Inr keys \<Rightarrow>
             (case UpsertDKIM keys s of
                ((sm, Some err), s1) \<Rightarrow> (Inl (Wrapf ''seeding dkim keys: '' err), s1)
              | ((sm, None), s1) \<Rightarrow> (Inr (), s1)))
      else (Inr (), s))"

definition seed :: "bcrypt \<Rightarrow> cryptolib \<Rightarrow> config \<Rightarrow> store \<Rightarrow> unit res \<times> store" where
  "seed bc cl c s = (case seedAccounts bc c s of (Inl err, s1) \<Rightarrow> (Inl err, s1) | (Inr _, s1) \<Rightarrow> seedDKIM cl c s1)"

definition lenOr :: "store \<Rightarrow> int \<times> store" where
  "lenOr s = (case ListAccounts s of (Inl err, s1) \<Rightarrow> (-1, s1) | (Inr accs, s1) \<Rightarrow> (int (length accs), s1))"

text \<open>The levels of \<open>log/slog\<close>: debug -4, info 0, warn 4, error 8.\<close>

definition newLogger :: "string \<Rightarrow> int" where
  "newLogger level = (if level = ''debug'' then -4 else if level = ''warn'' then 4 else if level = ''error'' then 8 else 0)"

section \<open>Starting up\<close>

record boot =
  b_sys :: syslib
  b_os :: oslib
  b_bcrypt :: bcrypt
  b_mime :: mimelib
  b_instance :: string
  b_clock :: "nat \<Rightarrow> tick"
  b_now :: int
  b_network :: relay
  b_api :: api_env
  b_version :: string

record process =
  p_cfg :: config
  p_level :: "int logger"
  p_store :: store
  p_server :: server
  p_relay :: relay
  p_api :: "api_server option"
  p_panel :: "(string \<times> string) option"

definition NewRelay :: "relay \<Rightarrow> config \<Rightarrow> recorder option \<Rightarrow> relay" where
  "NewRelay net c r = net\<lparr>r_cfg := c, r_rec := r\<rparr>"

text \<open>
  The parts over an open and seeded store. The first pruning of the history happens after the servers
  have been started; nothing of its outcome is used.
\<close>

definition assemble :: "boot \<Rightarrow> config \<Rightarrow> store \<Rightarrow> process res" where
  "assemble b c s =
     (let r = Some (New (b_mime b) 524288) in
      case NewServer (b_sys b) c (b_bcrypt b) r (b_clock b) of
        Inl err \<Rightarrow> Inl err
      | Inr srv \<Rightarrow>
          (let s1 = snd (lenOr s);
               s2 = (if SendHistoryDays c > 0 then snd (PruneSendLogs (b_now b) (SendHistoryDays c) s1) else s1)
           in Inr \<lparr>p_cfg = c, p_level = NewLogger (newLogger (LogLevel c)) (LogMaskEmails c), p_store = s2, p_server = srv,
                   p_relay = NewRelay (b_network b) c r,
                   p_api = map_option (\<lambda>a. NewAPI (b_api b) a r (b_version b) (Hostname c) (MaxMessageSize c) (MaxRecipients c)) (API c),
                   p_panel = (case (API c, Web c) of (Some a, Some w) \<Rightarrow> Some (WebListen w, APITargetURL (APIListen a)) | _ \<Rightarrow> None)\<rparr>))"

text \<open>\<open>disk\<close> is the database that the path or the DSN names.\<close>

definition run :: "boot \<Rightarrow> environ \<Rightarrow> string \<Rightarrow> store \<Rightarrow> process res" where
  "run b env configPath disk =
     (case Load (b_sys b) env configPath of
        Inl err \<Rightarrow> Inl err
      | Inr c \<Rightarrow>
          (case resolveDBPath (b_os b) env c of
             Inl err \<Rightarrow> Inl err
           | Inr dbPath \<Rightarrow>
               (let kind = (case Storage c of None \<Rightarrow> [] | Some st \<Rightarrow> StorageType st) in
                case Open kind dbPath (b_instance b) disk of
                  Inl err \<Rightarrow> Inl (Wrapf (''opening '' @ kind @ '' database: '') err)
                | Inr s \<Rightarrow>
                    (case seed (b_bcrypt b) (crypto (b_sys b)) c (SetDeadMax (DeadMax (Queue c)) s) of
                       (Inl err, _) \<Rightarrow> Inl err
                     | (Inr _, s1) \<Rightarrow> assemble b c s1))))"

text \<open>A level in capitals passes the validation of the configuration and then selects the default level.\<close>

lemma log_level_case: "ToLower ''DEBUG'' \<in> {''debug'', ''info'', ''warn'', ''error''} \<and> newLogger ''DEBUG'' = newLogger ''info''"
proof -
  have "ToLower ''DEBUG'' = ''debug''" by code_simp
  then show ?thesis by (simp add: newLogger_def)
qed

end
