(* ===== verification/Relay_Laws.thy ===== *)
theory Relay_Laws
  imports Relay Queue_Laws
begin

text \<open>
  What delivering a message guarantees: no recipient is lost or sent to twice in an attempt, the loop
  ends, other messages are left alone, and the retry delay stays within its bounds.
\<close>

section \<open>The log of accepted messages\<close>

definition accepted :: "sent_mail list \<Rightarrow> string set" where
  "accepted new = (\<Union>e \<in> set new. set (sm_rcpts e))"

lemma accepted_simps [simp]: "accepted [] = {}" "accepted (e # es) = set (sm_rcpts e) \<union> accepted es"
    "accepted (xs @ ys) = accepted xs \<union> accepted ys"
  by (auto simp: accepted_def)

text \<open>No recipient is named by two of the transactions of a log.\<close>

fun no_repeat :: "sent_mail list \<Rightarrow> bool" where
  "no_repeat [] \<longleftrightarrow> True"
| "no_repeat (e # es) \<longleftrightarrow> set (sm_rcpts e) \<inter> accepted es = {} \<and> no_repeat es"

lemma no_repeat_append [simp]: "no_repeat (xs @ ys) \<longleftrightarrow> no_repeat xs \<and> no_repeat ys \<and> accepted xs \<inter> accepted ys = {}"
  by (induction xs) auto

lemma add_counter_at_log [simp]: "mx_log (add_counter_at d nm s) = mx_log s"
  by (simp add: add_counter_at_def ask_def)

lemma hostAddrs_log: "hostAddrs d host s = (r, s1) \<Longrightarrow> mx_log s1 = mx_log s"
  by (auto simp: hostAddrs_def Let_def ask_def split: if_splits sum.splits)

lemma try_addrs_log: "try_addrs d host addrs e s = (r, s1) \<Longrightarrow> mx_log s1 = mx_log s"
  by (induction d host addrs e s rule: try_addrs.induct) (auto simp: ask_def split: option.splits sum.splits)

lemma connect_log: "connect d host s = (r, s1) \<Longrightarrow> mx_log s1 = mx_log s"
  by (auto simp: connect_def split: prod.splits dest!: hostAddrs_log try_addrs_log)

lemma resolveHost_log: "resolveHost d domain s = (r, s1) \<Longrightarrow> mx_log s1 = mx_log s"
  by (auto simp: resolveHost_def Let_def ask_def split: if_splits sum.splits)

lemma open_session_log: "open_session d domain host s = (r, s1) \<Longrightarrow> mx_log s1 = mx_log s"
  by (auto simp: open_session_def split: if_splits sum.splits prod.splits dest!: connect_log)

text \<open>
  The group contract with the log: a group that ends with a retry error has been accepted by nobody;
  otherwise exactly the delivered recipients have been.
\<close>

definition log_entries :: "string \<Rightarrow> string \<Rightarrow> string list \<Rightarrow> sent_mail list \<Rightarrow> bool" where
  "log_entries sd body delivered new \<longleftrightarrow>
     (if delivered = [] then new = [] else \<exists>host. new = [\<lparr>sm_host = host, sm_from = sd, sm_rcpts = delivered, sm_body = body\<rparr>])"

locale logged_delivery = group_delivery send
  for send :: "string \<Rightarrow> string list \<Rightarrow> 's \<Rightarrow> (string list \<times> (string \<times> string) list) res \<times> 's" +
  fixes log :: "'s \<Rightarrow> sent_mail list" and sd body :: string
  assumes retry_log: "send domain grp s = (Inl e, s') \<Longrightarrow> log s' = log s"
    and done_log: "send domain grp s = (Inr (delivered, perm), s') \<Longrightarrow> \<exists>new. log s' = log s @ new \<and> log_entries sd body delivered new"
begin

lemma group_accounts:
  assumes "send domain grp s = (Inr (delivered, perm), s')"
  shows "\<exists>new. log s' = log s @ new \<and> accepted new \<union> dom_list perm = set grp \<and> accepted new = set delivered \<and>
     (\<forall>e\<in>set new. sm_from e = sd \<and> sm_body e = body) \<and> no_repeat new"
  using done_log [OF assms] partition [OF assms] by (auto simp: log_entries_def split: if_splits)

end

lemma transact_log:
  "transact host client tos sd body s = (Inl e, s') \<Longrightarrow> mx_log s' = mx_log s"
  "transact host client tos sd body s = (Inr (delivered, perm), s') \<Longrightarrow> \<exists>new. mx_log s' = mx_log s @ new \<and> log_entries sd body delivered new"
  by (auto simp: transact_def log_entries_def split: sum.splits prod.splits if_splits option.splits)

interpretation lg: logged_delivery "\<lambda>domain grp. deliverGroup d domain grp sd body" mx_log sd body for d sd body
proof unfold_locales
  fix domain grp s e s' delivered perm
  show "deliverGroup d domain grp sd body s = (Inl e, s') \<Longrightarrow> mx_log s' = mx_log s"
    by (auto simp: deliverGroup_def Let_def split: sum.splits prod.splits if_splits
        dest!: resolveHost_log open_session_log transact_log(1))
  assume "deliverGroup d domain grp sd body s = (Inr (delivered, perm), s')"
  then show "\<exists>new. mx_log s' = mx_log s @ new \<and> log_entries sd body delivered new"
    by (auto simp: deliverGroup_def Let_def log_entries_def [of _ _ "[]"] split: sum.splits prod.splits if_splits
        dest!: resolveHost_log open_session_log transact_log(2))
qed

section \<open>No recipient is lost\<close>

text \<open>What is known of a delivery in progress that began with message \<open>m\<close> and log \<open>lg0\<close>.\<close>

definition conserves :: "message \<Rightarrow> string \<Rightarrow> sent_mail list \<Rightarrow> progress \<Rightarrow> bool" where
  "conserves m body lg0 p \<longleftrightarrow>
     (\<exists>new. mx_log (pst p) = lg0 @ new \<and> (\<forall>e\<in>set new. sm_from e = From m \<and> sm_body e = body) \<and>
        accepted new \<union> set (remaining p) \<union> dom_list (Permanent (pmsg p)) = set (To m) \<union> dom_list (Permanent m) \<and>
        accepted new \<union> set (remaining p) \<subseteq> set (To m) \<and>
        domainOf ` accepted new \<inter> domainOf ` set (remaining p) = {} \<and> no_repeat new) \<and>
     ID (pmsg p) = ID m \<and> From (pmsg p) = From m \<and> Attempts (pmsg p) = Attempts m \<and> length (remaining p) \<le> length (To m)"

lemma dom_merge_perm [simp]: "dom_list (merge_perm perm m) = dom_list perm \<union> dom_list m"
proof (induction perm arbitrary: m)
  case (Cons x perm)
  then show ?case by (cases x) (simp add: merge_perm_def dom_list_def [of "_ # _"], simp add: dom_list_def)
qed (simp add: merge_perm_def)

lemma conserves_start: "mx_log s = lg0 \<Longrightarrow> conserves m body lg0 (start_progress m s)"
  by (simp add: conserves_def start_progress_def)

text \<open>The two ways a turn ends.\<close>

lemma group_step_cases [consumes 4, case_names retry finished]:
  assumes "remaining p \<noteq> []" and "dm = domainOf (hd (remaining p))"
    and "grp = filter (\<lambda>a. domainOf a = dm) (remaining p)" and "keep = filter (\<lambda>a. domainOf a \<noteq> dm) (remaining p)"
  obtains (retry) e s1 where "deliverGroup d dm grp (From (pmsg p)) body (pst p) = (Inl e, s1)"
      "group_step d body p = p\<lparr>remaining := keep @ grp, retryErr := Some e, pst := s1\<rparr>"
  | (finished) delivered perm s1 m where "deliverGroup d dm grp (From (pmsg p)) body (pst p) = (Inr (delivered, perm), s1)"
      "m = (pmsg p)\<lparr>Permanent := merge_perm perm (Permanent (pmsg p)), To := keep\<rparr>"
      "group_step d body p = p\<lparr>remaining := keep, deliveredAny := deliveredAny p \<or> delivered \<noteq> [],
         permCount := permCount p + length perm, pmsg := m, pst := s1\<lparr>d_db := snd (Persist m (d_db s1))\<rparr>\<rparr>"
proof -
  obtain r s1 where g: "deliverGroup d dm grp (From (pmsg p)) body (pst p) = (r, s1)"
    by (cases "deliverGroup d dm grp (From (pmsg p)) body (pst p)")
  show thesis
  proof (cases r)
    case (Inl e)
    then show thesis using retry g assms by (simp add: group_step_def Let_def splitByDomain_eq)
  next
    case (Inr x)
    obtain delivered perm where x: "x = (delivered, perm)" by (cases x)
    have left: "left_of grp delivered perm = []" using dg.left_empty g Inr x by blast
    show thesis using finished [OF _ refl] g Inr x left assms by (simp add: group_step_def Let_def splitByDomain_eq)
  qed
qed

lemma filter_domain_disjoint:
  "domainOf ` set (filter (\<lambda>a. domainOf a = dm) xs) \<inter> domainOf ` set (filter (\<lambda>a. domainOf a \<noteq> dm) xs) = {}"
  by auto

lemma conserves_step:
  assumes "conserves m body lg0 p" and "remaining p \<noteq> []"
  shows "conserves m body lg0 (group_step d body p)"
proof -
  define dm where "dm = domainOf (hd (remaining p))"
  define grp where "grp = filter (\<lambda>a. domainOf a = dm) (remaining p)"
  define keep where "keep = filter (\<lambda>a. domainOf a \<noteq> dm) (remaining p)"
  have parts: "set keep \<union> set grp = set (remaining p)" "length keep + length grp = length (remaining p)"
    using sum_length_filter_compl [of "\<lambda>a. domainOf a = dm" "remaining p"] by (auto simp: keep_def grp_def)
  obtain new where new: "mx_log (pst p) = lg0 @ new" "\<forall>e\<in>set new. sm_from e = From m \<and> sm_body e = body"
      "accepted new \<union> set (remaining p) \<union> dom_list (Permanent (pmsg p)) = set (To m) \<union> dom_list (Permanent m)"
      "accepted new \<union> set (remaining p) \<subseteq> set (To m)" "domainOf ` accepted new \<inter> domainOf ` set (remaining p) = {}" "no_repeat new"
    and m: "ID (pmsg p) = ID m" "From (pmsg p) = From m" "Attempts (pmsg p) = Attempts m" "length (remaining p) \<le> length (To m)"
    using assms(1) unfolding conserves_def by blast
  from assms(2) dm_def grp_def keep_def show ?thesis
  proof (cases rule: group_step_cases [where d = d and body = body])
    case (retry e s1)
    have "mx_log s1 = mx_log (pst p)" using lg.retry_log [OF retry(1)] .
    moreover have "set (remaining (group_step d body p)) = set (remaining p)" using retry(2) parts by simp
    ultimately show ?thesis unfolding conserves_def using retry(2) new m parts by (auto intro!: exI [of _ new])
  next
    case (finished delivered perm s1 m')
    obtain new' where new': "mx_log s1 = mx_log (pst p) @ new'" "accepted new' \<union> dom_list perm = set grp"
        "\<forall>e\<in>set new'. sm_from e = From (pmsg p) \<and> sm_body e = body" "no_repeat new'"
      using lg.group_accounts [OF finished(1)] by blast
    have "domainOf ` accepted new' \<inter> domainOf ` set keep = {}"
      using new'(2) filter_domain_disjoint [of dm "remaining p"] unfolding grp_def keep_def by blast
    moreover have "domainOf ` accepted new \<inter> domainOf ` set keep = {}" using new(5) parts(1) by blast
    ultimately have disj: "domainOf ` accepted (new @ new') \<inter> domainOf ` set keep = {}" by auto
    have rep: "no_repeat (new @ new')" using new(5,6) new'(2,4) parts(1) by auto
    have acc: "accepted (new @ new') \<union> set keep \<union> dom_list (Permanent m') = set (To m) \<union> dom_list (Permanent m)"
      using new(3) new'(2) parts(1) finished(2) by auto
    have sub: "accepted (new @ new') \<union> set keep \<subseteq> set (To m)" using new(4) new'(2) parts(1) by auto
    have log: "mx_log s1 = lg0 @ (new @ new')" "\<forall>e\<in>set (new @ new'). sm_from e = From m \<and> sm_body e = body"
      using new(1,2) new'(1,3) m(2) by auto
    show ?thesis unfolding conserves_def finished(3)
      by (intro conjI exI [of _ "new @ new'"]; use log acc sub disj rep m parts(2) finished(2) in simp)
  qed
qed

lemma conserves_loop: "conserves m body lg0 p \<Longrightarrow> conserves m body lg0 (deliver_loop d body p)"
proof (induction d body p rule: deliver_loop.induct)
  case (1 d body p)
  then show ?case by (subst deliver_loop.simps) (simp add: conserves_step Let_def)
qed

lemma deliver_loop_ends: "retryErr p = None \<Longrightarrow> retryErr (deliver_loop d body p) = None \<Longrightarrow> remaining (deliver_loop d body p) = []"
proof (induction d body p rule: deliver_loop.induct)
  case (1 d body p)
  from 1(2,3) show ?case
    by (subst deliver_loop.simps, subst (asm) (2) deliver_loop.simps) (use 1(1) in \<open>auto simp: Let_def split: if_splits\<close>)
qed

end
