(* ===== verification/Relay_Store.thy ===== *)
theory Relay_Store
  imports Relay_Laws Smtpd_Laws
begin

text \<open>
  What delivery does to the store. One locale carries an invariant of the store through a whole
  delivery; its interpretations give the well-formedness of the queue, the isolation of other messages
  and, for the system as a whole, that delivery never makes an unauthorised row.
\<close>

section \<open>The network leaves the store alone\<close>

lemma resolveHost_db: "resolveHost d domain s = (r, s1) \<Longrightarrow> d_db s1 = d_db s"
  by (auto simp: resolveHost_def Let_def ask_def split: if_splits sum.splits)

lemma hostAddrs_db: "hostAddrs d host s = (r, s1) \<Longrightarrow> d_db s1 = d_db s"
  by (auto simp: hostAddrs_def Let_def ask_def split: if_splits sum.splits)

lemma try_addrs_db: "try_addrs d host addrs e s = (r, s1) \<Longrightarrow> d_db s1 = d_db s"
  by (induction d host addrs e s rule: try_addrs.induct) (auto simp: ask_def split: option.splits sum.splits)

lemma connect_db: "connect d host s = (r, s1) \<Longrightarrow> d_db s1 = d_db s"
  by (auto simp: connect_def split: prod.splits dest!: hostAddrs_db try_addrs_db)

lemma open_session_db: "open_session d domain host s = (r, s1) \<Longrightarrow> d_db s1 = d_db s"
  by (auto simp: open_session_def split: if_splits sum.splits prod.splits dest!: connect_db)

lemma transact_db: "transact host client tos sd body s = (r, s1) \<Longrightarrow> d_db s1 = d_db s"
  by (auto simp: transact_def split: sum.splits prod.splits if_splits option.splits)

text \<open>A group touches the store only to count the attempt.\<close>

lemma deliverGroup_db:
  "deliverGroup d domain grp sd body s = (r, s1) \<Longrightarrow> \<exists>t. d_db s1 = snd (AddCounter t ''delivery_attempts'' 1 (d_db s))"
  by (auto simp: deliverGroup_def Let_def add_counter_at_def ask_def split: sum.splits prod.splits if_splits
      dest!: resolveHost_db open_session_db transact_db)

section \<open>Invariants of the store under delivery\<close>

definition shrinks :: "message \<Rightarrow> message \<Rightarrow> bool" where
  "shrinks m m' \<longleftrightarrow> ID m' = ID m \<and> From m' = From m \<and> set (To m') \<subseteq> set (To m) \<and> length (To m') \<le> length (To m)"

text \<open>What the loop over the groups needs of an invariant, and what a whole delivery needs.\<close>

locale loop_invariant =
  fixes I :: "store \<Rightarrow> bool" and M :: "message \<Rightarrow> bool"
  assumes counter: "I s \<Longrightarrow> I (snd (AddCounter now nm k s))"
    and persist: "M m \<Longrightarrow> I s \<Longrightarrow> I (snd (Persist m s))"
    and smaller: "M m \<Longrightarrow> shrinks m m' \<Longrightarrow> M m'"
begin

lemma add_counter_at_keeps: "I (d_db s) \<Longrightarrow> I (d_db (add_counter_at d nm s))"
  by (simp add: add_counter_at_def ask_def counter)

lemma deliverGroup_keeps: "deliverGroup d domain grp sd body s = (r, s1) \<Longrightarrow> I (d_db s) \<Longrightarrow> I (d_db s1)"
  using deliverGroup_db counter by metis

definition held :: "progress \<Rightarrow> bool" where
  "held p \<longleftrightarrow> I (d_db (pst p)) \<and> M ((pmsg p)\<lparr>To := remaining p\<rparr>)"

lemma held_step:
  assumes "held p" and ne: "remaining p \<noteq> []"
  shows "held (group_step d body p)"
proof -
  define dm where "dm = domainOf (hd (remaining p))"
  define grp where "grp = filter (\<lambda>a. domainOf a = dm) (remaining p)"
  define keep where "keep = filter (\<lambda>a. domainOf a \<noteq> dm) (remaining p)"
  have len: "length keep + length grp = length (remaining p)"
    using sum_length_filter_compl [of "\<lambda>a. domainOf a = dm" "remaining p"] by (simp add: keep_def grp_def)
  have sub: "set keep \<subseteq> set (remaining p)" "set grp \<subseteq> set (remaining p)" by (auto simp: keep_def grp_def)
  have M: "M ((pmsg p)\<lparr>To := remaining p\<rparr>)" and I: "I (d_db (pst p))" using assms(1) by (simp_all add: held_def)
  from ne dm_def grp_def keep_def show ?thesis
  proof (cases rule: group_step_cases [where d = d and body = body])
    case (retry e s1)
    have "M ((pmsg p)\<lparr>To := keep @ grp\<rparr>)" using smaller [OF M] sub len by (simp add: shrinks_def)
    then show ?thesis using retry deliverGroup_keeps [OF retry(1) I] by (simp add: held_def)
  next
    case (finished delivered perm s1 m)
    have "M m" using smaller [OF M, of m] sub len finished(2) by (simp add: shrinks_def)
    moreover have "m\<lparr>To := keep\<rparr> = m" using finished(2) by simp
    ultimately show ?thesis using finished(3) persist deliverGroup_keeps [OF finished(1) I] by (simp add: held_def)
  qed
qed

lemma held_loop: "held p \<Longrightarrow> held (deliver_loop d body p)"
proof (induction d body p rule: deliver_loop.induct)
  case (1 d body p)
  then show ?case by (subst deliver_loop.simps) (simp add: held_step Let_def)
qed

end

locale delivery_invariant = loop_invariant +
  assumes bumped: "I s \<Longrightarrow> I (BumpAttempt rc t i s)"
    and marked_delivered: "I s \<Longrightarrow> I (MarkDelivered rc t i s)"
    and marked_dead: "I s \<Longrightarrow> I (MarkDead rc t i reason s)"
    and read_key: "I s \<Longrightarrow> I (snd (GetDKIM dm s))"
    and release: "M m \<Longrightarrow> I s \<Longrightarrow> I (snd (Release (ID m) s))"
    and succeed: "M m \<Longrightarrow> I s \<Longrightarrow> I (snd (Succeed (ID m) s))"
    and dead: "M m \<Longrightarrow> I s \<Longrightarrow> I (snd (DeadLetter (ID m) reason s))"
begin

lemma deadLetter_keeps: "M m \<Longrightarrow> I (d_db s) \<Longrightarrow> I (d_db (deadLetter d (ID m) reason s))"
  using dead [of m "d_db s" reason]
  by (auto simp: deadLetter_def ask_def Let_def split: prod.splits sum.splits
      intro!: add_counter_at_keeps marked_dead)

lemma retry_keeps: "M m \<Longrightarrow> I (d_db s) \<Longrightarrow> I (d_db (deliver_retry d e m s))"
proof -
  assume M: "M m" and I: "I (d_db s)"
  have up: "M (m\<lparr>LastError := l, Attempts := a\<rparr>)" "M (m\<lparr>LastError := l, Attempts := a, NextAttempt := x\<rparr>)" for l a x
    using smaller [OF M] by (simp_all add: shrinks_def)
  show ?thesis
    using deadLetter_keeps [OF up(1)] release [OF up(2)] persist [OF up(2)] I
    by (simp add: deliver_retry_def Let_def ask_def)
qed

lemma finish_keeps: "M (pmsg p) \<Longrightarrow> I (d_db (pst p)) \<Longrightarrow> I (d_db (deliver_done d p))"
  using succeed [of "pmsg p" "d_db (pst p)"]
  by (auto simp: deliver_done_def Let_def ask_def deadLetter_keeps split: prod.splits sum.splits
      intro!: add_counter_at_keeps marked_delivered)

lemma prepareBody_keeps: "prepareBody d m s = (r, s1) \<Longrightarrow> I (d_db s) \<Longrightarrow> I (d_db s1)"
  using read_key [of "d_db s" "domainOf (From m)"]
  by (auto simp: prepareBody_def Let_def split: prod.splits sum.splits option.splits)

lemma deliver_keeps:
  assumes M: "M m" and I: "I (d_db s)"
  shows "I (d_db (deliver d m s))"
proof -
  define s1 where "s1 = (snd (ask s))\<lparr>d_db := BumpAttempt (r_rec d) (Now d (d_ev s) div 1000000) (ID m) (d_db s)\<rparr>"
  have I1: "I (d_db s1)" using bumped [OF I] by (simp add: s1_def)
  obtain r s2 where b: "prepareBody d m s1 = (r, s2)" by (cases "prepareBody d m s1")
  have I2: "I (d_db s2)" using prepareBody_keeps [OF b I1] .
  have eq: "deliver d m s = (case r of
      Inl err \<Rightarrow> deadLetter d (ID m) (''preparation: '' @ err_text err) s2
    | Inr body \<Rightarrow> (let p0 = deliver_loop d body (start_progress m s2); p = p0\<lparr>pmsg := (pmsg p0)\<lparr>To := remaining p0\<rparr>\<rparr>
        in case retryErr p of Some err \<Rightarrow> deliver_retry d err (pmsg p) (pst p) | None \<Rightarrow> deliver_done d p))"
    using b by (simp add: deliver_def ask_def s1_def)
  have "held (start_progress m s2)" using M I2 by (simp add: held_def start_progress_def)
  then have h: "held (deliver_loop d body (start_progress m s2))" for body by (rule held_loop)
  show ?thesis
    using deadLetter_keeps [OF M I2] h retry_keeps finish_keeps
    by (simp add: eq held_def Let_def split: sum.split option.split)
qed

lemma batch_keeps: "list_all M ms \<Longrightarrow> I (d_db s) \<Longrightarrow> I (d_db (fold (deliver d) ms s))"
  by (induction ms arbitrary: s) (simp_all add: deliver_keeps)

end

text \<open>Most invariants do not look at the history or at the failures to come; then the queue operations are all they need.\<close>

locale core_invariant = loop_invariant +
  assumes core: "same_core s t \<Longrightarrow> I s \<Longrightarrow> I t"
    and c_release: "M m \<Longrightarrow> I s \<Longrightarrow> I (snd (Release (ID m) s))"
    and c_succeed: "M m \<Longrightarrow> I s \<Longrightarrow> I (snd (Succeed (ID m) s))"
    and c_dead: "M m \<Longrightarrow> I s \<Longrightarrow> I (snd (DeadLetter (ID m) reason s))"

lemma GetDKIM_same_core: "same_core s (snd (GetDKIM dm s))"
  using select_inv(1) by (cases "GetDKIM dm s") (fastforce simp: GetDKIM_def)

sublocale core_invariant \<subseteq> delivery_invariant
  by unfold_locales (auto intro: core recorder_same_core GetDKIM_same_core c_release c_succeed c_dead)

section \<open>The queue stays well-formed\<close>

lemma AddCounter_frame:
  "queue_messages (snd (AddCounter t nm k s)) = queue_messages s \<and> accounts (snd (AddCounter t nm k s)) = accounts s \<and>
   instance_id (snd (AddCounter t nm k s)) = instance_id s"
proof -
  have put: "queue_messages s1 = queue_messages s \<and> accounts s1 = accounts s \<and> instance_id s1 = instance_id s"
    if "sql (conflict_clause (put_counters t)) s = (r, s1)" for r s1 s
    using that by (auto simp: conflict_clause_def put_counters_def elim!: sql_cases split: if_splits option.splits)
  have add: "queue_messages (snd (sql (add_counter t nm k) s)) = queue_messages s \<and>
      accounts (snd (sql (add_counter t nm k) s)) = accounts s \<and> instance_id (snd (sql (add_counter t nm k) s)) = instance_id s" for s
    by (simp add: sql_def add_counter_def split: list.split option.split)
  show ?thesis
    by (auto simp: AddCounter_def ensureCountersRow_def add split: prod.split sum.split dest!: put)
qed

lemma AddCounter_queue_inv: "queue_inv s \<Longrightarrow> queue_inv (snd (AddCounter t nm k s))"
  using AddCounter_frame [of t nm k s] by (simp add: queue_inv_def)

interpretation qi: core_invariant queue_inv "\<lambda>m. True"
  by unfold_locales
    (simp_all add: same_core_queue_inv AddCounter_queue_inv Persist_inv Release_inv Succeed_inv DeadLetter_inv)

section \<open>Other messages are left alone\<close>

interpretation iso: core_invariant "\<lambda>s. row \<in> set (queue_messages s)" "\<lambda>m. ID m \<noteq> q_id row \<and> q_status row \<noteq> StatusDead" for row
  by unfold_locales
    (auto simp: same_core_def AddCounter_frame shrinks_def
      intro: Persist_keeps Release_keeps Succeed_keeps DeadLetter_keeps)

section \<open>Delivery authorises nothing\<close>

text \<open>A store of which the accounts are within \<open>A\<close> and the rows satisfy a policy.\<close>

definition rows_ok :: "account set \<Rightarrow> (queue_row \<Rightarrow> bool) \<Rightarrow> store \<Rightarrow> bool" where
  "rows_ok A P s \<longleftrightarrow> set (accounts s) \<subseteq> A \<and> list_all P (queue_messages s)"

interpretation ro: table_invariant "rows_ok A P" for A P
  by unfold_locales (simp add: rows_ok_def)

lemma rows_ok_delete: "sql (delete_queue Q) s = (x, s1) \<Longrightarrow> rows_ok A P s \<Longrightarrow> rows_ok A P s1"
  by (erule ro.sql_keeps') (auto simp: rows_ok_def delete_queue_def list_all_iff)

lemma rows_ok_victims: "rows_ok A P s \<Longrightarrow> rows_ok A P (snd (delete_victims ids s))"
  by (induction ids arbitrary: s) (auto split: prod.split sum.split dest!: rows_ok_delete)

lemma rows_ok_pruneDead: "rows_ok A P s \<Longrightarrow> rows_ok A P (snd (pruneDead s))"
  by (auto simp: pruneDead_def Let_def rows_ok_victims split: prod.split sum.split dest!: ro.select_keeps)

text \<open>Messages handed out are rows of the queue.\<close>

lemma claim_all_from: "claim_all l t ms ready s = (Inr out, s1) \<Longrightarrow> set out \<subseteq> set ready \<union> set ms"
  by (induction ms arbitrary: ready s) (fastforce split: prod.splits sum.splits if_splits)+

lemma NextDue_from:
  assumes "NextDue now limit s = (Inr out, s1)"
  shows "set out \<subseteq> scanMessage ` set (queue_messages s)"
proof -
  obtain rows s2 where sel: "sql (select (due_rows (now div 1000000) (eff_limit limit))) s = (Inr rows, s2)"
    and cl: "claim_all ((now + LeaseTimeout) div 1000000) (now div 1000000) (map scanMessage rows) [] s2 = (Inr out, s1)"
    using assms by (auto simp: NextDue_def Let_def UnixMilli_def split: prod.splits sum.splits)
  have "set rows \<subseteq> set (queue_messages s)" using select_Inr [OF sel] set_due_rows by fastforce
  then show ?thesis using claim_all_from [OF cl] by fastforce
qed

text \<open>
  A policy on rows with its counterpart \<open>M\<close> on the messages that the deliverer holds: what it reads from
  an allowed row is allowed, what has fewer recipients is, and writing it back gives an allowed row.
\<close>

locale mail_policy = row_policy P for P +
  fixes M :: "message \<Rightarrow> bool"
  assumes scanned: "P r \<Longrightarrow> M (scanMessage r)"
    and fewer: "M m \<Longrightarrow> shrinks m m' \<Longrightarrow> M m'"
    and written: "P r \<Longrightarrow> M m \<Longrightarrow> To m \<noteq> [] \<Longrightarrow> P (r\<lparr>q_to := To m\<rparr>)"
begin

lemma update_ok:
  assumes "\<And>r. P r \<Longrightarrow> P (g r)" and "sql (update_queue Q g) s = (x, s1)" and "rows_ok A P s"
  shows "rows_ok A P s1"
  using assms(2,3) by (rule ro.sql_keeps') (use assms(1) in \<open>auto simp: rows_ok_def update_queue_def list_all_iff\<close>)

text \<open>Statements that leave the envelope of the rows as it is.\<close>

lemma update_same_ok:
  assumes "sql (update_queue Q g) s = (x, s1)" and "rows_ok A P s" and "\<And>r. q_sender (g r) = q_sender r" and "\<And>r. q_to (g r) = q_to r"
  shows "rows_ok A P s1"
  using assms(1,2) by (rule update_ok [rotated]) (rule same_envelope, simp_all add: assms(3,4))

lemma Persist_rows: "M m \<Longrightarrow> rows_ok A P s \<Longrightarrow> rows_ok A P (snd (Persist m s))"
proof -
  assume M: "M m" and ok: "rows_ok A P s"
  have "P (r\<lparr>q_to := To m, q_permanent := pm, q_attempts := a, q_next_attempt := nx, q_last_error := le, q_lease_until := lu, q_worker_id := wi\<rparr>)"
    if "P r" and "To m \<noteq> []" for r pm a nx le lu wi
    using written [OF that(1) M that(2)] by (rule same_envelope) simp_all
  then show ?thesis using ok
    by (auto simp: Persist_def Let_def split: prod.split sum.split dest!: update_ok [rotated])
qed

lemma Release_rows: "rows_ok A P s \<Longrightarrow> rows_ok A P (snd (Release i s))"
  by (auto simp: Release_def split: prod.split sum.split dest!: update_same_ok)

lemma Succeed_rows: "rows_ok A P s \<Longrightarrow> rows_ok A P (snd (Succeed i s))"
  by (auto simp: Succeed_def split: prod.split sum.split dest!: rows_ok_delete)

lemma DeadLetter_rows: "rows_ok A P s \<Longrightarrow> rows_ok A P (snd (DeadLetter i reason s))"
  by (auto simp: DeadLetter_def rows_ok_pruneDead split: prod.split sum.split dest!: update_same_ok)

lemma claim_step_rows: "claim l t i s = (r, s1) \<Longrightarrow> rows_ok A P s \<Longrightarrow> rows_ok A P s1"
  unfolding claim_def by (erule update_same_ok) simp_all

lemma claims_rows: "rows_ok A P s \<Longrightarrow> rows_ok A P (snd (claim_all l t ms ready s))"
  by (induction ms arbitrary: s ready) (auto split: prod.split sum.split dest: claim_step_rows)

lemma NextDue_rows: "rows_ok A P s \<Longrightarrow> rows_ok A P (snd (NextDue now limit s))"
  by (auto simp: NextDue_def Let_def claims_rows split: prod.split sum.split dest!: ro.select_keeps)

end

sublocale mail_policy \<subseteq> di: core_invariant "rows_ok A P" M for A
proof unfold_locales
  fix m m'
  show "M m \<Longrightarrow> shrinks m m' \<Longrightarrow> M m'" by (rule fewer)
qed (auto simp: Persist_rows Release_rows Succeed_rows DeadLetter_rows, auto simp: rows_ok_def same_core_def AddCounter_frame)

context mail_policy
begin

lemma handed_out:
  assumes "NextDue now limit s = (Inr ms, s1)" and "rows_ok A P s" and "set ms' \<subseteq> set ms"
  shows "list_all M ms'"
proof -
  have "set ms' \<subseteq> scanMessage ` set (queue_messages s)" using NextDue_from [OF assms(1)] assms(3) by blast
  then show ?thesis using assms(2) scanned by (fastforce simp: rows_ok_def list_all_iff)
qed

lemma processBatch_rows:
  assumes "\<And>ms. set (sched ms) \<subseteq> set ms" and "rows_ok A P (d_db s)"
  shows "rows_ok A P (d_db (processBatch d sched s))"
proof -
  obtain r db1 where nd: "NextDue (Now d (d_ev s)) (batch_size d) (d_db s) = (r, db1)"
    by (cases "NextDue (Now d (d_ev s)) (batch_size d) (d_db s)")
  have ok1: "rows_ok A P db1" using NextDue_rows [OF assms(2), of "Now d (d_ev s)" "batch_size d"] nd by simp
  have "list_all M (sched ms)" if "r = Inr ms" for ms using handed_out nd that assms by blast
  then show ?thesis using nd ok1 di.batch_keeps [of _ A "_\<lparr>d_db := db1\<rparr>"]
    by (auto simp: processBatch_def ask_def split: sum.split)
qed

end

text \<open>The policy of submission.\<close>

definition msg_ok :: "config \<Rightarrow> message \<Rightarrow> bool" where
  "msg_ok cf m \<longleftrightarrow> list_all validEnvelopeAddr (To m) \<and> int (length (To m)) \<le> MaxRecipients cf"

interpretation auth: mail_policy "authorised A cf" "msg_ok cf" for A cf
  by unfold_locales (auto simp: authorised_def msg_ok_def shrinks_def scanMessage_def list_all_iff subset_iff)

section \<open>Without failing statements\<close>

text \<open>The parts of a row that deliveries do not change.\<close>

definition same_mail :: "queue_row \<Rightarrow> queue_row \<Rightarrow> bool" where
  "same_mail r r' \<longleftrightarrow> q_id r' = q_id r \<and> q_sender r' = q_sender r \<and> q_data r' = q_data r \<and> q_status r' = q_status r \<and>
     q_created_at r' = q_created_at r"

lemma same_mail_refl [simp]: "same_mail r r"
  by (simp add: same_mail_def)

definition held_row :: "queue_row \<Rightarrow> store \<Rightarrow> bool" where
  "held_row r s \<longleftrightarrow> faults s = [] \<and> queue_inv s \<and> (\<exists>r'. row_of (q_id r) s = Some r' \<and> same_mail r r')"

lemma faults_AddCounter: "faults s = [] \<Longrightarrow> faults (snd (AddCounter t nm k s)) = []"
  by (simp add: AddCounter_def ensureCountersRow_def sql_no_fault conflict_clause_def put_counters_def add_counter_def
      split: prod.split sum.split option.split)

text \<open>Statements that succeed leave no failure behind.\<close>

lemma faults_stmts [simp]:
  "faults (snd (update_queue Q g s)) = faults s" "faults (snd (delete_queue Q s)) = faults s" "faults (snd (insert_queue r s)) = faults s"
  "faults (snd (select f s)) = faults s"
  by (simp_all add: update_queue_def delete_queue_def insert_queue_def select_def)

lemma faults_queue_ops:
  assumes "faults s = []"
  shows "faults (snd (Persist m s)) = []" "faults (snd (Release i s)) = []" "faults (snd (Succeed i s)) = []"
  using assms by (auto simp: Persist_def Release_def Succeed_def sql_no_fault Let_def case_prod_beta split: sum.split)

lemma faults_victims: "faults s = [] \<Longrightarrow> faults (snd (delete_victims ids s)) = []"
  by (induction ids arbitrary: s) (auto simp: sql_no_fault case_prod_beta split: sum.split)

lemma faults_DeadLetter: "faults s = [] \<Longrightarrow> faults (snd (DeadLetter i reason s)) = []"
  by (auto simp: DeadLetter_def pruneDead_def sql_no_fault Let_def case_prod_beta faults_victims split: sum.split)

lemma faults_recorder:
  assumes "faults s = []"
  shows "faults (BumpAttempt rc t i s) = []" "faults (MarkDelivered rc t i s) = []" "faults (MarkDead rc t i reason s) = []"
  using assms by (simp_all add: BumpAttempt_def BumpSendAttempt_def MarkDelivered_def MarkDead_def SetSendStatus_def UpdateSendLogStatus_def
      sql_no_fault update_log_def split: option.split)

interpretation qt: delivery_invariant "\<lambda>s. faults s = []" "\<lambda>m. True"
  by unfold_locales (simp_all add: faults_AddCounter faults_queue_ops faults_DeadLetter faults_recorder GetDKIM_def sql_no_fault select_def)

lemma held_row_AddCounter: "held_row r s \<Longrightarrow> held_row r (snd (AddCounter t nm k s))"
  using AddCounter_frame [of t nm k s] by (simp add: held_row_def faults_AddCounter AddCounter_queue_inv row_of_def)

lemma Persist_row:
  assumes "faults s = []" and "To m \<noteq> []" and "row_of (ID m) s = Some r"
  shows "row_of (ID m) (snd (Persist m s)) =
     Some (r\<lparr>q_to := To m, q_permanent := Permanent m, q_attempts := Attempts m,
            q_next_attempt := (if NextAttempt m = None then 0 else UnixMilli (NextAttempt m)),
            q_last_error := LastError m, q_lease_until := 0, q_worker_id := []\<rparr>)"
    "faults (snd (Persist m s)) = []"
proof -
  let ?next = "if NextAttempt m = None then 0 else UnixMilli (NextAttempt m)"
  let ?g = "\<lambda>r. r\<lparr>q_to := To m, q_permanent := Permanent m, q_attempts := Attempts m, q_next_attempt := ?next,
     q_last_error := LastError m, q_lease_until := 0, q_worker_id := []\<rparr>"
  have s: "snd (Persist m s) = snd (update_queue (\<lambda>r. q_id r = ID m) ?g s)"
    using assms(1,2) by (simp add: Persist_def Let_def sql_no_fault update_queue_def)
  show "row_of (ID m) (snd (Persist m s)) = Some (?g r)"
    unfolding s using row_of_update [of ?g] assms(3) row_of_id [OF assms(3)] by simp
  show "faults (snd (Persist m s)) = []" unfolding s using assms(1) by (simp add: update_queue_def)
qed

lemma held_row_Persist:
  assumes "ID m = q_id r" and "held_row r s"
  shows "held_row r (snd (Persist m s))"
proof (cases "To m = []")
  case True
  then show ?thesis using assms(2) by (simp add: Persist_def)
next
  case False
  obtain r' where r': "row_of (ID m) s = Some r'" "same_mail r r'" using assms unfolding held_row_def by auto
  have "faults s = []" "queue_inv s" using assms(2) by (simp_all add: held_row_def)
  then show ?thesis using Persist_row [OF _ False r'(1)] r'(2) assms(1) Persist_inv [of s m]
    by (simp add: held_row_def same_mail_def)
qed

interpretation nf: loop_invariant "held_row r" "\<lambda>m. ID m = q_id r" for r
  by unfold_locales (simp_all add: held_row_AddCounter held_row_Persist shrinks_def)

lemma group_step_retry: "retryErr (group_step d body p) = Some e \<Longrightarrow> retryErr p = None \<Longrightarrow> remaining p \<noteq> [] \<Longrightarrow>
    remaining (group_step d body p) \<noteq> []"
proof -
  assume "retryErr (group_step d body p) = Some e" "retryErr p = None" and ne: "remaining p \<noteq> []"
  from ne refl refl refl show ?thesis
  proof (cases rule: group_step_cases [where d = d and body = body])
    case (retry e' s1)
    then show ?thesis using ne by (cases "remaining p") auto
  next
    case finished
    then show ?thesis using \<open>retryErr (group_step d body p) = Some e\<close> \<open>retryErr p = None\<close> by simp
  qed
qed

lemma deliver_loop_retry:
  "retryErr p = None \<Longrightarrow> retryErr (deliver_loop d body p) = Some e \<Longrightarrow> remaining (deliver_loop d body p) \<noteq> []"
proof (induction d body p rule: deliver_loop.induct)
  case (1 d body p)
  show ?case
  proof (cases "remaining p = [] \<or> retryErr (group_step d body p) \<noteq> None")
    case True
    then show ?thesis using 1(2,3) group_step_retry [of d body p] by (auto simp: deliver_loop.simps [of d body p] Let_def split: if_splits)
  next
    case False
    then have "deliver_loop d body p = deliver_loop d body (group_step d body p)"
      by (simp add: deliver_loop.simps [of d body p] Let_def)
    then show ?thesis using 1(1) False 1(3) by auto
  qed
qed

section \<open>The end of a delivery\<close>

lemma end_logs [simp]:
  "mx_log (deadLetter d i reason s) = mx_log s" "mx_log (deliver_retry d e m s) = mx_log s" "mx_log (deliver_done d p) = mx_log (pst p)"
proof -
  show dl: "mx_log (deadLetter d i reason s) = mx_log s" for i reason s
    by (simp add: deadLetter_def ask_def Let_def split: prod.split sum.split)
  show "mx_log (deliver_retry d e m s) = mx_log s" by (simp add: deliver_retry_def ask_def Let_def dl)
  show "mx_log (deliver_done d p) = mx_log (pst p)"
    by (simp add: deliver_done_def ask_def Let_def dl split: prod.split sum.split)
qed

lemma prepareBody_facts:
  "prepareBody d m s = (r, s1) \<Longrightarrow> mx_log s1 = mx_log s \<and> (\<exists>fs. d_db s1 = (d_db s)\<lparr>faults := fs\<rparr>) \<and> (\<exists>body. r = Inr body)"
  by (auto simp: prepareBody_def Let_def GetDKIM_def split: prod.splits sum.splits option.splits dest!: select_inv(1)) metis

lemma prepareBody_no_faults: "prepareBody d m s = (r, s1) \<Longrightarrow> faults (d_db s) = [] \<Longrightarrow> d_db s1 = d_db s"
  by (auto simp: prepareBody_def Let_def GetDKIM_def sql_no_fault select_def split: prod.splits sum.splits option.splits)

text \<open>The body that is sent and the state in which the recipients are worked through.\<close>

definition deliver_body :: "relay \<Rightarrow> message \<Rightarrow> dstate \<Rightarrow> string res \<times> dstate" where
  "deliver_body d m s = prepareBody d m
     ((snd (ask s))\<lparr>d_db := BumpAttempt (r_rec d) (Now d (d_ev s) div 1000000) (ID m) (d_db s)\<rparr>)"

lemma deliver_body_facts:
  assumes "deliver_body d m s = (r, s2)"
  shows "\<exists>body. r = Inr body" "mx_log s2 = mx_log s" "held_row row (d_db s) \<Longrightarrow> held_row row (d_db s2)"
proof -
  note f = prepareBody_facts [OF assms [unfolded deliver_body_def]]
  show "\<exists>body. r = Inr body" "mx_log s2 = mx_log s" using f by (auto simp: ask_def)
  assume h: "held_row row (d_db s)"
  let ?db = "BumpAttempt (r_rec d) (Now d (d_ev s) div 1000000) (ID m) (d_db s)"
  have fl: "faults ?db = []" using h by (simp add: held_row_def faults_recorder)
  have db: "d_db s2 = ?db" using prepareBody_no_faults [OF assms [unfolded deliver_body_def]] fl by simp
  have "same_core (d_db s) ?db" by (rule recorder_same_core)
  then show "held_row row (d_db s2)"
    using h fl same_core_queue_inv [of "d_db s" ?db] unfolding db by (simp add: held_row_def row_of_def same_core_def)
qed

lemma deliver_eq:
  assumes "deliver_body d m s = (Inr body, s2)" and "p = deliver_loop d body (start_progress m s2)"
  shows "deliver d m s = (case retryErr p of
     Some err \<Rightarrow> deliver_retry d err ((pmsg p)\<lparr>To := remaining p\<rparr>) (pst p)
   | None \<Rightarrow> deliver_done d (p\<lparr>pmsg := (pmsg p)\<lparr>To := remaining p\<rparr>\<rparr>))"
  using assms by (simp add: deliver_def deliver_body_def ask_def Let_def split: option.split)

lemma DeadLetter_not_waiting:
  assumes "faults s = []" and "queue_inv s"
  shows "phase_of i (snd (DeadLetter i reason s)) \<noteq> Waiting"
proof -
  let ?g = "\<lambda>r. r\<lparr>q_status := StatusDead, q_last_error := reason, q_next_attempt := 0, q_lease_until := 0, q_worker_id := []\<rparr>"
  define s1 where "s1 = snd (update_queue (\<lambda>r. q_id r = i) ?g s)"
  have s: "DeadLetter i reason s = pruneDead s1"
    using assms(1) by (simp add: DeadLetter_def sql_no_fault s1_def update_queue_def)
  have inv: "queue_inv s1" unfolding s1_def by (rule update_queue_inv [OF assms(2)]) (auto simp: wf_row_def)
  have "row_of i s1 = map_option (\<lambda>r. if q_id r = i then ?g r else r) (row_of i s)"
    unfolding s1_def by (rule row_of_update) simp
  then have "phase_of i s1 \<noteq> Waiting" using row_of_id [of i s] by (auto simp: phase_of_def split: option.split)
  then show ?thesis unfolding s using pruneDead_phase [OF inv, of i] by auto
qed

lemma phase_row_cong: "queue_messages s' = queue_messages s \<Longrightarrow> phase_of i s' = phase_of i s"
  by (simp add: phase_of_def row_of_def)

lemma deadLetter_not_waiting:
  assumes "faults (d_db s) = []" and "queue_inv (d_db s)"
  shows "phase_of i (d_db (deadLetter d i reason s)) \<noteq> Waiting"
proof -
  obtain x db1 where dl: "DeadLetter i reason (d_db s) = (x, db1)" by (cases "DeadLetter i reason (d_db s)")
  have nw: "phase_of i db1 \<noteq> Waiting" using DeadLetter_not_waiting [OF assms, of i reason] dl by simp
  have "queue_messages (MarkDead (r_rec d) t i reason db1) = queue_messages db1" for t
    using recorder_same_core(3) [of db1 "r_rec d" t i reason] by (simp add: same_core_def)
  then have "phase_of i (snd (AddCounter t' nm k (MarkDead (r_rec d) t i reason db1))) = phase_of i db1" for t' nm k t
    using AddCounter_frame [of t' nm k "MarkDead (r_rec d) t i reason db1"] by (intro phase_row_cong) simp
  with nw show ?thesis by (simp add: deadLetter_def dl ask_def Let_def add_counter_at_def split: sum.split)
qed

lemma Succeed_removes:
  assumes "held_row r s" and "q_status r = StatusQueued"
  shows "row_of (q_id r) (snd (Succeed (q_id r) s)) = None" "fst (Succeed (q_id r) s) = Inr ()"
proof -
  obtain r' where r': "row_of (q_id r) s = Some r'" "same_mail r r'" and f: "faults s = []" and inv: "queue_inv s"
    using assms(1) unfolding held_row_def by blast
  let ?P = "\<lambda>x. q_id x = q_id r \<and> q_status x = StatusQueued"
  have "snd (Succeed (q_id r) s) = snd (delete_queue ?P s)" using f by (simp add: Succeed_def sql_no_fault delete_queue_def)
  moreover have "row_of (q_id r) (snd (delete_queue ?P s)) = None"
    using row_of_delete [of s "q_id r" ?P] inv r' assms(2) by (simp add: queue_inv_def same_mail_def)
  ultimately show "row_of (q_id r) (snd (Succeed (q_id r) s)) = None" by simp
  show "fst (Succeed (q_id r) s) = Inr ()" using f by (simp add: Succeed_def sql_no_fault delete_queue_def)
qed

lemma Release_row:
  assumes "faults s = []" and "row_of i s = Some r"
  shows "row_of i (snd (Release i s)) = Some (r\<lparr>q_lease_until := 0, q_worker_id := []\<rparr>)"
proof -
  let ?g = "\<lambda>r. r\<lparr>q_lease_until := 0, q_worker_id := []\<rparr>"
  have "snd (Release i s) = snd (update_queue (\<lambda>r. q_id r = i) ?g s)"
    using assms(1) by (simp add: Release_def sql_no_fault update_queue_def)
  then show ?thesis using row_of_update [of ?g i "\<lambda>r. q_id r = i" s] assms(2) row_of_id [OF assms(2)] by simp
qed

end
