(* ===== verification/Relay_Props.thy ===== *)
theory Relay_Props
  imports Relay_Store
begin

text \<open>The properties of the deliverer.\<close>

section \<open>A network to test with\<close>

text \<open>Every domain is its own mail exchanger; \<open>y\<close> accepts everything but \<open>bad@y\<close>, every other host cannot be dialled.\<close>

definition demo_peer :: peer where
  "demo_peer = \<lparr>p_hello = Inr (), p_has_starttls = False, p_starttls = Inr (), p_mail = (\<lambda>_. Inr ()),
     p_rcpt = (\<lambda>_ a. if a = ''bad@y'' then Inl (TextprotoError 550 ''no'') else Inr ()),
     p_data = Inr (), p_write = (\<lambda>_. Inr ()), p_close = Inr ()\<rparr>"

definition demo_relay :: relay where
  "demo_relay = \<lparr>r_cfg = defaults \<lparr>ParseDuration = (\<lambda>s. None), X509KeyPair = (\<lambda>a b. Inr ()), crypto = demo_crypto,
       os_Hostname = ''h'', ReadFile = (\<lambda>p. Inl (Errorf ''no file'')), Stat = (\<lambda>p. False), UserConfigDir = None,
       yaml_Unmarshal = (\<lambda>s c. Inr c)\<rparr>, r_rec = None, r_crypto = demo_crypto,
     lookupMX = (\<lambda>_ d. Inr [\<lparr>Host = d, Pref = 10\<rparr>]), LookupHost = (\<lambda>_ h. Inr [h]), ParseIP = (\<lambda>_. False),
     DialTimeout = (\<lambda>_ a. if a = ''y:25'' then Inr () else Inl (Errorf ''refused'')), NewClient = (\<lambda>_ _. Inr demo_peer),
     Now = (\<lambda>n. 1000000000 * int n), map_range = (\<lambda>m. m)\<rparr>"

definition demo_msg :: message where
  "demo_msg = scanMessage (new_row 1 ''m1'' ''a@x'' [''b@y'', ''bad@y'', ''c@z''] ''hi'')"

definition demo_dstate :: dstate where
  "demo_dstate = \<lparr>d_db = (new_store ''sqlite'' ''w'')\<lparr>queue_messages := [new_row 1 ''m1'' ''a@x'' [''b@y'', ''bad@y'', ''c@z''] ''hi'']\<rparr>,
     d_counts = \<lparr>AuthSuccess = 0, AuthFailure = 0, MessagesQueued = 0, DeliveryAttempts = 0, MessagesDelivered = 0,
       MessagesDead = 0, Requeued = 0\<rparr>, d_ev = 0, mx_log = []\<rparr>"

definition demo_progress :: progress where
  "demo_progress = deliver_loop demo_relay ''hi'' (start_progress demo_msg demo_dstate)"

lemma demo_progress_result:
  "remaining demo_progress = [''c@z'']" "map sm_rcpts (mx_log (pst demo_progress)) = [[''b@y'']]"
  "map fst (Permanent (pmsg demo_progress)) = [''bad@y'']"
  by code_simp+

section \<open>Recipients\<close>

text \<open>
  C7. No recipient is lost. When the recipients of a message have been worked through, whatever the
  network and the store did, each of them has been accepted by a mail exchanger in a message with the
  envelope sender and the body of this one, or is recorded as permanently rejected, or is still to be
  tried; nobody else has been sent anything. None that is still to be tried has been sent the message,
  so that a retry repeats no delivery; and recipients are still to be tried only after a retry error.
\<close>

theorem deliver_loop_conserves:
  assumes "p = deliver_loop d body (start_progress m s)"
  shows "\<exists>new. mx_log (pst p) = mx_log s @ new \<and> (\<forall>e\<in>set new. sm_from e = From m \<and> sm_body e = body) \<and>
    accepted new \<union> set (remaining p) \<union> dom_list (Permanent (pmsg p)) = set (To m) \<union> dom_list (Permanent m) \<and>
    accepted new \<subseteq> set (To m) \<and> accepted new \<inter> set (remaining p) = {} \<and> (retryErr p = None \<longrightarrow> remaining p = [])"
proof -
  have "conserves m body (mx_log s) p" unfolding assms by (intro conserves_loop conserves_start) simp
  then obtain new where new: "mx_log (pst p) = mx_log s @ new" "\<forall>e\<in>set new. sm_from e = From m \<and> sm_body e = body"
      "accepted new \<union> set (remaining p) \<union> dom_list (Permanent (pmsg p)) = set (To m) \<union> dom_list (Permanent m)"
      "accepted new \<union> set (remaining p) \<subseteq> set (To m)" "domainOf ` accepted new \<inter> domainOf ` set (remaining p) = {}"
    unfolding conserves_def by (elim conjE exE)
  have "retryErr p = None \<longrightarrow> remaining p = []"
    unfolding assms using deliver_loop_ends [of "start_progress m s"] by (simp add: start_progress_def)
  moreover have "accepted new \<inter> set (remaining p) = {}" using new(5) by blast
  ultimately show ?thesis using new(1-4) by (intro exI [of _ new]) simp
qed

lemma deliver_loop_conserves_witness:
  "\<exists>new. mx_log (pst demo_progress) = [] @ new \<and> accepted new \<union> {''c@z''} \<union> {''bad@y''} = {''b@y'', ''bad@y'', ''c@z''} \<and>
     accepted new \<inter> {''c@z''} = {}"
proof -
  have "mx_log demo_dstate = []" "set (To demo_msg) = {''b@y'', ''bad@y'', ''c@z''}" "Permanent demo_msg = []"
    by (simp_all add: demo_dstate_def demo_msg_def scanMessage_def new_row_def)
  moreover have "dom_list (Permanent (pmsg demo_progress)) = {''bad@y''}"
    using demo_progress_result(3) by (metis dom_list_def list.set_map list.simps(15) empty_set)
  ultimately show ?thesis
    using deliver_loop_conserves [OF demo_progress_def] demo_progress_result(1) by simp
qed

section \<open>The row of the message\<close>

lemma demo_held: "held_row (new_row 1 ''m1'' ''a@x'' [''b@y'', ''bad@y'', ''c@z''] ''hi'') (d_db demo_dstate)"
  by (simp add: held_row_def demo_dstate_def new_store_def queue_inv_def wf_row_def new_row_def row_of_def)

lemma deliver_retry_row:
  assumes "held_row r (d_db s)" and "ID m = q_id r" and "To m \<noteq> []" and "Attempts m + 1 < MaxAttempts (Delivery (r_cfg d))"
  shows "\<exists>r' n. row_of (q_id r) (d_db (deliver_retry d e m s)) = Some r' \<and> same_mail r r' \<and> q_to r' = To m \<and>
     q_permanent r' = Permanent m \<and> q_attempts r' = Attempts m + 1 \<and> q_last_error r' = err_text e \<and> q_lease_until r' = 0 \<and>
     q_next_attempt r' = (Now d n + backoff d (Attempts m + 1)) div 1000000"
proof -
  obtain r0 where r0: "row_of (ID m) (d_db s) = Some r0" "same_mail r r0" and f: "faults (d_db s) = []"
    using assms(1,2) unfolding held_row_def by auto
  define m1 where "m1 = m\<lparr>LastError := err_text e, Attempts := Attempts m + 1,
     NextAttempt := Some (Now d (d_ev s) + backoff d (Attempts m + 1))\<rparr>"
  have m1: "ID m1 = ID m" "To m1 = To m" by (simp_all add: m1_def)
  have db: "d_db (deliver_retry d e m s) = snd (Release (ID m) (snd (Persist m1 (d_db s))))"
    using assms(4) by (simp add: deliver_retry_def Let_def ask_def m1_def)
  note pr = Persist_row [of "d_db s" m1 r0, unfolded m1, OF f assms(3) r0(1)]
  show ?thesis
    unfolding db using Release_row [OF pr(2) pr(1)] r0(2) assms(2) by (simp add: m1_def same_mail_def UnixMilli_def) blast
qed

lemma deliver_done_row:
  assumes "held_row r (d_db (pst p))" and "ID (pmsg p) = q_id r" and "q_status r = StatusQueued" and "To (pmsg p) = []"
  shows "if \<not> deliveredAny p \<and> permCount p > 0 then phase_of (q_id r) (d_db (deliver_done d p)) \<noteq> Waiting
     else row_of (q_id r) (d_db (deliver_done d p)) = None"
proof (cases "\<not> deliveredAny p \<and> permCount p > 0")
  case True
  then show ?thesis using assms deadLetter_not_waiting [of "pst p"] by (simp add: deliver_done_def Let_def held_row_def)
next
  case False
  obtain u db1 where sc: "Succeed (q_id r) (d_db (pst p)) = (u, db1)" by (cases "Succeed (q_id r) (d_db (pst p))")
  have gone: "row_of (q_id r) db1 = None" "u = Inr ()" using Succeed_removes [OF assms(1,3)] sc by simp_all
  have md: "row_of (q_id r) (MarkDelivered (r_rec d) t i db1) = None" for t i
    using gone(1) recorder_same_core(2) [of db1 "r_rec d" t i] by (simp add: same_core_def row_of_def)
  then have "row_of (q_id r) (snd (AddCounter t' nm k (MarkDelivered (r_rec d) t i db1))) = None" for t' nm k t i
    using AddCounter_frame [of t' nm k "MarkDelivered (r_rec d) t i db1"] by (simp add: row_of_def)
  with False md gone(2) sc assms(2,4) show ?thesis
    by (auto simp: deliver_done_def Let_def ask_def add_counter_at_def)
qed

text \<open>What the row of a message must be when its recipients have been worked through to \<open>p\<close>.\<close>

definition row_outcome :: "relay \<Rightarrow> queue_row \<Rightarrow> progress \<Rightarrow> store \<Rightarrow> bool" where
  "row_outcome d r p db' \<longleftrightarrow>
     (case retryErr p of
        Some e \<Rightarrow>
          if Attempts (pmsg p) + 1 < MaxAttempts (Delivery (r_cfg d))
          then \<exists>r' n. row_of (q_id r) db' = Some r' \<and> same_mail r r' \<and> q_to r' = remaining p \<and>
                 q_permanent r' = Permanent (pmsg p) \<and> q_attempts r' = Attempts (pmsg p) + 1 \<and> q_last_error r' = err_text e \<and>
                 q_lease_until r' = 0 \<and> q_next_attempt r' = (Now d n + backoff d (Attempts (pmsg p) + 1)) div 1000000
          else phase_of (q_id r) db' \<noteq> Waiting
      | None \<Rightarrow>
          if \<not> deliveredAny p \<and> permCount p > 0 then phase_of (q_id r) db' \<noteq> Waiting
          else row_of (q_id r) db' = None)"

lemma deliver_end_row:
  assumes "held_row r (d_db (pst p))" and "ID (pmsg p) = q_id r" and "q_status r = StatusQueued"
    and "retryErr p = None \<longleftrightarrow> remaining p = []"
  shows "row_outcome d r p (d_db (case retryErr p of
     Some err \<Rightarrow> deliver_retry d err ((pmsg p)\<lparr>To := remaining p\<rparr>) (pst p)
   | None \<Rightarrow> deliver_done d (p\<lparr>pmsg := (pmsg p)\<lparr>To := remaining p\<rparr>\<rparr>)))"
proof (cases "retryErr p")
  case None
  then show ?thesis using assms deliver_done_row [of r "p\<lparr>pmsg := (pmsg p)\<lparr>To := []\<rparr>\<rparr>" d] by (simp add: row_outcome_def)
next
  case (Some e)
  have "phase_of (q_id r) (d_db (deadLetter d (q_id r) reason (pst p))) \<noteq> Waiting" for reason
    using assms(1) by (intro deadLetter_not_waiting) (simp_all add: held_row_def)
  then have "phase_of (q_id r) (d_db (deliver_retry d e ((pmsg p)\<lparr>To := remaining p\<rparr>) (pst p))) \<noteq> Waiting"
    if "\<not> Attempts (pmsg p) + 1 < MaxAttempts (Delivery (r_cfg d))"
    using that assms(2) by (simp add: deliver_retry_def Let_def)
  then show ?thesis
    using Some assms deliver_retry_row [of r "pst p" "(pmsg p)\<lparr>To := remaining p\<rparr>" d e] by (simp add: row_outcome_def)
qed

lemma deliver_outcome_core:
  assumes "held_row r (d_db s)" and "ID m = q_id r" and "q_status r = StatusQueued"
  shows "\<exists>body s2 p. deliver_body d m s = (Inr body, s2) \<and> p = deliver_loop d body (start_progress m s2) \<and> mx_log s2 = mx_log s \<and>
    mx_log (deliver d m s) = mx_log (pst p) \<and> Attempts (pmsg p) = Attempts m \<and>
    conserves m body (mx_log s) p \<and> row_outcome d r p (d_db (deliver d m s))"
proof -
  obtain x s2 where b: "deliver_body d m s = (x, s2)" by (cases "deliver_body d m s")
  then obtain body where body: "x = Inr body" using deliver_body_facts(1) by blast
  define p where "p = deliver_loop d body (start_progress m s2)"
  note eq = deliver_eq [OF b [unfolded body] p_def]
  have "held_row r (d_db s2)" using deliver_body_facts(3) [OF b assms(1)] .
  then have "nf.held r (start_progress m s2)" using assms(2) by (simp add: nf.held_def start_progress_def)
  then have hp: "held_row r (d_db (pst p))" unfolding p_def using nf.held_loop [of r] by (simp add: nf.held_def)
  have co: "conserves m body (mx_log s2) p" unfolding p_def by (intro conserves_loop conserves_start) simp
  then have pm: "ID (pmsg p) = q_id r" "Attempts (pmsg p) = Attempts m" using assms(2) by (simp_all add: conserves_def)
  have "retryErr p = None \<longleftrightarrow> remaining p = []"
    using deliver_loop_ends [of "start_progress m s2" d body] deliver_loop_retry [of "start_progress m s2" d body]
    by (cases "retryErr p") (auto simp: p_def start_progress_def)
  then have "row_outcome d r p (d_db (deliver d m s))" unfolding eq by (rule deliver_end_row [OF hp pm(1) assms(3)])
  moreover have "mx_log (deliver d m s) = mx_log (pst p)" by (simp add: eq split: option.split)
  ultimately show ?thesis using b body p_def deliver_body_facts(2) [OF b] pm(2) co by metis
qed



section \<open>Other messages\<close>

text \<open>
  C20. Delivering a message leaves every other waiting message exactly as it is and keeps the queue
  well-formed, whatever the network answers and whichever statements fail.
\<close>

theorem deliver_isolated:
  assumes "queue_inv (d_db s)" and "row \<in> set (queue_messages (d_db s))" and "q_id row \<noteq> ID m" and "q_status row = StatusQueued"
  shows "row \<in> set (queue_messages (d_db (deliver d m s))) \<and> queue_inv (d_db (deliver d m s))"
  using assms by (intro conjI iso.deliver_keeps qi.deliver_keeps) simp_all

lemma deliver_isolated_witness:
  "new_row 1 ''m1'' ''a@x'' [''b@y'', ''bad@y'', ''c@z''] ''hi'' \<in>
     set (queue_messages (d_db (deliver demo_relay (demo_msg\<lparr>ID := ''m2''\<rparr>) demo_dstate)))"
proof -
  have "queue_inv (d_db demo_dstate)" using demo_held by (simp add: held_row_def)
  then show ?thesis using deliver_isolated [of demo_dstate "new_row 1 ''m1'' ''a@x'' [''b@y'', ''bad@y'', ''c@z''] ''hi''"
      "demo_msg\<lparr>ID := ''m2''\<rparr>" demo_relay]
    by (simp add: demo_dstate_def new_row_def)
qed

section \<open>The work is bounded\<close>

lemma deliverGroup_counts:
  "deliverGroup d domain grp sd body s = (r, s1) \<Longrightarrow> d_counts s1 = (d_counts s)\<lparr>DeliveryAttempts := DeliveryAttempts (d_counts s) + 1\<rparr>"
proof -
  have rh: "resolveHost d dm s = (x, s1) \<Longrightarrow> d_counts s1 = d_counts s" for dm s x s1
    by (auto simp: resolveHost_def Let_def ask_def split: if_splits sum.splits)
  have ha: "hostAddrs d h s = (x, s1) \<Longrightarrow> d_counts s1 = d_counts s" for h s x s1
    by (auto simp: hostAddrs_def Let_def ask_def split: if_splits sum.splits)
  have ta: "try_addrs d h as e s = (x, s1) \<Longrightarrow> d_counts s1 = d_counts s" for h as e s x s1
    by (induction d h as e s rule: try_addrs.induct) (auto simp: ask_def split: option.splits sum.splits)
  have co: "connect d h s = (x, s1) \<Longrightarrow> d_counts s1 = d_counts s" for h s x s1
    by (auto simp: connect_def split: prod.splits dest!: ha ta)
  have os: "open_session d dm h s = (x, s1) \<Longrightarrow> d_counts s1 = d_counts s" for dm h s x s1
    by (auto simp: open_session_def split: if_splits sum.splits prod.splits dest!: co)
  have tr: "transact h cl tos sd body s = (x, s1) \<Longrightarrow> d_counts s1 = d_counts s" for h cl tos s x s1
    by (auto simp: transact_def split: sum.splits prod.splits if_splits option.splits)
  assume "deliverGroup d domain grp sd body s = (r, s1)"
  then show ?thesis
    by (auto simp: deliverGroup_def Let_def add_counter_at_def ask_def split: sum.splits prod.splits if_splits dest!: rh os tr)
qed

lemma card_domains_less:
  assumes "xs \<noteq> []"
  shows "card (domainOf ` set (filter (\<lambda>a. domainOf a \<noteq> domainOf (hd xs)) xs)) + 1 \<le> card (domainOf ` set xs)"
proof -
  have "domainOf ` set (filter (\<lambda>a. domainOf a \<noteq> domainOf (hd xs)) xs) = domainOf ` set xs - {domainOf (hd xs)}" by auto
  moreover have "domainOf (hd xs) \<in> domainOf ` set xs" using assms by simp
  ultimately show ?thesis using card_Suc_Diff1 [of "domainOf ` set xs" "domainOf (hd xs)"] by simp
qed

lemma group_step_counts: "remaining p \<noteq> [] \<Longrightarrow> DeliveryAttempts (d_counts (pst (group_step d body p))) = DeliveryAttempts (d_counts (pst p)) + 1"
proof -
  assume ne: "remaining p \<noteq> []"
  from ne refl refl refl show ?thesis
    by (cases rule: group_step_cases [where d = d and body = body]) (simp_all add: deliverGroup_counts)
qed

lemma deliver_loop_counts:
  "DeliveryAttempts (d_counts (pst (deliver_loop d body p))) \<le>
   DeliveryAttempts (d_counts (pst p)) + int (card (domainOf ` set (remaining p)))"
proof (induction d body p rule: deliver_loop.induct)
  case (1 d body p)
  show ?case
  proof (cases "remaining p = []")
    case False
    note one = card_domains_less [OF False] group_step_counts [OF False, of d body]
    show ?thesis
    proof (cases "retryErr (group_step d body p)")
      case None
      then show ?thesis using False one 1 group_step_remaining [OF False None] by (simp add: deliver_loop.simps [of d body p] Let_def)
    next
      case (Some e)
      then show ?thesis using False one by (simp add: deliver_loop.simps [of d body p] Let_def)
    qed
  qed (simp add: deliver_loop.simps)
qed

lemma end_counts:
  "DeliveryAttempts (d_counts (deadLetter d i reason s)) = DeliveryAttempts (d_counts s)"
  "DeliveryAttempts (d_counts (deliver_retry d e m s)) = DeliveryAttempts (d_counts s)"
  "DeliveryAttempts (d_counts (deliver_done d p)) = DeliveryAttempts (d_counts (pst p))"
proof -
  show dl: "DeliveryAttempts (d_counts (deadLetter d i reason s)) = DeliveryAttempts (d_counts s)" for i reason s
    by (simp add: deadLetter_def ask_def Let_def add_counter_at_def split: prod.split sum.split)
  show "DeliveryAttempts (d_counts (deliver_retry d e m s)) = DeliveryAttempts (d_counts s)"
    by (simp add: deliver_retry_def ask_def Let_def dl)
  show "DeliveryAttempts (d_counts (deliver_done d p)) = DeliveryAttempts (d_counts (pst p))"
    by (simp add: deliver_done_def ask_def Let_def dl add_counter_at_def split: prod.split sum.split)
qed

lemma prepareBody_counts: "prepareBody d m s = (r, s1) \<Longrightarrow> d_counts s1 = d_counts s"
  by (auto simp: prepareBody_def Let_def split: prod.splits sum.splits option.splits)

text \<open>
  C26. Delivering a message ends, and it ends after at most one transaction per recipient domain: the
  number of attempts counted grows by at most the number of different domains among its recipients.
\<close>

theorem deliver_attempts_bounded:
  "DeliveryAttempts (d_counts (deliver d m s)) \<le> DeliveryAttempts (d_counts s) + int (card (domainOf ` set (To m)))"
proof -
  obtain x s2 where b: "deliver_body d m s = (x, s2)" by (cases "deliver_body d m s")
  then obtain body where body: "x = Inr body" using deliver_body_facts(1) by blast
  define p where "p = deliver_loop d body (start_progress m s2)"
  have "d_counts s2 = d_counts s" using prepareBody_counts b by (fastforce simp: deliver_body_def ask_def)
  then have "DeliveryAttempts (d_counts (pst p)) \<le> DeliveryAttempts (d_counts s) + int (card (domainOf ` set (To m)))"
    using deliver_loop_counts [of d body "start_progress m s2"] by (simp add: p_def start_progress_def)
  then show ?thesis by (simp add: deliver_eq [OF b [unfolded body] p_def] end_counts split: option.split)
qed

section \<open>The retry delay\<close>

lemma shl64_exact:
  assumes "0 \<le> n" and "n < 64" and "0 \<le> x" and "x * 2 ^ nat n < 2 ^ 63"
  shows "shl64 x n = x * 2 ^ nat n"
proof -
  have "push_bit (nat n) (word_of_int x :: 64 word) = word_of_int (x * 2 ^ nat n)"
    by (simp add: push_bit_eq_mult)
  moreover have "sint (word_of_int y :: 64 word) = y" if "0 \<le> y" "y < 2 ^ 63" for y :: int
    using that by (simp add: sint_sbintrunc' signed_take_bit_int_eq_self)
  ultimately have "sint (push_bit (nat n) (word_of_int x :: 64 word)) = x * 2 ^ nat n" using assms(3,4) by (metis mult_nonneg_nonneg zero_le_numeral zero_le_power)
  then show ?thesis using assms(1,2) by (simp add: shl64_def)
qed

lemma shl64_default:
  assumes "9 \<le> k" and "k \<le> 62"
  shows "shl64 (60 * second) k \<le> 0 \<or> shl64 (60 * second) k > 14400 * second"
proof -
  have "list_all (\<lambda>k. shl64 (60 * second) k \<le> 0 \<or> shl64 (60 * second) k > 14400 * second) [9..62]" by code_simp
  moreover have "k \<in> set [9..62]" unfolding set_upto using assms by simp
  ultimately show ?thesis unfolding list_all_iff by blast
qed

text \<open>
  C29. The delay before the n-th retry never exceeds \<open>retry_max\<close> and is positive when \<open>retry_max\<close> is; as
  long as \<open>retry_base\<close> times two to the n-1 fits a 64-bit integer, it is that value or \<open>retry_max\<close>,
  whichever is smaller; and with the default settings this holds for every n.
\<close>

theorem backoff_bounds:
  "backoff d n \<le> RetryMax (Delivery (r_cfg d)) \<and>
   (0 < RetryMax (Delivery (r_cfg d)) \<longrightarrow> 0 < backoff d n) \<and>
   (0 < RetryBase (Delivery (r_cfg d)) \<and> 1 \<le> n \<and> n \<le> 63 \<and> RetryBase (Delivery (r_cfg d)) * 2 ^ nat (n - 1) < 2 ^ 63 \<longrightarrow>
    backoff d n = min (RetryBase (Delivery (r_cfg d)) * 2 ^ nat (n - 1)) (RetryMax (Delivery (r_cfg d)))) \<and>
   (Delivery (r_cfg d) = Delivery (defaults lib) \<and> 1 \<le> n \<longrightarrow>
    backoff d n = min (60 * second * 2 ^ nat (n - 1)) (14400 * second))"
proof (intro conjI impI)
  let ?b = "RetryBase (Delivery (r_cfg d))" and ?m = "RetryMax (Delivery (r_cfg d))"
  show "backoff d n \<le> ?m" "0 < ?m \<Longrightarrow> 0 < backoff d n" by (auto simp: backoff_def Let_def)
  show exact: "backoff d n = min (?b * 2 ^ nat (n - 1)) ?m"
    if h: "0 < ?b \<and> 1 \<le> n \<and> n \<le> 63 \<and> ?b * 2 ^ nat (n - 1) < 2 ^ 63" for n
  proof -
    define y where "y = ?b * 2 ^ nat (n - 1)"
    have "shl64 ?b (n - 1) = y" unfolding y_def using h by (intro shl64_exact) auto
    moreover have "0 < y" unfolding y_def using h by simp
    ultimately have "backoff d n = min y ?m" using h by (simp add: backoff_def Let_def)
    then show ?thesis unfolding y_def .
  qed
  assume def: "Delivery (r_cfg d) = Delivery (defaults lib) \<and> 1 \<le> n"
  then have bm: "?b = 60 * second" "?m = 14400 * second" by (simp_all add: defaults_def)
  show "backoff d n = min (60 * second * 2 ^ nat (n - 1)) (14400 * second)"
  proof (cases "n \<le> 9")
    case True
    then have "nat (n - 1) \<le> 8" by simp
    then have "(2 :: int) ^ nat (n - 1) \<le> 2 ^ 8" by (intro power_increasing) simp_all
    then have "60 * second * 2 ^ nat (n - 1) < 2 ^ 63" by (simp add: second_def)
    then show ?thesis using exact [of n] def True bm by (simp add: second_def)
  next
    case False
    then have "8 \<le> nat (n - 1)" by simp
    then have "(2 :: int) ^ 8 \<le> 2 ^ nat (n - 1)" by (intro power_increasing) simp_all
    then have min: "min (60 * second * 2 ^ nat (n - 1)) (14400 * second) = 14400 * second" by (simp add: second_def)
    show ?thesis unfolding min using shl64_default [of "if n - 1 > 62 then 62 else n - 1"] False bm
      by (cases "n - 1 > 62") (auto simp: backoff_def Let_def)
  qed
qed

lemma backoff_bounds_witness: "backoff demo_relay 3 = 240 * second \<and> backoff demo_relay 100 = 14400 * second"
  using backoff_bounds [of demo_relay 3] backoff_bounds [of demo_relay 100] by (simp add: demo_relay_def second_def)

section \<open>The text that is sent\<close>

lemma replace_crlf_free: "CR \<notin> set l \<Longrightarrow> replace_crlf (l @ s) = l @ replace_crlf s"
proof (induction l)
  case (Cons c l)
  then have c: "c \<noteq> CR" by auto
  have "replace_crlf (c # t) = c # replace_crlf t" for t using c by (cases t) auto
  with Cons show ?case by auto
qed simp

lemma replace_crlf_LF: "replace_crlf (LF # s) = LF # replace_crlf s"
  by (cases s) auto

text \<open>A line with one of the two line ends.\<close>

definition ended :: "string \<times> bool \<Rightarrow> string" where
  "ended x = fst x @ (if snd x then crlf else [LF])"

definition plain_line :: "string \<times> bool \<Rightarrow> bool" where
  "plain_line x \<longleftrightarrow> CR \<notin> set (fst x) \<and> LF \<notin> set (fst x)"

lemma replace_crlf_lines:
  "list_all plain_line ls \<Longrightarrow> replace_crlf (concat (map ended ls)) = concat (map (\<lambda>l. l @ [LF]) (map fst ls))"
  by (induction ls) (auto simp: ended_def plain_line_def replace_crlf_free replace_crlf_LF)

lemma TrimSuffix_free: "CR \<notin> set l \<Longrightarrow> TrimSuffix l [CR] = l"
  by (auto simp: TrimSuffix_def HasSuffix_iff)

lemma join_crlf_lines: "ls \<noteq> [] \<Longrightarrow> list_all (\<lambda>l. CR \<notin> set l) ls \<Longrightarrow> join_crlf ls @ crlf = concat (map (\<lambda>l. l @ crlf) ls)"
  by (induction ls rule: join_crlf.induct) (auto simp: TrimSuffix_free)

lemma normalize_lines:
  assumes "ls \<noteq> []" and "list_all plain_line ls"
  shows "normalizeCRLF (concat (map ended ls)) = concat (map (\<lambda>x. fst x @ crlf) ls)"
proof -
  have free: "list_all (\<lambda>l. LF \<notin> set l) (map fst ls)" "list_all (\<lambda>l. CR \<notin> set l) (map fst ls)"
    using assms(2) by (auto simp: list_all_iff plain_line_def)
  have "SplitByte LF (replace_crlf (concat (map ended ls))) = map fst ls @ [[]]"
    using SplitByte_concat [OF free(1), of "[]"] by (simp add: replace_crlf_lines [OF assms(2)])
  then show ?thesis using join_crlf_lines [of "map fst ls"] free(2) assms(1)
    by (simp add: normalizeCRLF_def Let_def comp_def)
qed

text \<open>
  \<open>normalizeCRLF\<close> on a text of lines, each ended by CRLF or by a bare LF, gives the same lines all
  ended by CRLF, for lines without CR and LF inside.
\<close>

theorem normalizeCRLF_lines:
  assumes "ls \<noteq> []" and "list_all plain_line ls"
  shows "normalizeCRLF (concat (map ended ls)) = concat (map (\<lambda>x. fst x @ crlf) ls)"
  by (rule normalize_lines [OF assms])

lemma normalizeCRLF_lines_witness: "normalizeCRLF (''a'' @ [LF] @ ''b'' @ crlf) = ''a'' @ crlf @ ''b'' @ crlf"
  using normalizeCRLF_lines [of "[(''a'', False), (''b'', True)]"] by (simp add: ended_def plain_line_def)

section \<open>Signing never blocks delivery\<close>

text \<open>
  The body that is sent is the normalised text or, when the sender's domain has a usable key, that
  text behind a signature header. Preparing it never fails, so that the branch that dead-letters a
  message whose preparation failed is never taken.
\<close>

theorem prepareBody_total:
  "\<exists>header. fst (prepareBody d m s) = Inr (header @ normalizeCRLF (Data m)) \<and>
     (header = [] \<or> (\<exists>key sg. fst (GetDKIM (domainOf (From m)) (d_db s)) = Inr (Some key) \<and>
        ParseSigner (r_crypto d) (KeyData key) = Inr sg \<and>
        dkim_signature (r_crypto d) (domainOf (From m)) (Selector key) sg (normalizeCRLF (Data m)) = Inr header))"
  by (auto simp: prepareBody_def Let_def Sign_def split: prod.split sum.split option.split)

section \<open>Two branches that do not do what they say\<close>

text \<open>The lookups of package \<open>net\<close> report DNS errors, never replies of a mail server.\<close>

definition dns_lookups :: "relay \<Rightarrow> bool" where
  "dns_lookups d \<longleftrightarrow> (\<forall>n dm e. lookupMX d n dm = Inl e \<longrightarrow> as_textproto e = None) \<and>
     (\<forall>n dm e. LookupHost d n dm = Inl e \<longrightarrow> as_textproto e = None)"

text \<open>
  A domain that does not exist is never a permanent failure: whatever error resolving the mail
  exchanger of a domain ends with, it is not one that \<open>isPermanent\<close> accepts, so that every recipient of
  that domain is retried until the attempts are used up.
\<close>

theorem resolveHost_never_permanent:
  assumes "dns_lookups d" and "resolveHost d domain s = (Inl e, s1)"
  shows "\<not> isPermanent e"
  using assms by (auto simp: resolveHost_def Let_def ask_def isPermanent_def dns_lookups_def split: sum.splits if_splits)

lemma resolveHost_never_permanent_witness:
  "\<exists>e s1. resolveHost (demo_relay\<lparr>lookupMX := (\<lambda>_ _. Inl (DNSError True ''no such host''))\<rparr>) ''nowhere'' demo_dstate = (Inl e, s1) \<and>
     \<not> isPermanent e"
proof -
  let ?d = "demo_relay\<lparr>lookupMX := (\<lambda>_ _. Inl (DNSError True ''no such host''))\<rparr>"
  have ok: "dns_lookups ?d" by (simp add: dns_lookups_def demo_relay_def)
  obtain e s1 where r: "resolveHost ?d ''nowhere'' demo_dstate = (Inl e, s1)" by (simp add: resolveHost_def Let_def ask_def)
  show ?thesis using resolveHost_never_permanent [OF ok r] r by blast
qed

text \<open>
  When the recipients of a message are all of one domain and the loop over them ends without a retry
  error, nothing of it is recorded in the queue: the rejections that the loop collected are not saved
  with the row that is then dead-lettered, since \<open>Persist\<close> ignores a message without recipients.
\<close>

lemma rejections_not_recorded:
  assumes "To m \<noteq> []" and "\<forall>a\<in>set (To m). domainOf a = dm" and "p = deliver_loop d body (start_progress m s)"
    and "retryErr p = None"
  shows "queue_messages (d_db (pst p)) = queue_messages (d_db s) \<and>
     (\<exists>new. accepted new \<union> dom_list (Permanent (pmsg p)) = set (To m) \<union> dom_list (Permanent m))"
proof -
  let ?p0 = "start_progress m s"
  have ne: "remaining ?p0 \<noteq> []" using assms(1) by (simp add: start_progress_def)
  have keep: "filter (\<lambda>a. domainOf a \<noteq> domainOf (hd (remaining ?p0))) (remaining ?p0) = []"
    using assms(1,2) by (simp add: start_progress_def filter_empty_conv)
  have p: "p = (if retryErr (group_step d body ?p0) \<noteq> None then group_step d body ?p0 else deliver_loop d body (group_step d body ?p0))"
    using ne by (simp add: assms(3) deliver_loop.simps [of d body ?p0] Let_def)
  from ne refl refl refl have "p = group_step d body ?p0 \<and> queue_messages (d_db (pst (group_step d body ?p0))) = queue_messages (d_db s)"
  proof (cases rule: group_step_cases [where d = d and body = body])
    case (retry e s1)
    then show ?thesis using p assms(4) by simp
  next
    case (finished delivered perm s1 m')
    have "queue_messages (d_db s1) = queue_messages (d_db (pst ?p0))"
      using deliverGroup_db [OF finished(1)] AddCounter_frame by metis
    moreover have "To m' = []" using finished(2) keep by simp
    ultimately have "remaining (group_step d body ?p0) = [] \<and>
        queue_messages (d_db (pst (group_step d body ?p0))) = queue_messages (d_db s) \<and> retryErr (group_step d body ?p0) = None"
      using finished(3) keep by (simp add: Persist_def start_progress_def)
    then show ?thesis using p by (simp add: deliver_loop.simps [of d body "group_step d body ?p0"])
  qed
  moreover have "remaining p = []" using deliver_loop_ends [of ?p0 d body] assms(3,4) by (simp add: start_progress_def)
  ultimately show ?thesis using conserves_loop [OF conserves_start [of s "mx_log s" m body], of d] assms(3)
    by (auto simp: conserves_def)
qed

end
