(* ===== verification/Startup_Laws.thy ===== *)
theory Startup_Laws
  imports Startup Smtpd_Props Relay_Props Msg_Laws
begin

text \<open>
  What a start of the program leaves behind: a valid configuration, and the accounts and keys that it
  declares, ready for use.
\<close>

section \<open>Seeding is kept\<close>

interpretation sacc: side_tables "\<lambda>s. accounts s = A" for A
  by unfold_locales
    (simp_all add: put_dkim_def del_dkim_def conflict_clause_def put_counters_def add_counter_def split: option.split)

lemma account_row_cong: "accounts s = accounts t \<Longrightarrow> account_row k s = account_row k t"
  by (simp add: account_row_def)

lemma seedDKIM_accounts: "seedDKIM cl c s = (r, s1) \<Longrightarrow> accounts s1 = accounts s"
proof -
  have "accounts u = accounts s" if "UpsertDKIM keys s = (x, u)" for keys x u using sacc.upsert_keys [of s "accounts s" keys] that by simp
  then show "seedDKIM cl c s = (r, s1) \<Longrightarrow> accounts s1 = accounts s"
    by (auto simp: seedDKIM_def split: if_splits sum.splits option.splits prod.splits)
qed

lemma assemble_tables:
  assumes "assemble b c s = Inr p"
  shows "accounts (p_store p) = accounts s \<and> dkim_keys (p_store p) = dkim_keys s \<and> queue_messages (p_store p) = queue_messages s \<and>
    p_cfg p = c \<and> bcr (p_server p) = b_bcrypt b"
proof -
  have lo: "\<exists>fs. snd (lenOr s) = s\<lparr>faults := fs\<rparr>"
    by (auto simp: lenOr_def ListAccounts_def split: prod.splits sum.splits dest!: select_inv(1))
  have pr: "accounts (snd (PruneSendLogs t n u)) = accounts u \<and> dkim_keys (snd (PruneSendLogs t n u)) = dkim_keys u \<and>
      queue_messages (snd (PruneSendLogs t n u)) = queue_messages u" for t n u
    using sql_log_same_core(3) by (fastforce simp: PruneSendLogs_def Let_def same_core_def split: prod.splits sum.splits)
  show ?thesis using assms lo pr
    by (auto simp: assemble_def Let_def NewServer_def split: sum.splits option.splits if_splits)
qed

lemma seed_keys_ok: "seed_keys cl ks = Inr keys \<Longrightarrow> keys = map (\<lambda>k. \<lparr>Domain = CfgDomain k, Selector = CfgSelector k, KeyData = CfgKeyData k\<rparr>) ks"
  by (induction ks arbitrary: keys) (auto split: sum.splits)

text \<open>What the seeding of a valid configuration gives, entry by entry.\<close>

lemma seedAccounts_rows:
  assumes "bcrypt_ok bc" and "seedAccounts bc c s = (Inr (), s1)" and "distinct (map (\<lambda>a. norm_addr (CfgEmail a)) (Accounts c))"
    and "a \<in> set (Accounts c)"
  shows "\<exists>u. account_row (norm_addr (CfgEmail a)) s1 = Some u \<and> seed_sat bc (seed_of a) u"
proof -
  obtain pre post where as: "Accounts c = pre @ a # post" using assms(4) by (auto dest: split_list)
  obtain sm where "UpsertAccounts bc (map seed_of (Accounts c)) s = ((sm, None), s1)"
    using assms(2,4) by (auto simp: seedAccounts_def split: if_splits prod.splits option.splits)
  then have "upsert_loop (upsert_account bc) (map seed_of pre @ seed_of a # map seed_of post) empty_summary s = ((sm, None), s1)"
    by (simp add: UpsertAccounts_def as)
  from upserting.loop_sat [OF acct_upserting [OF assms(1)] this] show ?thesis using assms(3) by (auto simp: as seed_of_def image_image)
qed

lemma seedDKIM_rows:
  assumes "seedDKIM cl c s = (Inr (), s1)" and "distinct (map (\<lambda>k. norm_addr (CfgDomain k)) (DKIM c))" and "k \<in> set (DKIM c)"
  shows "dkim_row (norm_addr (CfgDomain k)) s1 =
     Some \<lparr>Domain = norm_addr (CfgDomain k), Selector = CfgSelector k, KeyData = CfgKeyData k\<rparr>"
proof -
  let ?key = "\<lambda>k. \<lparr>Domain = CfgDomain k, Selector = CfgSelector k, KeyData = CfgKeyData k\<rparr>"
  obtain pre post where ks: "DKIM c = pre @ k # post" using assms(3) by (auto dest: split_list)
  obtain sm keys where "seed_keys cl (DKIM c) = Inr keys" "UpsertDKIM keys s = ((sm, None), s1)"
    using assms(1,3) by (auto simp: seedDKIM_def split: if_splits sum.splits prod.splits option.splits)
  then have "upsert_loop upsert_dkim (map ?key pre @ ?key k # map ?key post) empty_summary s = ((sm, None), s1)"
    by (auto simp: UpsertDKIM_def ks dest!: seed_keys_ok)
  from ud.loop_sat [OF this] show ?thesis using assms(2) by (auto simp: ks dkim_sat_def image_image)
qed

text \<open>
  C24. After a start of the program the accounts and keys that the configuration declares are in place:
  each declared account is stored under its address with a hash that verifies the declared password
  and exactly the declared senders, each declared DKIM key is stored under its domain and can be
  parsed, and the configuration satisfies every documented constraint.
\<close>

theorem run_seeded:
  assumes "bcrypt_ok (b_bcrypt b)" and "run b env configPath disk = Inr p"
  shows "config_ok (b_sys b) (p_cfg p) \<and>
    (\<forall>a\<in>set (Accounts (p_cfg p)). \<exists>u. account_row (CfgEmail a) (p_store p) = Some u \<and>
       VerifyPassword (bcr (p_server p)) (PasswordHash u) (CfgPassword a) \<and>
       AllowedFrom u = normalizeAllowed (CfgEmail a) (CfgAllowedFrom a)) \<and>
    (\<forall>k\<in>set (DKIM (p_cfg p)). dkim_row (CfgDomain k) (p_store p) =
       Some \<lparr>Domain = CfgDomain k, Selector = CfgSelector k, KeyData = CfgKeyData k\<rparr>)"
proof -
  let ?bc = "b_bcrypt b" and ?cl = "crypto (b_sys b)"
  from assms(2) obtain c s s1 where l: "Load (b_sys b) env configPath = Inr c"
      and sd: "seed ?bc ?cl c s = (Inr (), s1)" and p: "assemble b c s1 = Inr p"
    by (auto simp: run_def Let_def split: sum.splits prod.splits)
  have ok: "config_ok (b_sys b) c" using l by (rule Load_ok)
  then have acc: "distinct (map CfgEmail (Accounts c))" "\<forall>a\<in>set (Accounts c). norm_addr (CfgEmail a) = CfgEmail a"
    and key: "distinct (map CfgDomain (DKIM c))" "\<forall>k\<in>set (DKIM c). norm_addr (CfgDomain k) = CfgDomain k"
    by (auto simp: config_ok_def accounts_ok_def dkim_ok_def)
  from sd obtain s0 where s0: "seedAccounts ?bc c s = (Inr (), s0)" "seedDKIM ?cl c s0 = (Inr (), s1)"
    by (auto simp: seed_def split: prod.splits sum.splits)
  note t = assemble_tables [OF p]
  have rows: "account_row k (p_store p) = account_row k s0" "dkim_row k (p_store p) = dkim_row k s1" for k
    using t seedDKIM_accounts [OF s0(2)] by (simp_all add: account_row_def dkim_row_def)
  have "\<exists>u. account_row (CfgEmail a) (p_store p) = Some u \<and> seed_sat ?bc (seed_of a) u" if "a \<in> set (Accounts c)" for a
    using seedAccounts_rows [OF assms(1) s0(1) _ that] acc that unfolding rows by (simp cong: map_cong)
  moreover have "dkim_row (CfgDomain k) (p_store p) = Some \<lparr>Domain = CfgDomain k, Selector = CfgSelector k, KeyData = CfgKeyData k\<rparr>"
    if "k \<in> set (DKIM c)" for k
    using seedDKIM_rows [OF s0(2) _ that] key that unfolding rows by (simp cong: map_cong)
  ultimately show ?thesis using ok t acc(2) by (fastforce simp: seed_sat_def seed_of_def)
qed

section \<open>A start of the program\<close>

definition demo_boot :: boot where
  "demo_boot = \<lparr>b_sys = demo_sys, b_os = \<lparr>GOOS = ''linux'', UserHomeDir = None, MkdirAll = (\<lambda>_. True)\<rparr>, b_bcrypt = demo_bcrypt,
     b_mime = demo_mime, b_instance = ''w'', b_clock = clock demo_server, b_now = 0, b_network = demo_relay,
     b_api = \<lparr>env_bcrypt = demo_bcrypt, env_crypto = demo_crypto,
       env_json = \<lparr>decode_create_account = (\<lambda>_. Inl (Errorf ''EOF'')), decode_update_account = (\<lambda>_. Inl (Errorf ''EOF'')),
         decode_create_dkim = (\<lambda>_. Inl (Errorf ''EOF'')), decode_send = (\<lambda>_. Inl (Errorf ''EOF''))\<rparr>,
       env_mime = demo_mime, env_clock = clock demo_server, env_boundary = (\<lambda>_. Inr ''b''), env_spec = ''{}'',
       DefaultResolver = (\<lambda>_. \<lparr>LookupTXT = (\<lambda>_. Inr []), LookupMX = (\<lambda>_. Inr []), LookupHostname = (\<lambda>_. Inr []), LookupAddr = (\<lambda>_. Inr [])\<rparr>),
       env_started = 0\<rparr>,
     b_version = ''dev''\<rparr>"

definition demo_env :: environ where
  "demo_env k = (if k = ''CARTEIRO_ACCOUNTS'' then Some ''Ann@x.org:pw'' else None)"

lemma demo_run: "case run demo_boot demo_env [] (new_store [] []) of Inl e \<Rightarrow> False | Inr p \<Rightarrow> map CfgEmail (Accounts (p_cfg p)) = [''ann@x.org'']"
  by code_simp

lemma run_seeded_witness:
  "\<exists>p u. run demo_boot demo_env [] (new_store [] []) = Inr p \<and> account_row ''ann@x.org'' (p_store p) = Some u"
proof -
  obtain p where p: "run demo_boot demo_env [] (new_store [] []) = Inr p" "map CfgEmail (Accounts (p_cfg p)) = [''ann@x.org'']"
    using demo_run by (cases "run demo_boot demo_env [] (new_store [] [])") simp_all
  have "bcrypt_ok (b_bcrypt demo_boot)" using demo_bcrypt_ok by (simp add: demo_boot_def)
  from run_seeded [OF this p(1)] p show ?thesis by (cases "Accounts (p_cfg p)") auto
qed

end
