(* ===== verification/Api_Props.thy ===== *)
theory Api_Props
  imports Api_Laws Smtpd_Props Relay_Props Msg_Laws
begin

text \<open>
  The properties of the administrative API: what a request without the token can do, what every request
  keeps, what a composed message is, and that an account that is created can be used at once.
\<close>

section \<open>The token\<close>

definition public_paths :: "string list list" where
  "public_paths = [[''health''], [''metrics''], [''openapi.json''], [''api'', ''health''], [''api'', ''metrics''], [''api'', ''openapi.json'']]"

text \<open>The tables that the handlers read and write; only the row of the counters may be created by a reader.\<close>

definition same_tables :: "api_state \<Rightarrow> api_state \<Rightarrow> bool" where
  "same_tables s s' \<longleftrightarrow> a_counts s' = a_counts s \<and> queue_messages (a_db s') = queue_messages (a_db s) \<and>
     accounts (a_db s') = accounts (a_db s) \<and> dkim_keys (a_db s') = dkim_keys (a_db s) \<and> sends_log (a_db s') = sends_log (a_db s)"

lemma same_tables_refl [simp]: "same_tables s s"
  by (simp add: same_tables_def)

lemma Stats_reads: "Stats t s = (r, s1) \<Longrightarrow> \<exists>fs. s1 = s\<lparr>faults := fs\<rparr>"
  by (auto simp: Stats_def count_rows_def split: prod.splits sum.splits dest!: select_inv(1))

lemma GetCounters_tables:
  assumes "GetCounters t s = (r, s1)"
  shows "queue_messages s1 = queue_messages s \<and> accounts s1 = accounts s \<and> dkim_keys s1 = dkim_keys s \<and> sends_log s1 = sends_log s"
proof -
  have put: "queue_messages s1 = queue_messages s \<and> accounts s1 = accounts s \<and> dkim_keys s1 = dkim_keys s \<and> sends_log s1 = sends_log s"
    if "sql (conflict_clause (put_counters t)) s = (r, s1)" for r s1
    using that by (auto simp: conflict_clause_def put_counters_def elim!: sql_cases split: if_splits option.splits)
  show ?thesis using assms
    by (auto simp: GetCounters_def ensureCountersRow_def split: prod.splits sum.splits option.splits dest!: put select_inv(1))
qed

lemma public_handlers:
  assumes "x \<in> set routes" and "rt_public x"
  shows "same_tables s (snd (rt_h x srv r s))"
proof -
  have "rt_h x \<in> {handleHealth, handleMetrics, handleOpenAPI}" using assms by (auto simp: routes_def rt_def)
  moreover have "same_tables s (snd (handleMetrics srv r s))"
    by (auto simp: handleMetrics_def api_now_def with_db_def same_tables_def Let_def split: prod.splits
        dest!: Stats_reads GetCounters_tables)
  ultimately show ?thesis by (auto simp: handleHealth_def handleOpenAPI_def)
qed

lemma match_literal: "match_path (map Lit ls) path \<noteq> None \<longleftrightarrow> path = ls"
proof (induction ls arbitrary: path)
  case Nil
  then show ?case by (cases path) auto
next
  case (Cons l ls)
  then show ?case by (cases path) auto
qed

lemma public_routes:
  assumes "x \<in> set routes" and "rt_public x" and "pfx = [] \<or> pfx = [Lit ''api'']" and "match_path (pfx @ rt_path x) path \<noteq> None"
  shows "path \<in> set public_paths"
proof -
  have "rt_path x \<in> map Lit ` {[''health''], [''metrics''], [''openapi.json'']}" using assms(1,2) by (auto simp: routes_def rt_def)
  then obtain ls where ls: "rt_path x = map Lit ls" "ls \<in> {[''health''], [''metrics''], [''openapi.json'']}" by blast
  obtain ps where ps: "pfx = map Lit ps" "ps = [] \<or> ps = [''api'']" using that [of "[]"] that [of "[''api'']"] assms(3) by auto
  have "path = ps @ ls" using assms(4) match_literal [of "ps @ ls" path] by (simp add: ls(1) ps(1))
  then show ?thesis using ls(2) ps(2) by (auto simp: public_paths_def)
qed

lemma bearer_ok_value [simp]: "bearer_ok srv (r\<lparr>PathValue := v\<rparr>) = bearer_ok srv r"
  by (simp add: bearer_ok_def)

lemma no_token_effect:
  assumes "\<not> bearer_ok srv r" and "ServeHTTP srv r s = (resp, s')"
  shows "(Code resp \<in> {401, 404, 405} \<or> Path r \<in> set public_paths) \<and> same_tables s s'"
proof (cases "find (\<lambda>(m, p, h). match_path p (Path r) \<noteq> None \<and> match_method m (Method r)) mux")
  case None
  then show ?thesis using assms(2) by (auto simp: ServeHTTP_def split: if_splits)
next
  case (Some e)
  obtain m p h where e: "e = (m, p, h)" by (cases e)
  let ?r = "r\<lparr>PathValue := the (match_path p (Path r))\<rparr>"
  have found: "(m, p, h) \<in> set mux" "match_path p (Path r) \<noteq> None" using find_Some_iff_mem [OF Some] e by auto
  have res: "(resp, s') = h srv ?r s" using assms(2) Some e by (simp add: ServeHTTP_def)
  from found(1) obtain x pfx where x: "x \<in> set routes" "p = pfx @ rt_path x" "pfx = [] \<or> pfx = [Lit ''api'']"
      "h = (if rt_public x then rt_h x else requireAuth (rt_h x))"
    by (auto simp: mux_def registerRoutes_def)
  show ?thesis
  proof (cases "rt_public x")
    case True
    then show ?thesis
      using res x public_handlers [OF x(1) True, of s srv ?r] public_routes [OF x(1) True x(3)] found(2) by (auto dest: arg_cong [where f = snd])
  next
    case False
    then have "resp = writeError 401 ''invalid or missing bearer token'' \<and> s' = s"
      using res x(4) assms(1) by (simp add: requireAuth_def)
    then show ?thesis by (simp add: writeError_def writeJSON_def)
  qed
qed


section \<open>Well-formed tables\<close>

text \<open>
  C25. Every request, whoever sends it and whichever statements fail, keeps the tables well-formed:
  identifiers of messages stay unique and their rows consistent, and there is one account per
  normalised address with a normalised allow-list.
\<close>

theorem ServeHTTP_inv:
  assumes "queue_inv (a_db s)" and "accounts_inv (a_db s)"
  shows "queue_inv (a_db (snd (ServeHTTP srv r s))) \<and> accounts_inv (a_db (snd (ServeHTTP srv r s)))"
  using aq.ServeHTTP_keeps [OF assms(1)] aa.ServeHTTP_keeps [OF assms(2)] by blast

section \<open>Composing a message\<close>

lemma to_loop_ok:
  "to_loop as to = Inr out \<Longrightarrow> distinct to \<Longrightarrow> list_all (\<lambda>a. Contains a ''@'') to \<Longrightarrow>
   distinct out \<and> list_all (\<lambda>a. Contains a ''@'') out \<and> set out = set to \<union> (norm_addr ` set as - {[]})"
proof (induction as arbitrary: to)
  case (Cons a0 as)
  define a where "a = norm_addr a0"
  have step: "to_loop (a0 # as) to = (if a = [] then to_loop as to
      else if \<not> Contains a ''@'' then Inl (Errorf (''invalid recipient address: '' @ a))
      else if a \<notin> set to then to_loop as (to @ [a]) else to_loop as to)"
    by (simp add: a_def norm_addr_def Let_def)
  consider "a = [] \<or> a \<in> set to" "to_loop as to = Inr out" | "a \<noteq> []" "a \<notin> set to" "Contains a ''@''" "to_loop as (to @ [a]) = Inr out"
    using Cons.prems(1) unfolding step by (auto split: if_splits)
  then show ?case
  proof cases
    case 1
    then show ?thesis using Cons.IH [OF 1(2) Cons.prems(2,3)] by (auto simp: a_def [symmetric])
  next
    case 2
    then show ?thesis using Cons.IH [OF 2(4)] Cons.prems(2,3) by (auto simp: a_def [symmetric])
  qed
qed simp

lemma BuildMessage_clean:
  assumes "BuildMessage lib date rnd mid sd to subject body html = Inr msg"
  shows "list_all (\<lambda>a. \<not> ContainsAny a crlf) (sd # to)"
  using assms by (auto simp: BuildMessage_def list_ex_iff list_all_iff split: if_splits)

lemma ListAccounts_set: "ListAccounts s = (Inr accs, s1) \<Longrightarrow> set accs = set (accounts s) \<and> (\<exists>fs. s1 = s\<lparr>faults := fs\<rparr>)"
  by (auto simp: ListAccounts_def dest!: select_Inr)

lemma senderAllowed_True:
  "senderAllowed sd s = (True, s1) \<Longrightarrow> (\<exists>u\<in>set (accounts s). AllowsFrom u sd) \<and> (\<exists>fs. s1 = s\<lparr>faults := fs\<rparr>)"
  by (auto simp: senderAllowed_def list_ex_iff split: prod.splits sum.splits dest!: ListAccounts_set)

lemma senderAllowed_False: "senderAllowed sd s = (False, s1) \<Longrightarrow> \<exists>fs. s1 = s\<lparr>faults := fs\<rparr>"
  by (auto simp: senderAllowed_def ListAccounts_def split: prod.splits sum.splits dest!: select_inv(1))

text \<open>A row that a composed message may become.\<close>

definition composed_row :: "api_server \<Rightarrow> string \<Rightarrow> queue_row \<Rightarrow> bool" where
  "composed_row srv sd row \<longleftrightarrow> q_sender row = sd \<and> q_status row = StatusQueued \<and> q_to row \<noteq> [] \<and> distinct (q_to row) \<and>
     int (length (q_to row)) \<le> maxRecipients srv \<and> int (length (q_data row)) \<le> maxMessageSize srv \<and>
     list_all (\<lambda>a. Contains a ''@'' \<and> \<not> ContainsAny a crlf) (sd # q_to row)"

text \<open>The outcome of a request to compose: the row it added, with its identifier in a 201 answer, or no row and an error.\<close>

definition composed_outcome :: "api_server \<Rightarrow> string \<Rightarrow> api_state \<Rightarrow> http_resp \<times> api_state \<Rightarrow> bool" where
  "composed_outcome srv sd s out \<longleftrightarrow> accounts (a_db (snd out)) = accounts (a_db s) \<and> dkim_keys (a_db (snd out)) = dkim_keys (a_db s) \<and>
     (if Code (fst out) = 201
      then \<exists>row. queue_messages (a_db (snd out)) = queue_messages (a_db s) @ [row] \<and> composed_row srv sd row \<and>
             Payload (fst out) = Object [(''id'', JStr (q_id row)), (''status'', JStr StatusQueued)]
      else queue_messages (a_db (snd out)) = queue_messages (a_db s))"

lemma outcome_cong:
  assumes "composed_outcome srv sd s1 out" and "a_db s1 = (a_db s)\<lparr>faults := fs\<rparr> \<or> a_db s1 = a_db s"
  shows "composed_outcome srv sd s out"
proof -
  have eqs: "accounts (a_db s1) = accounts (a_db s)" "dkim_keys (a_db s1) = dkim_keys (a_db s)"
    "queue_messages (a_db s1) = queue_messages (a_db s)" using assms(2) by auto
  show ?thesis using assms(1) unfolding composed_outcome_def eqs .
qed

lemma EnqueueWithID_row:
  assumes "EnqueueWithID t mid sd to data s = (r, s1)"
  shows "accounts s1 = accounts s \<and> dkim_keys s1 = dkim_keys s \<and>
    (case r of Inl e \<Rightarrow> queue_messages s1 = queue_messages s
     | Inr i \<Rightarrow> i = mid \<and> queue_messages s1 = queue_messages s @ [new_row t mid sd to data])"
proof (cases "sql (insert_queue (new_row t mid sd to data)) s")
  case (Pair x s2)
  then show ?thesis using assms
    by (cases rule: sql_cases [OF Pair]) (auto simp: EnqueueWithID_def insert_queue_def split: if_splits)
qed

lemma AddCounter_tables: "accounts (snd (AddCounter t nm k s)) = accounts s \<and> dkim_keys (snd (AddCounter t nm k s)) = dkim_keys s \<and>
   queue_messages (snd (AddCounter t nm k s)) = queue_messages s"
  using AddCounter_submits [of "{}" undefined s t nm k] AddCounter_queue [of t nm k s] by (simp add: submits_def)

lemma outcome_error:
  assumes "code \<noteq> 201" and "queue_messages d = queue_messages (a_db s)" "accounts d = accounts (a_db s)" "dkim_keys d = dkim_keys (a_db s)"
    and "a_db s' = d"
  shows "composed_outcome srv sd s (writeError code msg, s')"
  using assms by (simp add: composed_outcome_def writeError_def writeJSON_def)

lemma queue_composed_outcome:
  assumes "composed_row srv sd (new_row (now_ms t) mid sd to msg)"
  shows "composed_outcome srv sd s (queue_composed srv t mid sd to msg s)"
proof -
  let ?d = "Add (a_rec srv) (now_ns t) mid sd to msg (a_db s)"
  have add: "same_core (a_db s) ?d" by (rule recorder_same_core)
  obtain x d2 where enq: "EnqueueWithID (now_ms t) mid sd to msg ?d = (x, d2)" by (cases "EnqueueWithID (now_ms t) mid sd to msg ?d")
  have drop: "same_core d2 (Drop (a_rec srv) mid d2)" by (rule recorder_same_core)
  show ?thesis
  proof (cases x)
    case (Inl e)
    then show ?thesis unfolding queue_composed_def Let_def enq using add drop EnqueueWithID_row [OF enq]
      by (simp add: same_core_def with_db_def) (rule outcome_error, simp_all)
  next
    case (Inr i)
    then show ?thesis using assms add EnqueueWithID_row [OF enq] AddCounter_tables [of "now_ms t" "''messages_queued''" 1 d2]
      by (simp add: queue_composed_def enq composed_outcome_def same_core_def writeJSON_def new_row_def)
  qed
qed

lemma compose_outcome:
  assumes "distinct to" and "list_all (\<lambda>a. Contains a ''@'') (sd # to)"
  shows "composed_outcome srv sd s (compose srv req sd to s)"
proof -
  let ?t = "a_clock srv (a_ticks s)"
  let ?mid = "NewID (id_stamp ?t) (id_rand ?t)"
  have "composed_outcome srv sd s (queue_composed srv ?t ?mid sd to msg (s\<lparr>a_ticks := a_ticks s + 1\<rparr>))"
    if "BuildMessage lib date rnd ?mid sd to subj body html = Inr msg" and "to \<noteq> []" and "int (length to) \<le> maxRecipients srv"
      and "int (length msg) \<le> maxMessageSize srv" for lib date rnd subj body html msg
  proof -
    have "composed_row srv sd (new_row (now_ms ?t) ?mid sd to msg)"
      using assms that BuildMessage_clean [OF that(1)] by (simp add: composed_row_def new_row_def list_all_iff)
    then show ?thesis by (rule outcome_cong [OF queue_composed_outcome]) simp
  qed
  then show ?thesis
    by (auto simp: compose_def api_now_def Let_def not_less split: sum.split intro!: outcome_error)
qed

lemma handleSend_outcome_core:
  "\<exists>sd. composed_outcome srv sd s (handleSend srv r s) \<and>
     (Code (fst (handleSend srv r s)) = 201 \<longrightarrow>
        (\<exists>u\<in>set (accounts (a_db s)). AllowsFrom u sd) \<and>
        (\<exists>req. decode_send (a_json srv) (Body r) = Inr req \<and> sd = norm_addr (srFrom req)))"
proof (cases "decode_send (a_json srv) (Body r)")
  case (Inl e)
  then show ?thesis
    by (intro exI [of _ "[]"]) (simp add: handleSend_def composed_outcome_def writeError_def writeJSON_def)
next
  case (Inr req)
  let ?sd = "norm_addr (srFrom req)"
  obtain b d1 where sa: "senderAllowed ?sd (a_db s) = (b, d1)" by (cases "senderAllowed ?sd (a_db s)")
  have d1: "\<exists>fs. d1 = (a_db s)\<lparr>faults := fs\<rparr>" using sa senderAllowed_True [of ?sd "a_db s" d1] senderAllowed_False [of ?sd "a_db s" d1] by (cases b) simp_all
  have eq: "handleSend srv r s =
      (if \<not> Contains ?sd ''@'' then (writeError 400 ''from must be a valid sender address'', s)
       else if \<not> b then (writeError 403 ''sender not allowed by any account'', with_db d1 s)
       else case to_loop (srTo req) [] of Inl err \<Rightarrow> (writeError 400 (err_text err), with_db d1 s)
         | Inr to \<Rightarrow> compose srv req ?sd to (with_db d1 s))"
    using sa by (simp add: handleSend_def Inr norm_addr_def Let_def split: bool.split sum.split)
  have err: "composed_outcome srv ?sd s (writeError code m, s')" if "code \<noteq> 201" "a_db s' = a_db s \<or> s' = with_db d1 s" for code m s'
    using d1 that by (intro outcome_error) (auto simp: with_db_def)
  have "composed_outcome srv ?sd s (compose srv req ?sd to (with_db d1 s))" if "to_loop (srTo req) [] = Inr to" "Contains ?sd ''@''" for to
    using compose_outcome [of to ?sd srv "with_db d1 s" req] to_loop_ok [OF that(1)] that(2) d1
    by (auto simp: with_db_def elim: outcome_cong)
  then have "composed_outcome srv ?sd s (handleSend srv r s)"
    unfolding eq by (auto split: sum.split intro: err)
  moreover have "\<exists>u\<in>set (accounts (a_db s)). AllowsFrom u ?sd" if "Code (fst (handleSend srv r s)) = 201"
    using that senderAllowed_True [of ?sd "a_db s" d1] sa unfolding eq
    by (cases b) (auto simp: writeError_def writeJSON_def split: if_splits)
  ultimately show ?thesis using Inr by blast
qed

text \<open>
  C21. A composed message is queued under the rules. \<open>POST /send\<close> answers 201 exactly when it added one row
  to the queue, and then that row has the sender of the request, which some account of the store may
  use, at least one and at most the allowed number of different recipients, all with an at-sign and
  without line breaks, a text within the size limit, and the identifier that the answer shows. On every
  other answer the queue is as it was. Accounts and keys never change.
\<close>

theorem handleSend_outcome:
  "\<exists>sd. composed_outcome srv sd s (handleSend srv r s) \<and>
     (Code (fst (handleSend srv r s)) = 201 \<longrightarrow>
        (\<exists>u\<in>set (accounts (a_db s)). AllowsFrom u sd) \<and>
        (\<exists>req. decode_send (a_json srv) (Body r) = Inr req \<and> sd = norm_addr (srFrom req)))"
  by (rule handleSend_outcome_core)

section \<open>Changes take effect at once\<close>

lemma created_row:
  assumes "bcrypt_ok (a_bcrypt srv)" and "handleCreateAccount srv r s = (resp, s')" and "Code resp \<in> {200, 201}"
    and "decode_create_account (a_json srv) (Body r) = Inr req"
  shows "\<exists>u. account_row (norm_addr (caEmail req)) (a_db s') = Some u \<and>
     seed_sat (a_bcrypt srv) \<lparr>SeedEmail = norm_addr (caEmail req), SeedPassword = caPassword req, SeedAllowedFrom = caAllowedFrom req\<rparr> u"
proof -
  let ?seed = "\<lparr>SeedEmail = norm_addr (caEmail req), SeedPassword = caPassword req, SeedAllowedFrom = caAllowedFrom req\<rparr>"
  obtain sm e d1 where up: "UpsertAccounts (a_bcrypt srv) [?seed] (a_db s) = ((sm, e), d1)"
    by (cases "UpsertAccounts (a_bcrypt srv) [?seed] (a_db s)") auto
  have "e = None \<and> a_db s' = d1"
    using assms(2-4) up unfolding norm_addr_def
    by (auto simp: handleCreateAccount_def Let_def writeError_def writeJSON_def with_db_def split: if_splits option.splits)
  then have "upsert_loop (upsert_account (a_bcrypt srv)) ([] @ ?seed # []) empty_summary (a_db s) = ((sm, None), a_db s')"
    using up by (simp add: UpsertAccounts_def)
  from upserting.loop_sat [OF acct_upserting [OF assms(1)] this] show ?thesis by simp
qed

text \<open>
  C22. An account created over the API can log in at once: when \<open>POST /accounts\<close> has answered 200 or 201, a
  login over SMTP with that address, in any case and with any white space around it, and that password
  is accepted, and the session then may send as exactly the address and the allowed senders that the
  request listed.
\<close>

theorem created_account_logs_in:
  assumes "bcrypt_ok (a_bcrypt srv)" and "handleCreateAccount srv r s = (resp, s')" and "Code resp \<in> {200, 201}"
    and "decode_create_account (a_json srv) (Body r) = Inr req"
    and "bcr smtp = a_bcrypt srv" and "db c = a_db s'" and "faults (a_db s') = []" and "norm_addr login = norm_addr (caEmail req)"
  shows "\<exists>u. user (tryAuthenticate smtp login (caPassword req) c) = Some u \<and>
     (\<forall>sd. AllowsFrom u sd \<longleftrightarrow> norm_addr sd = norm_addr (caEmail req) \<or> norm_addr sd \<in> norm_addr ` set (caAllowedFrom req) - {[]})"
proof -
  obtain u where u: "account_row (norm_addr login) (a_db s') = Some u" "VerifyPassword (bcr smtp) (PasswordHash u) (caPassword req)"
      "AllowedFrom u = normalizeAllowed (norm_addr (caEmail req)) (caAllowedFrom req)"
    using created_row [OF assms(1-4)] assms(5,8) by (auto simp: seed_sat_def)
  have "fst (GetAccount login (db c)) = Inr (Some u)"
    using u(1) assms(6,7) by (simp add: GetAccount_def Let_def sql_no_fault select_def norm_addr_def [symmetric])
  then have "user (tryAuthenticate smtp login (caPassword req) c) = Some u"
    using u(2) by (simp add: tryAuthenticate_eq auth_ok_def add_counter_now_def reset_def)
  moreover have "AllowsFrom u sd \<longleftrightarrow> norm_addr sd = norm_addr (caEmail req) \<or> norm_addr sd \<in> norm_addr ` set (caAllowedFrom req) - {[]}" for sd
    using set_normalizeAllowed [of "norm_addr (caEmail req)" "caAllowedFrom req"] u(3)
    by (auto simp: AllowsFrom_def Let_def norm_addr_def [symmetric])
  ultimately show ?thesis by blast
qed

text \<open>
  C23. A DKIM key stored over the API signs at once: when \<open>POST /dkim\<close> has answered 200 or 201, the deliverer
  sends every message whose sender is of that domain behind the signature that the stored key gives for
  that domain and selector.
\<close>

theorem created_key_signs:
  assumes "handleCreateDKIM srv r s = (resp, s')" and "Code resp \<in> {200, 201}"
    and "decode_create_dkim (a_json srv) (Body r) = Inr req" and "domainOf (From m) = norm_addr (cdDomain req)"
    and "d_db st = a_db s'" and "faults (a_db s') = []" and "r_crypto d = a_crypto srv"
  shows "\<exists>sg. ParseSigner (a_crypto srv) (cdKeyData req) = Inr sg \<and>
     (\<forall>header. dkim_signature (a_crypto srv) (norm_addr (cdDomain req)) (TrimSpace (cdSelector req)) sg (normalizeCRLF (Data m)) = Inr header \<longrightarrow>
        fst (prepareBody d m st) = Inr (header @ normalizeCRLF (Data m)))"
proof -
  let ?key = "\<lparr>Domain = norm_addr (cdDomain req), Selector = TrimSpace (cdSelector req), KeyData = cdKeyData req\<rparr>"
  obtain sm e d1 where up: "UpsertDKIM [?key] (a_db s) = ((sm, e), d1)" by (cases "UpsertDKIM [?key] (a_db s)") auto
  obtain sg where sg: "ParseSigner (a_crypto srv) (cdKeyData req) = Inr sg" and ok: "e = None \<and> a_db s' = d1"
    using assms(1-3) up unfolding norm_addr_def
    by (auto simp: handleCreateDKIM_def Let_def writeError_def writeJSON_def with_db_def split: if_splits option.splits sum.splits)
  have "upsert_loop upsert_dkim ([] @ ?key # []) empty_summary (a_db s) = ((sm, None), a_db s')"
    using up ok by (simp add: UpsertDKIM_def)
  from ud.loop_sat [OF this] have row: "dkim_row (norm_addr (cdDomain req)) (a_db s') = Some ?key"
    by (simp add: dkim_sat_def)
  have "fst (GetDKIM (domainOf (From m)) (d_db st)) = Inr (Some ?key)"
    using row assms(4-6) by (simp add: GetDKIM_def Let_def sql_no_fault select_def norm_addr_def [symmetric])
  then show ?thesis using sg assms(4,7)
    by (auto simp: prepareBody_def Let_def Sign_def split: prod.split)
qed

section \<open>A server to test with\<close>

definition demo_json :: jsonlib where
  "demo_json = \<lparr>decode_create_account = (\<lambda>b. Inr \<lparr>caEmail = '' Bob@X'', caPassword = ''pw'', caAllowedFrom = [''info@x'']\<rparr>),
     decode_update_account = (\<lambda>b. Inl (Errorf ''EOF'')),
     decode_create_dkim = (\<lambda>b. Inr \<lparr>cdDomain = ''X'', cdSelector = ''s1'', cdKeyData = ''-----BEGINkey''\<rparr>),
     decode_send = (\<lambda>b. Inr \<lparr>srFrom = ''A@x'', srTo = [''b@y'', ''B@y''], srSubject = ''hi'', srText = ''hello'', srHTML = []\<rparr>)\<rparr>"

definition demo_api :: api_server where
  "demo_api = NewAPI \<lparr>env_bcrypt = demo_bcrypt, env_crypto = demo_crypto, env_json = demo_json, env_mime = demo_mime, env_clock = clock demo_server,
     env_boundary = (\<lambda>_. Inr ''b''), env_spec = ''{}'',
     DefaultResolver = (\<lambda>_. \<lparr>LookupTXT = (\<lambda>_. Inr []), LookupMX = (\<lambda>_. Inr []), LookupHostname = (\<lambda>_. Inr []), LookupAddr = (\<lambda>_. Inr [])\<rparr>),
     env_started = 0\<rparr> \<lparr>APIListen = ''127.0.0.1:9090'', Token = ''secret''\<rparr> None ''dev'' ''h'' 0 0"

definition demo_request :: "string \<Rightarrow> string list \<Rightarrow> string \<Rightarrow> http_req" where
  "demo_request m p auth = \<lparr>Method = m, Path = p, Query = (\<lambda>_. []), Authorization = auth, Body = ''body'', PathValue = []\<rparr>"

definition demo_api_state :: api_state where
  "demo_api_state = \<lparr>a_db = demo_db, a_counts = no_counts, a_ticks = 0\<rparr>"


lemma ServeHTTP_inv_witness:
  "queue_inv (a_db (snd (ServeHTTP demo_api (demo_request ''POST'' [''api'', ''send''] ''Bearer secret'') demo_api_state)))"
proof -
  have "queue_inv (a_db demo_api_state)"
    by (simp add: queue_inv_def demo_api_state_def demo_db_def new_store_def new_row_def wf_row_def)
  moreover have "accounts_inv (a_db demo_api_state)" by code_simp
  ultimately show ?thesis using ServeHTTP_inv [of demo_api_state demo_api] by blast
qed

lemma handleSend_outcome_witness:
  "\<exists>sd. composed_outcome demo_api sd demo_api_state (handleSend demo_api (demo_request ''POST'' [] []) demo_api_state) \<and> AllowsFrom demo_account sd"
proof -
  have "Code (fst (handleSend demo_api (demo_request ''POST'' [] []) demo_api_state)) = 201" by code_simp
  then show ?thesis using handleSend_outcome [of demo_api demo_api_state "demo_request ''POST'' [] []"]
    by (auto simp: demo_api_state_def demo_db_def)
qed

lemma demo_api_parts:
  "a_bcrypt demo_api = demo_bcrypt" "a_crypto demo_api = demo_crypto" "bcr demo_server = demo_bcrypt"
  "decode_create_account (a_json demo_api) b = Inr \<lparr>caEmail = '' Bob@X'', caPassword = ''pw'', caAllowedFrom = [''info@x'']\<rparr>"
  "decode_create_dkim (a_json demo_api) b = Inr \<lparr>cdDomain = ''X'', cdSelector = ''s1'', cdKeyData = ''-----BEGINkey''\<rparr>"
  by (simp_all add: demo_api_def NewAPI_def demo_json_def demo_server_def)

lemma created_account_logs_in_witness:
  "\<exists>u. user (tryAuthenticate demo_server ''BOB@x'' ''pw''
     (new_session (OtherAddr ''z'') [] [] (a_db (snd (handleCreateAccount demo_api (demo_request ''POST'' [] []) demo_api_state))) no_counts 0)) = Some u \<and>
     AllowsFrom u ''info@x''"
proof -
  let ?h = "handleCreateAccount demo_api (demo_request ''POST'' [] []) demo_api_state"
  let ?c = "new_session (OtherAddr ''z'') [] [] (a_db (snd ?h)) no_counts 0"
  have code: "Code (fst ?h) = 201" and ok: "faults (a_db (snd ?h)) = []" and n: "norm_addr ''BOB@x'' = norm_addr '' Bob@X''"
    and i: "norm_addr ''info@x'' = ''info@x''"
    by code_simp+
  have c: "db ?c = a_db (snd ?h)" by (simp add: new_session_def)
  show ?thesis
    using created_account_logs_in [of demo_api "demo_request ''POST'' [] []" demo_api_state "fst ?h" "snd ?h" _ demo_server ?c "''BOB@x''",
        OF _ _ _ demo_api_parts(4) _ c ok] code n demo_bcrypt_ok
    by (auto simp: demo_api_parts i)
qed

lemma created_key_signs_witness:
  "fst (prepareBody (demo_relay\<lparr>r_crypto := demo_crypto\<rparr>) demo_msg
     \<lparr>d_db = a_db (snd (handleCreateDKIM demo_api (demo_request ''POST'' [] []) demo_api_state)), d_counts = no_counts, d_ev = 0, mx_log = []\<rparr>) =
   Inr ((''DKIM-Signature: d=x'' @ crlf) @ normalizeCRLF ''hi'')"
proof -
  let ?h = "handleCreateDKIM demo_api (demo_request ''POST'' [] []) demo_api_state"
  let ?s = "\<lparr>d_db = a_db (snd ?h), d_counts = no_counts, d_ev = 0, mx_log = []\<rparr>"
  have code: "Code (fst ?h) = 201" and ok: "faults (a_db (snd ?h)) = []" and dm: "domainOf (From demo_msg) = ''x''"
    and n: "norm_addr ''X'' = ''x''" "TrimSpace ''s1'' = ''s1''" "Data demo_msg = ''hi''"
    by code_simp+
  have sig: "dkim_signature demo_crypto ''x'' ''s1'' sg msg = Inr (''DKIM-Signature: d=x'' @ crlf)" for sg msg
    by (simp add: demo_crypto_def)
  show ?thesis
    using created_key_signs [of demo_api "demo_request ''POST'' [] []" demo_api_state "fst ?h" "snd ?h" _ demo_msg ?s "demo_relay\<lparr>r_crypto := demo_crypto\<rparr>",
        OF _ _ demo_api_parts(5) _ _ ok] code dm n sig
    by (simp add: demo_api_parts)
qed

end
