(* ===== verification/Relay_Life.thy ===== *)
theory Relay_Life
  imports Relay_Props "HOL-Library.Multiset"
begin

text \<open>
  The life of one message across all its attempts. Between two attempts the deliverer works on other
  messages and the rest of the program on the store; what an attempt leaves in the row is what the next
  one reads. From this follow that no recipient is sent the message by two transactions, that every
  recipient is accounted for at any time, and that a message leaves the queue after its last attempt.
\<close>

section \<open>Attempts and what happens between them\<close>

text \<open>A change of the store that leaves the work on a waiting message as it was; a message that is not waiting does not come back.\<close>

definition same_work :: "string \<Rightarrow> store \<Rightarrow> store \<Rightarrow> bool" where
  "same_work i s t \<longleftrightarrow> (phase_of i t = Waiting \<longrightarrow>
     (\<exists>r r'. row_of i s = Some r \<and> row_of i t = Some r' \<and> same_mail r r' \<and> q_to r' = q_to r \<and> q_permanent r' = q_permanent r \<and>
        q_attempts r' = q_attempts r))"

text \<open>
  \<open>life d i s0 lg n s\<close>: from \<open>s0\<close> the program came to \<open>s\<close> with \<open>n\<close> attempts at message \<open>i\<close>, in which mail
  exchangers accepted \<open>lg\<close>.
\<close>

inductive life :: "relay \<Rightarrow> string \<Rightarrow> dstate \<Rightarrow> sent_mail list \<Rightarrow> nat \<Rightarrow> dstate \<Rightarrow> bool" for d i s0 where
  life_begins: "life d i s0 [] 0 s0"
| life_attempt: "life d i s0 lg n s \<Longrightarrow> row_of i (d_db s) = Some r \<Longrightarrow> q_status r = StatusQueued \<Longrightarrow>
     mx_log (deliver d (scanMessage r) s) = mx_log s @ new \<Longrightarrow> life d i s0 (lg @ new) (Suc n) (deliver d (scanMessage r) s)"
| life_others: "life d i s0 lg n s \<Longrightarrow> ID m \<noteq> i \<Longrightarrow> life d i s0 lg n (deliver d m s)"
| life_store: "life d i s0 lg n s \<Longrightarrow> faults t = [] \<Longrightarrow> queue_inv t \<Longrightarrow> same_work i (d_db s) t \<Longrightarrow>
     life d i s0 lg n (s\<lparr>d_ev := k, d_db := t\<rparr>)"

text \<open>A transaction for the message of a row: its envelope sender, and its text with nothing but a header, such as a signature, in front.\<close>

definition carries :: "queue_row \<Rightarrow> sent_mail \<Rightarrow> bool" where
  "carries r e \<longleftrightarrow> sm_from e = q_sender r \<and> (\<exists>header. sm_body e = header @ normalizeCRLF (q_data r))"

definition life_ok :: "relay \<Rightarrow> queue_row \<Rightarrow> sent_mail list \<Rightarrow> nat \<Rightarrow> store \<Rightarrow> bool" where
  "life_ok d r0 lg n s \<longleftrightarrow> faults s = [] \<and> queue_inv s \<and>
     no_repeat lg \<and> accepted lg \<subseteq> set (q_to r0) \<and> list_all (carries r0) lg \<and>
     (n \<le> 1 \<or> q_attempts r0 + int n \<le> MaxAttempts (Delivery (r_cfg d))) \<and>
     (phase_of (q_id r0) s = Waiting \<longrightarrow>
        (\<exists>r. row_of (q_id r0) s = Some r \<and> same_mail r0 r \<and> q_attempts r = q_attempts r0 + int n \<and>
           (n = 0 \<or> q_attempts r < MaxAttempts (Delivery (r_cfg d))) \<and> accepted lg \<inter> set (q_to r) = {} \<and>
           set (q_to r) \<subseteq> set (q_to r0) \<and>
           accepted lg \<union> set (q_to r) \<union> dom_list (q_permanent r) = set (q_to r0) \<union> dom_list (q_permanent r0)))"

lemma row_of_mem: "queue_inv s \<Longrightarrow> row_of i s = Some r \<longleftrightarrow> r \<in> set (queue_messages s) \<and> q_id r = i"
proof
  assume "row_of i s = Some r"
  then show "r \<in> set (queue_messages s) \<and> q_id r = i" using row_of_id by blast
next
  assume inv: "queue_inv s" and r: "r \<in> set (queue_messages s) \<and> q_id r = i"
  then obtain r' where r': "row_of i s = Some r'" using row_of_None [of i s] by (cases "row_of i s") auto
  then show "row_of i s = Some r" using r row_of_id [OF r'] inv unique_row [of "queue_messages s" r r'] by (simp add: queue_inv_def)
qed

lemma phase_waiting: "queue_inv s \<Longrightarrow> phase_of i s = Waiting \<longleftrightarrow> (\<exists>r. row_of i s = Some r \<and> q_status r = StatusQueued)"
  using row_of_wf [of s i] by (auto simp: phase_of_def wf_row_def split: option.splits)

lemma life_ok_born:
  assumes "faults s = []" and "queue_inv s" and "row_of (q_id r0) s = Some r0"
  shows "life_ok d r0 [] 0 s"
  using assms by (simp add: life_ok_def)

text \<open>Work on other messages and on the rest of the store.\<close>

lemma life_ok_same:
  assumes "life_ok d r0 lg n s" and "faults t = []" and "queue_inv t" and "same_work (q_id r0) s t"
  shows "life_ok d r0 lg n t"
proof -
  have "\<exists>r'. row_of (q_id r0) t = Some r' \<and> same_mail r0 r' \<and> q_attempts r' = q_attempts r0 + int n \<and>
      (n = 0 \<or> q_attempts r' < MaxAttempts (Delivery (r_cfg d))) \<and> accepted lg \<inter> set (q_to r') = {} \<and> set (q_to r') \<subseteq> set (q_to r0) \<and>
      accepted lg \<union> set (q_to r') \<union> dom_list (q_permanent r') = set (q_to r0) \<union> dom_list (q_permanent r0)"
    if w: "phase_of (q_id r0) t = Waiting"
  proof -
    obtain r r' where rr: "row_of (q_id r0) s = Some r" "row_of (q_id r0) t = Some r'" "same_mail r r'" "q_to r' = q_to r"
        "q_permanent r' = q_permanent r" "q_attempts r' = q_attempts r"
      using assms(4) w unfolding same_work_def by blast
    have "phase_of (q_id r0) s = Waiting" using w rr by (simp add: phase_of_def same_mail_def split: if_splits)
    then show ?thesis using assms(1) rr by (auto simp: life_ok_def same_mail_def)
  qed
  then show ?thesis using assms(1-3) unfolding life_ok_def by blast
qed

text \<open>A message that is not waiting does not come back by a delivery.\<close>

lemma phase_same_core: "same_core s t \<Longrightarrow> phase_of i t = phase_of i s"
  by (simp add: same_core_def phase_of_def row_of_def)

lemma phase_AddCounter: "phase_of i (snd (AddCounter t nm k s)) = phase_of i s"
  using AddCounter_frame [of t nm k s] by (intro phase_row_cong) simp

interpretation nw: core_invariant "\<lambda>s. queue_inv s \<and> phase_of i s \<noteq> Waiting" "\<lambda>m. True" for i
proof unfold_locales
  fix s t m reason assume *: "queue_inv s \<and> phase_of i s \<noteq> Waiting"
  show "same_core s t \<Longrightarrow> queue_inv t \<and> phase_of i t \<noteq> Waiting" using * same_core_queue_inv phase_same_core by metis
  show "queue_inv (snd (Succeed (ID m) s)) \<and> phase_of i (snd (Succeed (ID m) s)) \<noteq> Waiting"
    using * Succeed_inv Succeed_phase [of s "ID m" i] by auto
  show "queue_inv (snd (DeadLetter (ID m) reason s)) \<and> phase_of i (snd (DeadLetter (ID m) reason s)) \<noteq> Waiting"
    using * DeadLetter_inv DeadLetter_phase [of s "ID m" reason i] by auto
qed (simp_all add: AddCounter_queue_inv phase_AddCounter Persist_inv Persist_phase Release_inv Release_phase)

lemma others_same_work:
  assumes "queue_inv (d_db s)" and "ID m \<noteq> i"
  shows "same_work i (d_db s) (d_db (deliver d m s))"
  unfolding same_work_def
proof
  assume w: "phase_of i (d_db (deliver d m s)) = Waiting"
  have inv: "queue_inv (d_db (deliver d m s))" using qi.deliver_keeps [where m = m and s = s and d = d] assms(1) by simp
  have "phase_of i (d_db s) = Waiting" using nw.deliver_keeps [where m = m and s = s and d = d and i = i] assms(1) w by blast
  then obtain r where r: "row_of i (d_db s) = Some r" "q_status r = StatusQueued" using phase_waiting [OF assms(1)] by blast
  then have "r \<in> set (queue_messages (d_db s))" "q_id r = i" using row_of_mem [OF assms(1)] by blast+
  then have "r \<in> set (queue_messages (d_db (deliver d m s)))" using iso.deliver_keeps [of m r s d] r(2) assms(2) by simp
  then have "row_of i (d_db (deliver d m s)) = Some r" using row_of_mem [OF inv] \<open>q_id r = i\<close> by blast
  then show "\<exists>r r'. row_of i (d_db s) = Some r \<and> row_of i (d_db (deliver d m s)) = Some r' \<and> same_mail r r' \<and> q_to r' = q_to r \<and>
      q_permanent r' = q_permanent r \<and> q_attempts r' = q_attempts r"
    using r(1) by (intro exI [of _ r]) simp
qed

section \<open>One attempt\<close>

lemma row_outcome_waiting:
  assumes "row_outcome d r p s" and "phase_of (q_id r) s = Waiting"
  shows "\<exists>r'. row_of (q_id r) s = Some r' \<and> same_mail r r' \<and> q_to r' = remaining p \<and> q_permanent r' = Permanent (pmsg p) \<and>
     q_attempts r' = Attempts (pmsg p) + 1 \<and> q_attempts r' < MaxAttempts (Delivery (r_cfg d))"
  using assms by (auto simp: row_outcome_def phase_of_def split: option.splits if_splits)

lemma same_mail_trans: "same_mail r0 r \<Longrightarrow> same_mail r r' \<Longrightarrow> same_mail r0 r'"
  by (simp add: same_mail_def)

lemma deliver_body_text: "deliver_body d m s = (Inr body, s2) \<Longrightarrow> \<exists>header. body = header @ normalizeCRLF (Data m)"
  by (auto simp: deliver_body_def prepareBody_def Let_def Sign_def split: prod.splits sum.splits option.splits)

lemma life_ok_attempt:
  assumes ok: "life_ok d r0 lg n (d_db s)" and row: "row_of (q_id r0) (d_db s) = Some r" and q: "q_status r = StatusQueued"
    and new: "mx_log (deliver d (scanMessage r) s) = mx_log s @ new"
  shows "life_ok d r0 (lg @ new) (Suc n) (d_db (deliver d (scanMessage r) s))"
proof -
  let ?s = "deliver d (scanMessage r) s"
  have inv: "queue_inv (d_db s)" and nf: "faults (d_db s) = []" using ok by (simp_all add: life_ok_def)
  have i: "q_id r = q_id r0" using row_of_id [OF row] by simp
  have "phase_of (q_id r0) (d_db s) = Waiting" using phase_waiting [OF inv] row q by blast
  then have old: "same_mail r0 r" "q_attempts r = q_attempts r0 + int n" "n = 0 \<or> q_attempts r < MaxAttempts (Delivery (r_cfg d))"
      "accepted lg \<inter> set (q_to r) = {}" "set (q_to r) \<subseteq> set (q_to r0)"
      "accepted lg \<union> set (q_to r) \<union> dom_list (q_permanent r) = set (q_to r0) \<union> dom_list (q_permanent r0)"
    using ok row by (auto simp: life_ok_def)
  have "held_row r (d_db s)" using inv nf row i by (simp add: held_row_def)
  then obtain body s2 p where b: "deliver_body d (scanMessage r) s = (Inr body, s2)" and p: "mx_log ?s = mx_log (pst p)" "Attempts (pmsg p) = q_attempts r"
      "conserves (scanMessage r) body (mx_log s) p" "row_outcome d r p (d_db ?s)"
    using deliver_outcome_core [of r s "scanMessage r" d] q by (auto simp: scanMessage_def)
  then have co: "list_all (carries r) new" "accepted new \<subseteq> set (q_to r)" "set (remaining p) \<subseteq> set (q_to r)" "no_repeat new"
      "accepted new \<inter> set (remaining p) = {}"
      "accepted new \<union> set (remaining p) \<union> dom_list (Permanent (pmsg p)) = set (q_to r) \<union> dom_list (q_permanent r)"
    using new deliver_body_text [OF b] by (auto simp: conserves_def scanMessage_def list_all_iff carries_def)
  have "faults (d_db ?s) = []" "queue_inv (d_db ?s)"
    using qt.deliver_keeps [where m = "scanMessage r" and s = s and d = d] qi.deliver_keeps [where m = "scanMessage r" and s = s and d = d] nf inv by simp_all
  moreover have "no_repeat (lg @ new)" "accepted (lg @ new) \<subseteq> set (q_to r0)" "list_all (carries r0) (lg @ new)"
    using ok co old(1,4,5) by (auto simp: life_ok_def same_mail_def carries_def list_all_iff)
  moreover have "Suc n \<le> 1 \<or> q_attempts r0 + int (Suc n) \<le> MaxAttempts (Delivery (r_cfg d))" using old(2,3) by auto
  moreover have "\<exists>r'. row_of (q_id r0) (d_db ?s) = Some r' \<and> same_mail r0 r' \<and> q_attempts r' = q_attempts r0 + int (Suc n) \<and>
      q_attempts r' < MaxAttempts (Delivery (r_cfg d)) \<and> accepted (lg @ new) \<inter> set (q_to r') = {} \<and> set (q_to r') \<subseteq> set (q_to r0) \<and>
      accepted (lg @ new) \<union> set (q_to r') \<union> dom_list (q_permanent r') = set (q_to r0) \<union> dom_list (q_permanent r0)"
    if w: "phase_of (q_id r0) (d_db ?s) = Waiting"
  proof -
    obtain r' where r': "row_of (q_id r0) (d_db ?s) = Some r'" "same_mail r r'" "q_to r' = remaining p"
        "q_permanent r' = Permanent (pmsg p)" "q_attempts r' = q_attempts r + 1" "q_attempts r' < MaxAttempts (Delivery (r_cfg d))"
      using row_outcome_waiting [OF p(4), unfolded i p(2), OF w] by blast
    show ?thesis
    proof (intro exI [of _ r'] conjI)
      show "accepted (lg @ new) \<inter> set (q_to r') = {}" "set (q_to r') \<subseteq> set (q_to r0)" using r'(3) co(3,5) old(4,5) by auto
      show "accepted (lg @ new) \<union> set (q_to r') \<union> dom_list (q_permanent r') = set (q_to r0) \<union> dom_list (q_permanent r0)"
        using r'(3,4) co(6) old(6) by auto
    qed (use r' old(1,2) in \<open>auto intro: same_mail_trans\<close>)
  qed
  ultimately show ?thesis unfolding life_ok_def by blast
qed

lemma life_invariant:
  assumes "life d (q_id r0) s0 lg n s" and "faults (d_db s0) = []" and "queue_inv (d_db s0)" and "row_of (q_id r0) (d_db s0) = Some r0"
  shows "life_ok d r0 lg n (d_db s)"
  using assms(1)
proof induction
  case life_begins
  then show ?case using assms(2-4) by (rule life_ok_born)
next
  case (life_attempt lg n s r new)
  then show ?case by (intro life_ok_attempt)
next
  case (life_others lg n s m)
  then have "queue_inv (d_db s)" "faults (d_db s) = []" by (simp_all add: life_ok_def)
  then show ?case using life_others qi.deliver_keeps [where m = m and s = s and d = d] qt.deliver_keeps [where m = m and s = s and d = d] others_same_work [of s m "q_id r0" d]
    by (intro life_ok_same [OF life_others.IH]) simp_all
next
  case (life_store lg n s t k)
  then show ?case by (auto intro: life_ok_same)
qed


section \<open>Batches and the run of the worker\<close>

text \<open>The messages that the next batch hands out.\<close>

definition handed :: "relay \<Rightarrow> dstate \<Rightarrow> message list" where
  "handed d s = (case NextDue (Now d (d_ev s)) (batch_size d) (d_db s) of (Inr ms, _) \<Rightarrow> ms | _ \<Rightarrow> [])"

lemma scanMessage_lease [simp]: "scanMessage (r\<lparr>q_lease_until := l, q_worker_id := w\<rparr>) = scanMessage r"
  by (simp add: scanMessage_def)

lemma claimed_row:
  assumes "queue_inv s" and "row_of i s = Some r" and "t = s\<lparr>queue_messages := claim_rows lease tm w ids (queue_messages s)\<rparr>"
  shows "\<exists>r'. row_of i t = Some r' \<and> same_mail r r' \<and> q_to r' = q_to r \<and> q_permanent r' = q_permanent r \<and> q_attempts r' = q_attempts r \<and>
     scanMessage r' = scanMessage r"
proof -
  have "find (\<lambda>r. q_id r = i) (claim_rows lease tm w ids rs) = map_option
      (\<lambda>r. if q_id r \<in> ids \<and> q_status r = StatusQueued \<and> lease_free tm r then r\<lparr>q_lease_until := lease, q_worker_id := w\<rparr> else r)
      (find (\<lambda>r. q_id r = i) rs)" for rs
    by (induction rs) (auto simp: claim_rows_def)
  then show ?thesis using assms(2,3) by (simp add: row_of_def same_mail_def)
qed

lemma handed_rows:
  assumes "queue_inv (d_db s)" and "faults (d_db s) = []"
  shows "\<exists>t. NextDue (Now d (d_ev s)) (batch_size d) (d_db s) = (Inr (handed d s), t) \<and> faults t = [] \<and> queue_inv t \<and>
    same_work i (d_db s) t \<and> distinct (map ID (handed d s)) \<and>
    (\<forall>m\<in>set (handed d s). ID m = i \<longrightarrow> (\<exists>r. row_of i t = Some r \<and> q_status r = StatusQueued \<and> m = scanMessage r))"
proof -
  let ?now = "Now d (d_ev s)" and ?lim = "batch_size d"
  define tm where "tm = ?now div 1000000"
  define due where "due = due_rows tm (eff_limit ?lim) (d_db s)"
  define t where "t = (d_db s)\<lparr>queue_messages := claim_rows ((?now + LeaseTimeout) div 1000000) tm (instance_id (d_db s)) (q_id ` set due) (queue_messages (d_db s))\<rparr>"
  have dist: "distinct (map q_id (queue_messages (d_db s)))" using assms(1) by (simp add: queue_inv_def)
  have nd: "NextDue ?now ?lim (d_db s) = (Inr (map scanMessage (filter (lease_free tm) due)), t)"
    unfolding NextDue_ok [OF assms(2) dist] by (simp add: Let_def tm_def due_def t_def)
  then have h: "handed d s = map scanMessage (filter (lease_free tm) due)" by (simp add: handed_def)
  have inv: "queue_inv t" using NextDue_inv [OF assms(1), of ?now ?lim] nd by simp
  have claimed: "\<exists>r'. row_of j t = Some r' \<and> same_mail r r' \<and> q_to r' = q_to r \<and> q_permanent r' = q_permanent r \<and>
      q_attempts r' = q_attempts r \<and> scanMessage r' = scanMessage r" if "row_of j (d_db s) = Some r" for j r
    by (rule claimed_row [OF assms(1) that t_def])
  have ph: "phase_of i t = phase_of i (d_db s)" using NextDue_phase [of i ?now ?lim "d_db s"] nd by simp
  have "same_work i (d_db s) t"
    unfolding same_work_def ph using claimed [of i] phase_waiting [OF assms(1), of i] by blast
  moreover have "distinct (map ID (handed d s))"
    using due_rows_distinct [OF dist, of tm "eff_limit ?lim"] by (simp add: h due_def comp_def distinct_map_filter)
  moreover have "\<exists>r. row_of i t = Some r \<and> q_status r = StatusQueued \<and> m = scanMessage r" if m: "m \<in> set (handed d s)" "ID m = i" for m
  proof -
    obtain r where r: "r \<in> set due" "m = scanMessage r" using m(1) h by auto
    then have "row_of i (d_db s) = Some r" "q_status r = StatusQueued"
      using set_due_rows [of r tm] m(2) row_of_mem [OF assms(1)] by (auto simp: due_def row_due_def)
    moreover from claimed [OF this(1)] obtain r' where "row_of i t = Some r'" "same_mail r r'" "scanMessage r' = scanMessage r" by blast
    ultimately show ?thesis using r(2) by (intro exI [of _ r']) (simp add: same_mail_def)
  qed
  ultimately show ?thesis using nd h inv assms(2) by (intro exI [of _ t]) (simp add: t_def)
qed

lemma deliver_log_grows: "\<exists>new. mx_log (deliver d m s) = mx_log s @ new"
proof -
  obtain x s2 where b: "deliver_body d m s = (x, s2)" by (cases "deliver_body d m s")
  then obtain body where body: "x = Inr body" using deliver_body_facts(1) by blast
  define p where "p = deliver_loop d body (start_progress m s2)"
  have "conserves m body (mx_log s2) p" unfolding p_def by (intro conserves_loop conserves_start) simp
  moreover have "mx_log (deliver d m s) = mx_log (pst p)" by (simp add: deliver_eq [OF b [unfolded body] p_def] split: option.split)
  ultimately show ?thesis using deliver_body_facts(2) [OF b] by (auto simp: conserves_def)
qed

lemma fold_life:
  assumes "life d i s0 lg n s" and "queue_inv (d_db s)" and "distinct (map ID ms)"
    and "\<And>m. m \<in> set ms \<Longrightarrow> ID m = i \<Longrightarrow> \<exists>r. row_of i (d_db s) = Some r \<and> q_status r = StatusQueued \<and> m = scanMessage r"
  shows "\<exists>new. life d i s0 (lg @ new) (n + (if i \<in> ID ` set ms then 1 else 0)) (fold (deliver d) ms s)"
  using assms
proof (induction ms arbitrary: s lg n)
  case (Cons m ms)
  have inv: "queue_inv (d_db (deliver d m s))" using qi.deliver_keeps Cons.prems(2) by simp
  show ?case
  proof (cases "ID m = i")
    case True
    then obtain r where r: "row_of i (d_db s) = Some r" "q_status r = StatusQueued" "m = scanMessage r" using Cons.prems(4) by auto
    obtain new where new: "mx_log (deliver d m s) = mx_log s @ new" using deliver_log_grows by blast
    have "life d i s0 (lg @ new) (Suc n) (deliver d m s)"
      using life_attempt [OF Cons.prems(1) r(1,2)] new r(3) by simp
    moreover have no: "i \<notin> ID ` set ms" using Cons.prems(3) True by auto
    ultimately obtain new' where "life d i s0 ((lg @ new) @ new') (Suc n) (fold (deliver d) ms (deliver d m s))"
      using Cons.IH [of "lg @ new" "Suc n" "deliver d m s"] inv Cons.prems(3) by fastforce
    then show ?thesis using True no by (auto intro: exI [of _ "new @ new'"])
  next
    case False
    have "\<exists>r. row_of i (d_db (deliver d m s)) = Some r \<and> q_status r = StatusQueued \<and> m' = scanMessage r"
      if m': "m' \<in> set ms" "ID m' = i" for m'
    proof -
      obtain r where r: "row_of i (d_db s) = Some r" "q_status r = StatusQueued" "m' = scanMessage r" using Cons.prems(4) m' by auto
      then have "r \<in> set (queue_messages (d_db (deliver d m s)))" "q_id r = i"
        using iso.deliver_keeps [of m r s d] row_of_mem [OF Cons.prems(2)] False by auto
      then show ?thesis using r(2,3) row_of_mem [OF inv] by blast
    qed
    then show ?thesis
      using Cons.IH [OF life_others [OF Cons.prems(1) False] inv] Cons.prems(3) False by fastforce
  qed
qed (auto intro: exI [of _ "[]"])

lemma batch_life:
  assumes "life d i s0 lg n s" and "queue_inv (d_db s)" and "faults (d_db s) = []" and "\<And>ms. mset (sched ms) = mset ms"
  shows "\<exists>new. life d i s0 (lg @ new) (n + (if i \<in> ID ` set (handed d s) then 1 else 0)) (processBatch d sched s)"
proof -
  obtain t where t: "NextDue (Now d (d_ev s)) (batch_size d) (d_db s) = (Inr (handed d s), t)" "faults t = []" "queue_inv t"
      "same_work i (d_db s) t" "distinct (map ID (handed d s))"
      "\<forall>m\<in>set (handed d s). ID m = i \<longrightarrow> (\<exists>r. row_of i t = Some r \<and> q_status r = StatusQueued \<and> m = scanMessage r)"
    using handed_rows [OF assms(2,3), of d i] by blast
  have sch: "set (sched ms) = set ms" "distinct (map ID (sched ms)) = distinct (map ID ms)" for ms
    using mset_eq_setD [OF assms(4)] mset_eq_imp_distinct_iff [of "map ID (sched ms)" "map ID ms"] assms(4) by simp_all
  have eq: "processBatch d sched s = fold (deliver d) (sched (handed d s)) (s\<lparr>d_ev := Suc (d_ev s), d_db := t\<rparr>)"
    using t(1) by (simp add: processBatch_def ask_def)
  show ?thesis
    unfolding eq using fold_life [OF life_store [OF assms(1) t(2-4), of "Suc (d_ev s)"], of "sched (handed d s)"] t(3,5,6) sch by simp
qed

text \<open>The number of batches of a run of the worker that hand out message \<open>i\<close>.\<close>

fun tries :: "relay \<Rightarrow> (message list \<Rightarrow> message list) \<Rightarrow> string \<Rightarrow> run_event list \<Rightarrow> dstate \<Rightarrow> nat" where
  "tries d sched i [] s = 0"
| "tries d sched i (CtxDone # evs) s = (if i \<in> ID ` set (handed d s) then 1 else 0)"
| "tries d sched i (Tick # evs) s = (if i \<in> ID ` set (handed d s) then 1 else 0) + tries d sched i evs (processBatch d sched s)"
| "tries d sched i (Notified # evs) s =
     (let s1 = s\<lparr>d_db := (d_db s)\<lparr>notify := False\<rparr>\<rparr> in
      (if i \<in> ID ` set (handed d s1) then 1 else 0) + tries d sched i evs (processBatch d sched s1))"

lemma quiet_batch:
  assumes "queue_inv (d_db s)" and "faults (d_db s) = []"
  shows "queue_inv (d_db (processBatch d sched s)) \<and> faults (d_db (processBatch d sched s)) = []"
proof -
  obtain t where "NextDue (Now d (d_ev s)) (batch_size d) (d_db s) = (Inr (handed d s), t)" "faults t = []" "queue_inv t"
    using handed_rows [OF assms] by blast
  then show ?thesis using qi.batch_keeps qt.batch_keeps by (simp add: processBatch_def ask_def list_all_iff)
qed

lemma same_work_notify: "same_work i (d_db s) ((d_db s)\<lparr>notify := b\<rparr>)"
  by (auto simp: same_work_def row_of_def phase_of_def split: option.splits)

lemma run_life:
  assumes "life d i s0 lg n s" and "queue_inv (d_db s)" and "faults (d_db s) = []" and sched: "\<And>ms. mset (sched ms) = mset ms"
  shows "\<exists>new. life d i s0 (lg @ new) (n + tries d sched i evs s) (run_loop d sched evs s)"
  using assms(1-3)
proof (induction evs arbitrary: lg n s)
  case (Cons ev evs)
  have turn: "\<exists>new. life d i s0 (lg @ new) (n + (if i \<in> ID ` set (handed d s) then 1 else 0) + tries d sched i evs (processBatch d sched s))
      (run_loop d sched evs (processBatch d sched s))"
    if l: "life d i s0 lg n s" "queue_inv (d_db s)" "faults (d_db s) = []" for s
  proof -
    obtain new where "life d i s0 (lg @ new) (n + (if i \<in> ID ` set (handed d s) then 1 else 0)) (processBatch d sched s)"
      using batch_life [OF l sched] by blast
    from Cons.IH [OF this] show ?thesis using quiet_batch [OF l(2,3)] by (auto simp: append_assoc)
  qed
  have woken: "life d i s0 lg n (s\<lparr>d_db := (d_db s)\<lparr>notify := False\<rparr>\<rparr>)" "queue_inv ((d_db s)\<lparr>notify := False\<rparr>)"
  proof -
    show inv: "queue_inv ((d_db s)\<lparr>notify := False\<rparr>)" using Cons.prems(2) by (simp add: queue_inv_def)
    show "life d i s0 lg n (s\<lparr>d_db := (d_db s)\<lparr>notify := False\<rparr>\<rparr>)"
      using life_store [OF Cons.prems(1) _ inv same_work_notify, of "d_ev s"] Cons.prems(3) by simp
  qed
  show ?case
  proof (cases ev)
    case CtxDone
    then show ?thesis using batch_life [OF Cons.prems sched] by simp
  next
    case Tick
    then show ?thesis using turn [OF Cons.prems] by (simp add: add.assoc)
  next
    case Notified
    then show ?thesis using turn [OF woken(1)] woken(2) Cons.prems(3) by (simp add: add.assoc Let_def)
  qed
qed (auto intro: exI [of _ "[]"])

lemma run_life_ok:
  assumes "faults (d_db s) = []" and "queue_inv (d_db s)" and "row_of i (d_db s) = Some r" and "\<And>ms. mset (sched ms) = mset ms"
  shows "\<exists>lg. life d i s lg (tries d sched i evs s) (run_loop d sched evs s) \<and>
    life_ok d r lg (tries d sched i evs s) (d_db (run_loop d sched evs s))"
proof -
  have i: "q_id r = i" using row_of_id [OF assms(3)] by simp
  obtain lg where lg: "life d i s lg (tries d sched i evs s) (run_loop d sched evs s)"
    using run_life [OF life_begins assms(2,1,4), of d i evs] by auto
  then have "life_ok d r lg (tries d sched i evs s) (d_db (run_loop d sched evs s))"
    using life_invariant [of d r s] assms(1-3) i by simp
  with lg show ?thesis by blast
qed

text \<open>
  C4. A message leaves the queue. In a run of the worker over any events, with any schedule of each batch
  and any behaviour of the network, no statement failing, the batches that hand out a message are at most
  the attempts it has left, or one, and when they are that many, the message is not waiting any more:
  it was delivered, or it is a dead letter. Every one of those batches is an attempt in its life.
\<close>

theorem message_leaves_queue:
  assumes "faults (d_db s) = []" and "queue_inv (d_db s)" and "row_of i (d_db s) = Some r" and "\<And>ms. mset (sched ms) = mset ms"
  shows "(\<exists>lg. life d i s lg (tries d sched i evs s) (run_loop d sched evs s)) \<and>
    int (tries d sched i evs s) \<le> max 1 (MaxAttempts (Delivery (r_cfg d)) - q_attempts r) \<and>
    (int (tries d sched i evs s) = max 1 (MaxAttempts (Delivery (r_cfg d)) - q_attempts r) \<longrightarrow>
       phase_of i (d_db (run_loop d sched evs s)) \<noteq> Waiting)"
  using run_life_ok [OF assms, of d evs] row_of_id [OF assms(3)] by (auto simp: life_ok_def)

section \<open>A message with one attempt\<close>

text \<open>A deliverer that makes one attempt, over a queue with one message.\<close>

definition demo_once :: relay where
  "demo_once = demo_relay\<lparr>r_cfg := (r_cfg demo_relay)\<lparr>Delivery := (Delivery (r_cfg demo_relay))\<lparr>MaxAttempts := 1\<rparr>\<rparr>\<rparr>"

definition demo_queued :: queue_row where
  "demo_queued = new_row 1 ''m1'' ''a@x'' [''b@y''] ''hi''"

definition demo_before :: dstate where
  "demo_before = demo_dstate\<lparr>d_db := (new_store ''sqlite'' ''w'')\<lparr>queue_messages := [demo_queued]\<rparr>\<rparr>"

lemma demo_life_start:
  "faults (d_db demo_before) = []" "queue_inv (d_db demo_before)" "row_of ''m1'' (d_db demo_before) = Some demo_queued" "q_id demo_queued = ''m1''"
  by (simp_all add: demo_before_def new_store_def row_of_def queue_inv_def wf_row_def new_row_def demo_queued_def)


lemma message_leaves_queue_witness: "phase_of ''m1'' (d_db (run_loop demo_once (\<lambda>ms. ms) [Tick] demo_before)) \<noteq> Waiting"
proof -
  have "map ID (handed demo_once demo_before) = [''m1'']" by code_simp
  then have "ID ` set (handed demo_once demo_before) = {''m1''}" by (metis list.set_map list.simps(15) empty_set)
  then have "tries demo_once (\<lambda>ms. ms) ''m1'' [Tick] demo_before = 1" by simp
  moreover have "MaxAttempts (Delivery (r_cfg demo_once)) = 1" "q_attempts demo_queued = 0"
    by (simp_all add: demo_once_def demo_queued_def new_row_def)
  ultimately show ?thesis
    using message_leaves_queue [OF demo_life_start(1-3), of "\<lambda>ms. ms" demo_once "[Tick]"] by simp
qed

end
