(* ===== verification/Whole_System.thy ===== *)
theory Whole_System
  imports Api_Props Relay_Life
begin

text \<open>
  Submission, delivery and administration over one store: the policy that every row of the queue obeys,
  whichever of them made or changed it, and the steps of the system as a whole.
\<close>

section \<open>The policy on rows\<close>

text \<open>A row that may be sent: some account of \<open>A\<close> may use its sender, it has recipients, and every address has an at-sign.\<close>

definition sendable :: "account set \<Rightarrow> queue_row \<Rightarrow> bool" where
  "sendable A r \<longleftrightarrow> (\<exists>u\<in>A. AllowsFrom u (q_sender r)) \<and> q_to r \<noteq> [] \<and> list_all (\<lambda>a. Contains a ''@'') (q_sender r # q_to r)"

lemma validEnvelopeAddr_at: "validEnvelopeAddr a \<Longrightarrow> Contains a ''@''"
  using IndexByte_None_iff [of "rev a" "CHR ''@''"] by (auto simp: validEnvelopeAddr_def LastIndexByte_def Contains_byte split: option.splits)

lemma authorised_sendable: "authorised A cf r \<Longrightarrow> sendable A r"
  by (auto simp: authorised_def sendable_def list_all_iff validEnvelopeAddr_at)

interpretation sp: submission_policy "sendable A" A srv for A srv
  by unfold_locales (auto simp: authorised_sendable, auto simp: sendable_def list_all_iff subset_iff)

section \<open>The policy under administration\<close>

text \<open>The operations on accounts, keys and counters leave the queue as it is.\<close>

interpretation qf: side_tables "\<lambda>s. queue_messages s = Q" for Q
  by unfold_locales (simp_all add: put_dkim_def del_dkim_def conflict_clause_def put_counters_def add_counter_def split: option.split)

lemma account_ops_queue:
  "queue_messages (snd (UpsertAccounts bc seeds s)) = queue_messages s" "queue_messages (snd (DeleteAccount email s)) = queue_messages s"
  "queue_messages (snd (UpdateAccount bc email allowed pw s)) = queue_messages s"
proof -
  have stmts: "queue_messages (snd (put_account a s)) = queue_messages s" "queue_messages (snd (del_account k s)) = queue_messages s"
      "queue_messages (snd (edit_account k g s)) = queue_messages s" for a k g s
    by (simp_all add: put_account_def del_account_def edit_account_def)
  have one: "queue_messages (snd (upsert_account bc x s)) = Q" if "queue_messages s = Q" for x s Q
    using that by (auto simp: upsert_account_def GetAccount_def Let_def stmts split: prod.splits sum.splits option.splits
        dest!: qf.select_keeps dest: qf.stmt [of "put_account _"])
  show "queue_messages (snd (UpsertAccounts bc seeds s)) = queue_messages s"
    unfolding UpsertAccounts_def by (rule upsert_loop_inv [where I = "\<lambda>t. queue_messages t = queue_messages s", OF refl]) (rule one)
  show "queue_messages (snd (DeleteAccount email s)) = queue_messages s"
    using qf.sql_keeps [of s _ "del_account _"] by (simp add: DeleteAccount_def Let_def stmts)
  show "queue_messages (snd (UpdateAccount bc email allowed pw s)) = queue_messages s"
    by (auto simp: UpdateAccount_def GetAccount_def Let_def stmts split: prod.splits sum.splits option.splits
        dest!: qf.select_keeps dest: qf.stmt [of "edit_account _ _"])
qed

context row_policy
begin

lemma RequeueDead_policy:
  assumes "list_all P (queue_messages s)"
  shows "list_all P (queue_messages (snd (RequeueDead mid s)))"
proof -
  have upd: "list_all P (queue_messages s1)"
    if "sql (update_queue Q g) s = (x, s1)" "\<And>r. q_sender (g r) = q_sender r" "\<And>r. q_to (g r) = q_to r" for Q g x s1
  proof -
    have "P (g r)" if "P r" for r using that \<open>\<And>r. q_sender (g r) = q_sender r\<close> \<open>\<And>r. q_to (g r) = q_to r\<close> by (rule same_envelope)
    then show ?thesis using that(1) assms by (auto simp: update_queue_def list_all_iff elim!: sql_cases)
  qed
  show ?thesis by (auto simp: RequeueDead_def split: prod.split sum.split dest!: upd)
qed

end

sublocale row_policy \<subseteq> up: api_upkeep "\<lambda>s. list_all P (queue_messages s)"
  by unfold_locales
    (simp_all add: same_core_def account_ops_queue RequeueDead_policy qf.upsert_keys qf.delete_key qf.add qf.get)

text \<open>What any request does to a queue of sendable rows, when the accounts it finds are within \<open>A\<close>.\<close>

lemma handleSend_sendable:
  assumes "set (accounts (a_db s)) \<subseteq> A" and "list_all (sendable A) (queue_messages (a_db s))"
  shows "list_all (sendable A) (queue_messages (a_db (snd (handleSend srv r s))))"
proof -
  obtain sd where sd: "composed_outcome srv sd s (handleSend srv r s)"
      "Code (fst (handleSend srv r s)) = 201 \<longrightarrow> (\<exists>u\<in>set (accounts (a_db s)). AllowsFrom u sd)"
    using handleSend_outcome_core by blast
  have "sendable A row" if "composed_row srv sd row" "\<exists>u\<in>set (accounts (a_db s)). AllowsFrom u sd" for row
    using that assms(1) by (auto simp: composed_row_def sendable_def list_all_iff)
  then show ?thesis using sd assms(2) by (auto simp: composed_outcome_def split: if_splits)
qed

lemma ServeHTTP_sendable:
  assumes "set (accounts (a_db s)) \<subseteq> A" and "list_all (sendable A) (queue_messages (a_db s))"
  shows "list_all (sendable A) (queue_messages (a_db (snd (ServeHTTP srv r s))))"
  using assms by (intro sp.up.ServeHTTP_upkeep handleSend_sendable)

section \<open>The steps of the system\<close>

text \<open>
  The state is a world of connections, the number of questions the deliverer has asked and the messages
  that mail exchangers have accepted. A step is a step of the connections, a batch of the deliverer, a
  request to the administrative API, with its token or without, or any other change of the store that
  only narrows rows. \<open>A\<close> bounds the accounts that the administrator ever creates.
\<close>

type_synonym system = "world \<times> nat \<times> sent_mail list"

definition as_dstate :: "system \<Rightarrow> dstate" where
  "as_dstate x = (case x of (w, n, lg) \<Rightarrow> \<lparr>d_db = w_db w, d_counts = w_counts w, d_ev = n, mx_log = lg\<rparr>)"

definition after_batch :: "system \<Rightarrow> dstate \<Rightarrow> system" where
  "after_batch x s = (case x of (w, n, lg) \<Rightarrow> (w\<lparr>w_db := d_db s, w_counts := d_counts s\<rparr>, d_ev s, mx_log s))"

definition as_api :: "world \<Rightarrow> api_state" where
  "as_api w = \<lparr>a_db = w_db w, a_counts = w_counts w, a_ticks = w_ticks w\<rparr>"

definition after_api :: "world \<Rightarrow> api_state \<Rightarrow> world" where
  "after_api w s = w\<lparr>w_db := a_db s, w_counts := a_counts s, w_ticks := a_ticks s\<rparr>"

inductive system_step :: "account set \<Rightarrow> server \<Rightarrow> relay \<Rightarrow> api_server \<Rightarrow> system \<Rightarrow> system \<Rightarrow> bool" for A srv d api where
  sys_world: "world_step A srv w w' \<Longrightarrow> system_step A srv d api (w, n, lg) (w', n, lg)"
| sys_batch: "(\<And>ms. set (sched ms) \<subseteq> set ms) \<Longrightarrow> system_step A srv d api x (after_batch x (processBatch d sched (as_dstate x)))"
| sys_api: "ServeHTTP api r (as_api w) = (resp, s) \<Longrightarrow> set (accounts (a_db s)) \<subseteq> A \<Longrightarrow>
     system_step A srv d api (w, n, lg) (after_api w s, n, lg)"

definition mail_ok :: "account set \<Rightarrow> sent_mail \<Rightarrow> bool" where
  "mail_ok A e \<longleftrightarrow> (\<exists>u\<in>A. AllowsFrom u (sm_from e)) \<and> list_all (\<lambda>a. Contains a ''@'') (sm_from e # sm_rcpts e)"

definition system_inv :: "account set \<Rightarrow> server \<Rightarrow> system \<Rightarrow> bool" where
  "system_inv A srv x \<longleftrightarrow> (case x of (w, n, lg) \<Rightarrow> world_ok A srv (sendable A) w \<and> list_all (mail_ok A) lg)"

definition system_start :: "account set \<Rightarrow> server \<Rightarrow> system \<Rightarrow> bool" where
  "system_start A srv x \<longleftrightarrow> (case x of (w, n, lg) \<Rightarrow> conns w = [] \<and> rows_ok A (sendable A) (w_db w) \<and> lg = [])"

lemma deliver_log:
  "\<exists>new. mx_log (deliver d m s) = mx_log s @ new \<and> (\<forall>e\<in>set new. sm_from e = From m \<and> set (sm_rcpts e) \<subseteq> set (To m))"
proof -
  obtain x s2 where b: "deliver_body d m s = (x, s2)" by (cases "deliver_body d m s")
  then obtain body where body: "x = Inr body" using deliver_body_facts(1) by blast
  define p where "p = deliver_loop d body (start_progress m s2)"
  have "mx_log (deliver d m s) = mx_log (pst p)" by (simp add: deliver_eq [OF b [unfolded body] p_def] split: option.split)
  moreover have "conserves m body (mx_log s2) p" unfolding p_def by (intro conserves_loop conserves_start) simp
  ultimately obtain new where "mx_log (deliver d m s) = mx_log s2 @ new" "\<forall>e\<in>set new. sm_from e = From m" "accepted new \<subseteq> set (To m)"
    unfolding conserves_def by (elim conjE exE) simp
  then show ?thesis using deliver_body_facts(2) [OF b] by (intro exI [of _ new]) (auto simp: accepted_def)
qed

text \<open>A message that may be sent.\<close>

definition message_ok :: "account set \<Rightarrow> message \<Rightarrow> bool" where
  "message_ok A m \<longleftrightarrow> (\<exists>u\<in>A. AllowsFrom u (From m)) \<and> list_all (\<lambda>a. Contains a ''@'') (From m # To m)"

interpretation mm: mail_policy "sendable A" "message_ok A" for A
  by unfold_locales (auto simp: sendable_def message_ok_def shrinks_def scanMessage_def list_all_iff subset_iff)

lemma deliver_mail_ok:
  assumes "message_ok A m" and "list_all (mail_ok A) (mx_log s)"
  shows "list_all (mail_ok A) (mx_log (deliver d m s))"
proof -
  obtain new where new: "mx_log (deliver d m s) = mx_log s @ new"
      "\<forall>e\<in>set new. sm_from e = From m \<and> set (sm_rcpts e) \<subseteq> set (To m)"
    using deliver_log by blast
  have "mail_ok A e" if "e \<in> set new" for e
    using new(2) that assms(1) by (auto simp: mail_ok_def message_ok_def list_all_iff)
  then show ?thesis using new(1) assms(2) by (auto simp: list_all_iff)
qed

lemma batch_mail_ok:
  "list_all (message_ok A) ms \<Longrightarrow> list_all (mail_ok A) (mx_log s) \<Longrightarrow> list_all (mail_ok A) (mx_log (fold (deliver d) ms s))"
  by (induction ms arbitrary: s) (simp_all, blast intro: deliver_mail_ok)

lemma processBatch_mail_ok:
  assumes "\<And>ms. set (sched ms) \<subseteq> set ms" and "rows_ok A (sendable A) (d_db s)" and "list_all (mail_ok A) (mx_log s)"
  shows "list_all (mail_ok A) (mx_log (processBatch d sched s))"
proof -
  obtain r db1 where nd: "NextDue (Now d (d_ev s)) (batch_size d) (d_db s) = (r, db1)"
    by (cases "NextDue (Now d (d_ev s)) (batch_size d) (d_db s)")
  have "list_all (message_ok A) (sched ms)" if "r = Inr ms" for ms
    using mm.handed_out assms(1,2) nd that by blast
  then show ?thesis using nd assms(3) batch_mail_ok [of A]
    by (auto simp: processBatch_def ask_def split: sum.split)
qed

lemma system_step_inv: "system_step A srv d api x y \<Longrightarrow> system_inv A srv x \<Longrightarrow> system_inv A srv y"
proof (induction rule: system_step.induct)
  case (sys_world w w' n lg)
  then show ?case using sp.step_ok by (simp add: system_inv_def)
next
  case (sys_batch sched x)
  obtain w n lg where x: "x = (w, n, lg)" by (cases x)
  have rows: "rows_ok A (sendable A) (d_db (as_dstate x))" and log: "list_all (mail_ok A) (mx_log (as_dstate x))"
    using sys_batch(2) by (simp_all add: x as_dstate_def system_inv_def world_ok_def rows_ok_def)
  show ?case
    using mm.processBatch_rows [OF sys_batch(1) rows, of d] processBatch_mail_ok [OF sys_batch(1) rows log, of d] sys_batch(2)
    by (simp add: x after_batch_def system_inv_def world_ok_def rows_ok_def)
next
  case (sys_api r w resp s n lg)
  then show ?case using ServeHTTP_sendable [of "as_api w" A api r]
    by (simp add: system_inv_def world_ok_def after_api_def as_api_def)
qed

interpretation sysinv: invariant_system "system_start A srv" "system_step A srv d api" "system_inv A srv" for A srv d api
proof unfold_locales
  fix x y
  show "system_start A srv x \<Longrightarrow> system_inv A srv x"
    by (auto simp: system_start_def system_inv_def world_ok_def rows_ok_def)
  show "system_step A srv d api x y \<Longrightarrow> system_inv A srv x \<Longrightarrow> system_inv A srv y" by (rule system_step_inv)
qed

section \<open>From the acknowledgement to the mail exchangers\<close>

lemma faults_Add: "faults s = [] \<Longrightarrow> faults (Add rc t i sd to data s) = []"
  by (simp add: Add_def InsertSendLog_def Let_def sql_no_fault conflict_clause_def put_log_def case_prod_beta split: option.split sum.split)

lemma faults_Drop: "faults s = [] \<Longrightarrow> faults (Drop rc i s) = []"
  by (simp add: Drop_def DeleteSendLog_def sql_no_fault del_log_def split: option.split)

lemma faults_Enqueue: "faults s = [] \<Longrightarrow> faults (snd (EnqueueWithID t i sd to data s)) = []"
  by (auto simp: EnqueueWithID_def sql_no_fault case_prod_beta split: sum.split)

lemma handleData_quiet:
  assumes "queue_inv (db c)" and "faults (db c) = []"
  shows "queue_inv (db (handleData srv c))" "faults (db (handleData srv c)) = []"
proof -
  have add: "queue_inv (Add rc t i sd to data (db c))" "faults (Add rc t i sd to data (db c)) = []" for rc t i sd to data
    using assms recorder_same_core(1) [of "db c" rc t i sd to data] by (simp_all add: faults_Add same_core_queue_inv)
  have enq: "queue_inv s" "faults s = []" if "EnqueueWithID t' i' sd' to' data' (Add rc t i sd to data (db c)) = (x, s)"
    for rc t i sd to data x s t' i' sd' to' data'
    using EnqueueWithID_inv [OF add(1)] faults_Enqueue [OF add(2)] that by (metis snd_conv)+
  have drop: "queue_inv (Drop rc i s) = queue_inv s" for rc i s using recorder_same_core(6) by (rule same_core_queue_inv)
  show "queue_inv (db (handleData srv c))" "faults (db (handleData srv c)) = []"
    using assms enq by (auto simp: handleData_def Let_def next_tick_def reset_def add_counter_now_def drop faults_Drop faults_AddCounter
        AddCounter_queue_inv split: prod.split sum.split)
qed

lemma stored_row:
  assumes "queue_inv (db c)" and "faults (db c) = []" and "data_stored srv c (handleData srv c) data"
  shows "row_of (data_id srv c) (db (handleData srv c)) =
    Some (new_row (now_ms (clock srv (ticks c))) (data_id srv c) (sender c) (rcpts c) (data_raw srv c data))"
  using row_of_mem [OF handleData_quiet(1) [OF assms(1,2)]] assms(3) by (simp add: data_stored_def new_row_def)

lemma no_ack_no_store: "data_refused c c' \<Longrightarrow> nc_out c' \<noteq> nc_out c @ [x, ''250 '' @ y]"
  by (auto simp: data_refused_def HasPrefix_def)

end
