(* ===== verification/Smtpd_Server.thy ===== *)
theory Smtpd_Server
  imports Smtpd_Props
begin

text \<open>
  The life of the SMTP server of \<open>server.go\<close>: listening, the accept loop, its connections, closing the
  listener and shutting down, as a step relation on the fields of \<open>Server\<close> and the program points of the
  goroutines that work on them.
\<close>

section \<open>State\<close>

datatype serve_pc = NotServing | Accepting | Draining | Returned "unit res"

datatype shutdown_pc = NotShut | WaitingConns | ShutDone | ShutTimeout

text \<open>
  \<open>lc_ln\<close> says that the field \<open>ln\<close> is set, \<open>lc_open\<close> that the listener is open, \<open>lc_new\<close> that \<open>Accept\<close> has returned
  a connection which the wait group does not count yet, \<open>lc_watch\<close> that the goroutine which closes the
  listener when the context ends is still there; \<open>connCounter\<close> is the number of connections started.
\<close>

record lifecycle =
  lc_ln :: bool
  lc_open :: bool
  closed :: bool
  wg :: nat
  lc_new :: bool
  lc_ctx :: bool
  lc_watch :: bool
  connCounter :: nat
  lc_serve :: serve_pc
  lc_shut :: shutdown_pc
  lc_world :: world

definition new_lifecycle :: "world \<Rightarrow> lifecycle" where
  "new_lifecycle w = \<lparr>lc_ln = False, lc_open = False, closed = False, wg = 0, lc_new = False, lc_ctx = False, lc_watch = False,
     connCounter = 0, lc_serve = NotServing, lc_shut = NotShut, lc_world = w\<rparr>"

section \<open>Operations\<close>

definition closeListener :: "lifecycle \<Rightarrow> lifecycle" where
  "closeListener l = (if \<not> closed l \<and> lc_ln l then l\<lparr>closed := True, lc_open := False\<rparr> else l)"

definition isClosed :: "lifecycle \<Rightarrow> bool" where
  "isClosed l = closed l"

text \<open>The start of \<open>ServeWithListener\<close>, before its loop.\<close>

definition ServeWithListener :: "lifecycle \<Rightarrow> lifecycle" where
  "ServeWithListener l = l\<lparr>lc_ln := True, lc_open := True, lc_watch := True, lc_serve := Accepting\<rparr>"

text \<open>The mode that \<open>Serve\<close> logs.\<close>

definition serve_mode :: "server \<Rightarrow> string" where
  "serve_mode srv = (if has_tls srv then if tls_mode srv = ''implicit'' then ''implicit'' else ''starttls'' else ''no TLS'')"

text \<open>\<open>Serve\<close>, given what \<open>net.Listen\<close> answers.\<close>

definition Serve :: "server \<Rightarrow> unit res \<Rightarrow> lifecycle \<Rightarrow> lifecycle" where
  "Serve srv listen l =
     (case listen of
        Inl err \<Rightarrow> l\<lparr>lc_serve := Returned (Inl (Wrapf (''listening on '' @ Listen (cfg srv) @ '': '') err))\<rparr>
      | Inr _ \<Rightarrow> ServeWithListener l)"

datatype accept_result = AcceptConn | AcceptErr bool

text \<open>
  One turn of the accept loop. An error with the server closed ends the loop; another one is tried again,
  at once after a timeout and after 100 milliseconds otherwise.
\<close>

definition accept_turn :: "accept_result \<Rightarrow> lifecycle \<Rightarrow> lifecycle" where
  "accept_turn r l =
     (case r of
        AcceptConn \<Rightarrow> l\<lparr>lc_new := True\<rparr>
      | AcceptErr timeout \<Rightarrow> if isClosed l then l\<lparr>lc_serve := Draining\<rparr> else l)"

text \<open>The goroutine of a new connection: it is counted, and its handshake and greeting happen; a failed handshake ends it.\<close>

definition start_conn :: "server \<Rightarrow> session \<Rightarrow> lifecycle \<Rightarrow> lifecycle" where
  "start_conn srv c0 l =
     (let l1 = l\<lparr>lc_new := False, wg := wg l + 1, connCounter := connCounter l + 1\<rparr>;
          w = lc_world l
      in case implicit_tls srv (attach w c0) of
          (False, _) \<Rightarrow> l1\<lparr>wg := wg l1 - 1\<rparr>
        | (True, c) \<Rightarrow> l1\<lparr>lc_world := w\<lparr>conns := conns w @ [greet srv c]\<rparr>\<rparr>)"

text \<open>One turn of the loop of connection \<open>i\<close>; when it ends, the connection is closed and the wait group done.\<close>

definition conn_turn :: "server \<Rightarrow> nat \<Rightarrow> lifecycle \<Rightarrow> lifecycle" where
  "conn_turn srv i l =
     (let w = lc_world l in
      case serve_step srv (attach w (conns w ! i)) of
        (False, c) \<Rightarrow> l\<lparr>lc_world := detach w i c\<rparr>
      | (True, c) \<Rightarrow> l\<lparr>lc_world := (detach w i c)\<lparr>conns := take i (conns w) @ drop (Suc i) (conns w)\<rparr>, wg := wg l - 1\<rparr>)"

text \<open>\<open>Shutdown\<close> up to its \<open>select\<close>, and the two ways the \<open>select\<close> ends.\<close>

definition Shutdown :: "lifecycle \<Rightarrow> lifecycle" where
  "Shutdown l = (closeListener l)\<lparr>lc_shut := WaitingConns\<rparr>"

definition shutdown_select :: "bool \<Rightarrow> lifecycle \<Rightarrow> lifecycle" where
  "shutdown_select timeout l = l\<lparr>lc_shut := (if timeout then ShutTimeout else ShutDone)\<rparr>"

section \<open>Steps\<close>

text \<open>
  What the goroutines of the server do by themselves. A closed listener returns no connection.
\<close>

inductive conn_step :: "server \<Rightarrow> lifecycle \<Rightarrow> lifecycle \<Rightarrow> bool" for srv where
  cs_accept: "lc_serve l = Accepting \<Longrightarrow> \<not> lc_new l \<Longrightarrow> (r = AcceptConn \<Longrightarrow> lc_open l) \<Longrightarrow> conn_step srv l (accept_turn r l)"
| cs_start: "lc_new l \<Longrightarrow> conn_step srv l (start_conn srv (new_session addr inp hs s m n) l)"
| cs_turn: "i < length (conns (lc_world l)) \<Longrightarrow> conn_step srv l (conn_turn srv i l)"
| cs_drained: "lc_serve l = Draining \<Longrightarrow> wg l = 0 \<Longrightarrow> conn_step srv l (l\<lparr>lc_serve := Returned (Inr ())\<rparr>)"

text \<open>With them, what the main program does with the server, and what else happens to the store.\<close>

inductive server_step :: "account set \<Rightarrow> server \<Rightarrow> lifecycle \<Rightarrow> lifecycle \<Rightarrow> bool" for A srv where
  sv_conn: "conn_step srv l l' \<Longrightarrow> server_step A srv l l'"
| sv_serve: "lc_serve l = NotServing \<Longrightarrow> server_step A srv l (Serve srv r l)"
| sv_cancel: "server_step A srv l (l\<lparr>lc_ctx := True\<rparr>)"
| sv_watch: "lc_ctx l \<Longrightarrow> lc_watch l \<Longrightarrow> server_step A srv l ((closeListener l)\<lparr>lc_watch := False\<rparr>)"
| sv_shutdown: "lc_shut l = NotShut \<Longrightarrow> server_step A srv l (Shutdown l)"
| sv_shut_done: "lc_shut l = WaitingConns \<Longrightarrow> wg l = 0 \<Longrightarrow> server_step A srv l (shutdown_select False l)"
| sv_shut_timeout: "lc_shut l = WaitingConns \<Longrightarrow> server_step A srv l (shutdown_select True l)"
| sv_store: "narrows A (w_db (lc_world l)) s \<Longrightarrow> server_step A srv l (l\<lparr>lc_world := (lc_world l)\<lparr>w_db := s\<rparr>\<rparr>)"

lemmas lifecycle_ops = closeListener_def isClosed_def ServeWithListener_def Serve_def accept_turn_def Shutdown_def shutdown_select_def

section \<open>The wait group counts the connections\<close>

definition lifecycle_inv :: "lifecycle \<Rightarrow> bool" where
  "lifecycle_inv l \<longleftrightarrow> wg l = length (conns (lc_world l)) \<and>
     (lc_open l \<longrightarrow> lc_ln l \<and> \<not> closed l) \<and> (closed l \<longrightarrow> lc_ln l) \<and> (lc_new l \<longrightarrow> lc_serve l = Accepting) \<and>
     (case lc_serve l of
        NotServing \<Rightarrow> wg l = 0 \<and> \<not> lc_ln l
      | Accepting \<Rightarrow> lc_ln l
      | Draining \<Rightarrow> closed l
      | Returned r \<Rightarrow> wg l = 0 \<and> (case r of Inl e \<Rightarrow> \<not> lc_ln l | Inr _ \<Rightarrow> closed l))"

lemma start_conn_cases [consumes 1, case_names refused started]:
  assumes "l' = start_conn srv c0 l"
  obtains (refused) "l' = l\<lparr>lc_new := False, connCounter := connCounter l + 1\<rparr>"
  | (started) c where "implicit_tls srv (attach (lc_world l) c0) = (True, c)"
      "l' = l\<lparr>lc_new := False, wg := wg l + 1, connCounter := connCounter l + 1,
         lc_world := (lc_world l)\<lparr>conns := conns (lc_world l) @ [greet srv c]\<rparr>\<rparr>"
  using assms by (auto simp: start_conn_def Let_def split: prod.splits bool.splits)

lemma conn_turn_cases [consumes 1, case_names goes_on ends]:
  assumes "l' = conn_turn srv i l"
  obtains (goes_on) c where "serve_step srv (attach (lc_world l) (conns (lc_world l) ! i)) = (False, c)"
      "l' = l\<lparr>lc_world := detach (lc_world l) i c\<rparr>"
  | (ends) c where "serve_step srv (attach (lc_world l) (conns (lc_world l) ! i)) = (True, c)"
      "l' = l\<lparr>lc_world := (detach (lc_world l) i c)\<lparr>conns := take i (conns (lc_world l)) @ drop (Suc i) (conns (lc_world l))\<rparr>, wg := wg l - 1\<rparr>"
  using assms by (auto simp: conn_turn_def Let_def split: prod.splits bool.splits)

lemma conn_step_inv: "conn_step srv l l' \<Longrightarrow> lifecycle_inv l \<Longrightarrow> lifecycle_inv l'"
proof (induction rule: conn_step.induct)
  case (cs_accept l r)
  then show ?case by (auto simp: lifecycle_inv_def lifecycle_ops split: accept_result.split)
next
  case (cs_start l addr inp hs s m n)
  from refl [of "start_conn srv (new_session addr inp hs s m n) l"] show ?case
    by (cases rule: start_conn_cases) (use cs_start in \<open>auto simp: lifecycle_inv_def\<close>)
next
  case (cs_turn i l)
  have "wg l = length (conns (lc_world l))" using cs_turn(2) by (simp add: lifecycle_inv_def)
  then have pos: "wg l > 0" using cs_turn(1) by linarith
  from refl [of "conn_turn srv i l"] show ?case
    by (cases rule: conn_turn_cases)
      (use cs_turn pos in \<open>auto simp: lifecycle_inv_def detach_def split: serve_pc.splits sum.splits\<close>)
next
  case (cs_drained l)
  then show ?case by (auto simp: lifecycle_inv_def)
qed

lemma server_step_inv: "server_step A srv l l' \<Longrightarrow> lifecycle_inv l \<Longrightarrow> lifecycle_inv l'"
proof (induction rule: server_step.induct)
  case (sv_conn l l')
  then show ?case by (rule conn_step_inv)
qed (auto simp: lifecycle_inv_def lifecycle_ops split: sum.splits serve_pc.splits)

definition server_start :: "account set \<Rightarrow> server \<Rightarrow> lifecycle \<Rightarrow> bool" where
  "server_start A srv l \<longleftrightarrow> (\<exists>w. fresh_world A srv w \<and> l = new_lifecycle w)"

interpretation lcs: invariant_system "server_start A srv" "server_step A srv" lifecycle_inv for A srv
proof unfold_locales
  fix l l'
  show "server_start A srv l \<Longrightarrow> lifecycle_inv l" by (auto simp: server_start_def fresh_world_def lifecycle_inv_def new_lifecycle_def)
  show "server_step A srv l l' \<Longrightarrow> lifecycle_inv l \<Longrightarrow> lifecycle_inv l'" by (rule server_step_inv)
qed

section \<open>The server refines the world of connections\<close>

text \<open>Seen from the connections, each step of the server is a step of their world or none.\<close>

lemma conn_step_world: "conn_step srv l l' \<Longrightarrow> world_step A srv (lc_world l) (lc_world l') \<or> lc_world l' = lc_world l"
proof (induction rule: conn_step.induct)
  case (cs_accept l r)
  then show ?case by (simp add: lifecycle_ops split: accept_result.split)
next
  case (cs_start l addr inp hs s m n)
  from refl [of "start_conn srv (new_session addr inp hs s m n) l"] show ?case
  proof (cases rule: start_conn_cases)
    case refused
    then show ?thesis by simp
  next
    case (started c)
    then show ?thesis using ws_accept [OF started(1), of A] by simp
  qed
next
  case (cs_turn i l)
  from refl [of "conn_turn srv i l"] show ?case
  proof (cases rule: conn_turn_cases)
    case (goes_on c)
    then show ?thesis using ws_command [OF cs_turn goes_on(1), of A] by simp
  next
    case (ends c)
    then show ?thesis using ws_close [OF cs_turn ends(1), of A] by simp
  qed
qed simp

lemma server_step_world: "server_step A srv l l' \<Longrightarrow> world_step A srv (lc_world l) (lc_world l') \<or> lc_world l' = lc_world l"
proof (induction rule: server_step.induct)
  case (sv_conn l l')
  then show ?case by (rule conn_step_world)
next
  case (sv_store l s)
  then show ?case using ws_other [OF sv_store, of srv] by simp
qed (simp_all add: lifecycle_ops split: sum.split)

lemma server_run_world: "(server_step A srv)\<^sup>*\<^sup>* l l' \<Longrightarrow> (world_step A srv)\<^sup>*\<^sup>* (lc_world l) (lc_world l')"
proof (induction rule: rtranclp_induct)
  case (step l1 l2)
  then show ?case using server_step_world [OF step(2)] by (auto intro: rtranclp.rtrancl_into_rtrancl)
qed simp

text \<open>
  C17. The server refines the world of its connections: however it is started, cancelled and shut down, the
  connections and the store go through steps of that world only, so that everything shown of the world
  holds of the running server; and the wait group is at any time the number of connections being served.
\<close>

theorem server_refines_world:
  assumes "server_start A srv l" and "(server_step A srv)\<^sup>*\<^sup>* l l'"
  shows "fresh_world A srv (lc_world l) \<and> (world_step A srv)\<^sup>*\<^sup>* (lc_world l) (lc_world l') \<and> wg l' = length (conns (lc_world l'))"
  using assms server_run_world [OF assms(2)] lcs.reachable_inv [OF assms]
  by (auto simp: server_start_def new_lifecycle_def lifecycle_inv_def)

section \<open>After the listener is closed\<close>

definition fresh_after :: "lifecycle \<Rightarrow> nat" where
  "fresh_after l = connCounter l + (if lc_new l then 1 else 0)"

lemma closed_step:
  assumes "server_step A srv l l'" and "lifecycle_inv l" and "closed l"
  shows "closed l' \<and> fresh_after l' = fresh_after l \<and> connCounter l \<le> connCounter l'"
proof -
  have nopen: "\<not> lc_open l" using assms(2,3) by (auto simp: lifecycle_inv_def)
  have conn: "closed l' \<and> fresh_after l' = fresh_after l \<and> connCounter l \<le> connCounter l'" if "conn_step srv l l'"
    using that assms(3) nopen
  proof (induction rule: conn_step.induct)
    case (cs_accept l r)
    then show ?case by (auto simp: lifecycle_ops fresh_after_def split: accept_result.splits)
  next
    case (cs_start l addr inp hs s m n)
    from refl [of "start_conn srv (new_session addr inp hs s m n) l"] show ?case
      by (cases rule: start_conn_cases) (use cs_start in \<open>simp_all add: fresh_after_def\<close>)
  next
    case (cs_turn i l)
    from refl [of "conn_turn srv i l"] show ?case
      by (cases rule: conn_turn_cases) (use cs_turn in \<open>simp_all add: fresh_after_def\<close>)
  qed (simp_all add: fresh_after_def)
  show ?thesis using assms(1)
  proof (cases rule: server_step.cases)
    case sv_conn
    then show ?thesis using conn by simp
  qed (use assms(2,3) in \<open>auto simp: lifecycle_ops fresh_after_def lifecycle_inv_def\<close>)
qed

lemma closed_run:
  assumes "(server_step A srv)\<^sup>*\<^sup>* l l'" and "lifecycle_inv l" and "closed l"
  shows "closed l' \<and> fresh_after l' = fresh_after l \<and> connCounter l \<le> connCounter l'"
  using assms(1)
proof (induction rule: rtranclp_induct)
  case (step l1 l2)
  have "lifecycle_inv l1" using lcs.run_inv [OF step(1) assms(2)] .
  with step closed_step [OF step(2)] show ?case by simp
qed (use assms(3) in simp)

text \<open>
  C16. Closing ends admission. Once \<open>closeListener\<close> has closed the listener, by a cancelled context or by
  \<open>Shutdown\<close>, the server stays closed, and whatever happens at most one more connection starts: the one that
  \<open>Accept\<close> had returned before. Without such a one none starts.
\<close>

theorem closed_admits_no_more:
  assumes "server_start A srv l0" and "(server_step A srv)\<^sup>*\<^sup>* l0 l" and "isClosed l" and "(server_step A srv)\<^sup>*\<^sup>* l l'"
  shows "isClosed l' \<and> connCounter l' \<le> connCounter l + 1 \<and> (\<not> lc_new l \<longrightarrow> connCounter l' = connCounter l)"
proof -
  have "lifecycle_inv l" using lcs.reachable_inv [OF assms(1,2)] .
  from closed_run [OF assms(4) this] show ?thesis using assms(3) by (auto simp: fresh_after_def isClosed_def split: if_splits)
qed

section \<open>The accept loop returns\<close>

text \<open>\<open>returns srv l\<close>: whatever the goroutines of the server do, the accept loop will have returned after finitely many steps.\<close>

inductive returns :: "server \<Rightarrow> lifecycle \<Rightarrow> bool" for srv where
  ret_now: "lc_serve l = Returned r \<Longrightarrow> returns srv l"
| ret_step: "conn_step srv l l1 \<Longrightarrow> (\<And>l'. conn_step srv l l' \<Longrightarrow> returns srv l') \<Longrightarrow> returns srv l"

definition work_left :: "lifecycle \<Rightarrow> nat" where
  "work_left l = sum_list (map (\<lambda>c. sess_size c + 1) (conns (lc_world l)))"

fun serve_rank :: "serve_pc \<Rightarrow> nat" where
  "serve_rank Accepting = 2"
| "serve_rank Draining = 1"
| "serve_rank _ = 0"

definition drain_order :: "(lifecycle \<times> lifecycle) set" where
  "drain_order = inv_image (less_than <*lex*> less_than <*lex*> less_than)
     (\<lambda>l. (if lc_new l then 1 else 0 :: nat, serve_rank (lc_serve l), work_left l))"

lemma wf_drain_order: "wf drain_order"
  by (simp add: drain_order_def wf_lex_prod)

lemma sum_list_drop_one: "i < length xs \<Longrightarrow> sum_list (map f (take i xs @ drop (Suc i) xs)) + f (xs ! i) = (sum_list (map f xs) :: nat)"
proof (induction xs arbitrary: i)
  case (Cons x xs)
  then show ?case by (cases i) (auto simp: add.assoc)
qed simp

lemma sum_list_replace: "i < length xs \<Longrightarrow> sum_list (map f (xs[i := y])) + f (xs ! i) = (sum_list (map f xs) + f y :: nat)"
proof (induction xs arbitrary: i)
  case (Cons x xs)
  then show ?case by (cases i) auto
qed simp

lemma turn_less:
  assumes "i < length (conns (lc_world l))"
  shows "work_left (conn_turn srv i l) < work_left l"
proof -
  let ?cs = "conns (lc_world l)" and ?f = "\<lambda>c. sess_size c + 1"
  from refl [of "conn_turn srv i l"] show ?thesis
  proof (cases rule: conn_turn_cases)
    case (goes_on c)
    have "sess_size c < sess_size (?cs ! i)" using serve_step_less [OF goes_on(1)] by (simp add: attach_def sess_size_def)
    then show ?thesis using goes_on(2) sum_list_replace [OF assms, of ?f c] by (simp add: work_left_def detach_def)
  next
    case (ends c)
    then show ?thesis using sum_list_drop_one [OF assms, of ?f] by (simp add: work_left_def)
  qed
qed

lemma turn_frame: "lc_new (conn_turn srv i l) = lc_new l" "lc_serve (conn_turn srv i l) = lc_serve l"
  by (simp_all add: conn_turn_def Let_def split: prod.split bool.split)

lemma drain_decreases:
  assumes "conn_step srv l l'" and "lifecycle_inv l" and "closed l"
  shows "(l', l) \<in> drain_order"
  using assms
proof (induction rule: conn_step.induct)
  case (cs_accept l r)
  then have "r \<noteq> AcceptConn" by (auto simp: lifecycle_inv_def)
  then show ?case using cs_accept by (cases r) (simp_all add: lifecycle_ops drain_order_def)
next
  case (cs_start l addr inp hs s m n)
  then show ?case by (simp add: drain_order_def start_conn_def Let_def split: prod.split bool.split)
next
  case (cs_turn i l)
  then show ?case using turn_less [OF cs_turn(1), of srv] by (simp add: drain_order_def turn_frame)
next
  case (cs_drained l)
  then show ?case by (simp add: drain_order_def)
qed

lemma closed_progress:
  assumes "lifecycle_inv l" and "closed l" and "\<nexists>r. lc_serve l = Returned r"
  shows "\<exists>l'. conn_step srv l l'"
proof (cases "lc_serve l")
  case NotServing
  then show ?thesis using assms(1,2) by (auto simp: lifecycle_inv_def)
next
  case Accepting
  show ?thesis
  proof (cases "lc_new l")
    case True
    then show ?thesis using cs_start by blast
  next
    case False
    then show ?thesis using Accepting cs_accept [of l "AcceptErr False" srv] by blast
  qed
next
  case Draining
  show ?thesis
  proof (cases "wg l = 0")
    case True
    then show ?thesis using Draining cs_drained by blast
  next
    case False
    then have "0 < length (conns (lc_world l))" using assms(1) by (simp add: lifecycle_inv_def)
    then show ?thesis using cs_turn by blast
  qed
qed (use assms(3) in simp)

lemma closed_returns:
  assumes "lifecycle_inv l" and "closed l"
  shows "returns srv l"
  using wf_drain_order assms
proof (induction l rule: wf_induct_rule)
  case (less l)
  show ?case
  proof (cases "\<exists>r. lc_serve l = Returned r")
    case True
    then show ?thesis using ret_now by blast
  next
    case False
    obtain l1 where "conn_step srv l l1" using closed_progress less.prems False by blast
    moreover have "returns srv l'" if "conn_step srv l l'" for l'
      using less.IH drain_decreases [OF that less.prems] conn_step_inv [OF that less.prems(1)] closed_step [OF sv_conn [OF that] less.prems]
      by blast
    ultimately show ?thesis by (rule ret_step)
  qed
qed


section \<open>A server that is shut down as a connection comes in\<close>

definition demo_accepted :: lifecycle where
  "demo_accepted = accept_turn AcceptConn (Serve demo_server (Inr ()) (new_lifecycle demo_world))"

definition demo_shut :: lifecycle where
  "demo_shut = shutdown_select False (Shutdown demo_accepted)"

definition demo_late :: lifecycle where
  "demo_late = start_conn demo_server (new_session (TCPAddr ''10.0.0.1'' False) [] [] demo_db no_counts 0) demo_shut"

abbreviation demo_server_step :: "lifecycle \<Rightarrow> lifecycle \<Rightarrow> bool" where
  "demo_server_step \<equiv> server_step {demo_account} demo_server"

lemmas demo_lifecycle = demo_accepted_def demo_shut_def new_lifecycle_def lifecycle_ops

lemma demo_server_start: "server_start {demo_account} demo_server (new_lifecycle demo_world)"
  using demo_fresh by (auto simp: server_start_def)

lemma demo_server_run: "demo_server_step\<^sup>*\<^sup>* (new_lifecycle demo_world) demo_shut"
proof -
  have s1: "demo_server_step (new_lifecycle demo_world) (Serve demo_server (Inr ()) (new_lifecycle demo_world))"
    by (rule sv_serve) (simp add: new_lifecycle_def)
  have s2: "demo_server_step (Serve demo_server (Inr ()) (new_lifecycle demo_world)) demo_accepted"
    unfolding demo_accepted_def by (intro sv_conn cs_accept) (simp_all add: demo_lifecycle)
  have s3: "demo_server_step demo_accepted (Shutdown demo_accepted)" by (rule sv_shutdown) (simp add: demo_lifecycle)
  have s4: "demo_server_step (Shutdown demo_accepted) demo_shut" unfolding demo_shut_def by (rule sv_shut_done) (simp_all add: demo_lifecycle)
  show ?thesis using s1 s2 s3 s4 by (meson converse_rtranclp_into_rtranclp rtranclp.rtrancl_refl)
qed

lemma demo_late_step: "demo_server_step demo_shut demo_late" "wg demo_late = 1"
proof -
  show "demo_server_step demo_shut demo_late" unfolding demo_late_def by (intro sv_conn cs_start) (simp add: demo_lifecycle)
  have "wg demo_shut = 0" by (simp add: demo_lifecycle)
  moreover have "implicit_tls demo_server c = (True, c)" for c by (simp add: implicit_tls_def demo_server_def)
  ultimately show "wg demo_late = 1" by (simp add: demo_late_def start_conn_def Let_def)
qed

text \<open>
  A connection that \<open>Accept\<close> has returned and that is not counted yet is not waited for: \<open>Shutdown\<close> can find the
  wait group empty and return, and the connection starts afterwards.
\<close>

lemma shutdown_race: "demo_server_step\<^sup>*\<^sup>* (new_lifecycle demo_world) demo_shut \<and> lc_shut demo_shut = ShutDone \<and>
    demo_server_step demo_shut demo_late \<and> wg demo_late = 1"
  using demo_server_run demo_late_step by (simp add: demo_shut_def shutdown_select_def)

lemma server_refines_world_witness: "(world_step {demo_account} demo_server)\<^sup>*\<^sup>* demo_world (lc_world demo_late) \<and> length (conns (lc_world demo_late)) = 1"
proof -
  have "demo_server_step\<^sup>*\<^sup>* (new_lifecycle demo_world) demo_late"
    using demo_server_run demo_late_step(1) by (rule rtranclp.rtrancl_into_rtrancl)
  then show ?thesis using server_refines_world [OF demo_server_start, of demo_late] demo_late_step(2) by (simp add: new_lifecycle_def)
qed

lemma closed_admits_no_more_witness: "isClosed demo_late \<and> connCounter demo_late \<le> 1"
proof -
  have "isClosed demo_shut" "connCounter demo_shut = 0" by (simp_all add: demo_lifecycle)
  then show ?thesis
    using closed_admits_no_more [OF demo_server_start demo_server_run _ r_into_rtranclp [of demo_server_step, OF demo_late_step(1)]] by simp
qed


end
