(* ===== verification/Program.thy ===== *)
theory Program
  imports Startup_Laws Smtpd_Server Api_Props
begin

text \<open>
  The main program of \<open>cmd/carteiro/main.go\<close> around the start that \<open>Startup\<close> models: the command line, the
  messages of the seeding, the retention of the history, waiting for a signal or a failing server, and
  the shutdown; and how the HTTP servers of the API and the panel begin and end.
\<close>

section \<open>Command line and exit\<close>

datatype command_outcome = VersionShown string | Started process

text \<open>\<open>run\<close> up to its goroutines, with the flags; the version is printed as a line.\<close>

definition run_command :: "boot \<Rightarrow> bool \<Rightarrow> environ \<Rightarrow> string \<Rightarrow> store \<Rightarrow> command_outcome res" where
  "run_command b showVersion env configPath disk =
     (if showVersion then Inr (VersionShown (''carteiro '' @ b_version b @ [LF]))
      else case run b env configPath disk of Inl err \<Rightarrow> Inl err | Inr p \<Rightarrow> Inr (Started p))"

text \<open>\<open>main\<close>: what is printed on the standard error and the exit code.\<close>

definition main :: "unit res \<Rightarrow> string \<times> int" where
  "main r = (case r of Inl err \<Rightarrow> (''carteiro: '' @ err_text err @ [LF], 1) | Inr _ \<Rightarrow> ([], 0))"

section \<open>What the seeding reports\<close>

text \<open>The log lines of \<open>logSeed\<close>, each with its level.\<close>

definition logSeed :: "string \<Rightarrow> upsert_summary \<Rightarrow> (int \<times> string) list" where
  "logSeed what sm =
     [(0, ''seed: upserting '' @ what @ '' done'')] @
     map (\<lambda>email. (0, ''seed: '' @ email @ '' -> created in the database'')) (Created sm) @
     map (\<lambda>email. (0, ''seed: '' @ email @ '' -> updated (new password or allowed_from)'')) (Updated sm) @
     map (\<lambda>email. (-4, ''seed: '' @ email @ '' -> unchanged, left as is'')) (Unchanged sm)"

text \<open>One line for the whole and one for every entry.\<close>

lemma logSeed_length: "length (logSeed what sm) = 1 + Total sm"
  by (simp add: logSeed_def Total_def)

section \<open>The HTTP servers\<close>

definition ErrServerClosed :: go_error where
  "ErrServerClosed = Errorf ''http: Server closed''"

text \<open>\<open>Serve\<close> of the API and of the panel, given what \<open>ListenAndServe\<close> returns: a server that was shut down ends without an error.\<close>

definition http_Serve :: "unit res \<Rightarrow> unit res" where
  "http_Serve r = (case r of Inl err \<Rightarrow> if err = ErrServerClosed then Inr () else Inl err | Inr _ \<Rightarrow> Inr ())"

definition api_Serve :: "unit res \<Rightarrow> unit res" where
  "api_Serve r = http_Serve r"

definition panel_Serve :: "unit res \<Rightarrow> unit res" where
  "panel_Serve r = http_Serve r"

text \<open>\<open>Shutdown\<close> of the two, given the outcome of the one of \<open>net/http\<close> within the timeout: a failure is only logged.\<close>

definition api_Shutdown :: "unit res \<Rightarrow> (int \<times> string) list" where
  "api_Shutdown r = (case r of Inl err \<Rightarrow> [(4, ''api shutdown'')] | Inr _ \<Rightarrow> [])"

definition panel_Shutdown :: "unit res \<Rightarrow> (int \<times> string) list" where
  "panel_Shutdown r = (case r of Inl err \<Rightarrow> [(4, ''web panel shutdown'')] | Inr _ \<Rightarrow> [])"

text \<open>What the API, the panel and the SMTP server put on the channel of the main program.\<close>

definition api_report :: "unit res \<Rightarrow> unit res option" where
  "api_report r = (case api_Serve r of Inl err \<Rightarrow> Some (Inl (Wrapf ''admin api: '' err)) | Inr _ \<Rightarrow> None)"

definition panel_report :: "unit res \<Rightarrow> unit res option" where
  "panel_report r = (case panel_Serve r of Inl err \<Rightarrow> Some (Inl (Wrapf ''web panel: '' err)) | Inr _ \<Rightarrow> None)"

definition smtp_report :: "lifecycle \<Rightarrow> unit res option" where
  "smtp_report l = (case lc_serve l of Returned r \<Rightarrow> Some r | _ \<Rightarrow> None)"

section \<open>The panel\<close>

text \<open>
  The proxy of the panel: its target, or none when the target does not parse as a URL with a scheme and a host,
  and then every request to it is answered 502. \<open>parse\<close> is \<open>url.Parse\<close>, giving the scheme and the host.
\<close>

record panel =
  pn_addr :: string
  pn_target :: "string option"

definition NewPanel :: "(string \<Rightarrow> (string \<times> string) option) \<Rightarrow> string \<Rightarrow> string \<Rightarrow> panel" where
  "NewPanel parse listen apiTarget =
     \<lparr>pn_addr = listen,
      pn_target = (case parse apiTarget of
         Some (scheme, host) \<Rightarrow> if scheme \<noteq> [] \<and> host \<noteq> [] then Some apiTarget else None
       | None \<Rightarrow> None)\<rparr>"

datatype panel_reply = Forwarded string | BadGateway string | Dashboard web_answer "(string \<times> string) list"

text \<open>The headers of the dashboard; a page is not to be kept by caches.\<close>

definition webui_headers :: "web_answer \<Rightarrow> (string \<times> string) list" where
  "webui_headers a =
     [(''X-Content-Type-Options'', ''nosniff''), (''X-Frame-Options'', ''SAMEORIGIN''), (''Referrer-Policy'', ''no-referrer'')] @
     (if a = ServeFile True then [(''Cache-Control'', ''no-cache'')] else [])"

definition panel_ServeHTTP :: "panel \<Rightarrow> (string \<Rightarrow> bool) \<Rightarrow> string \<Rightarrow> string \<Rightarrow> panel_reply" where
  "panel_ServeHTTP p stat method path =
     (case panel_handler stat method path of
        ProxyToAPI \<Rightarrow> (case pn_target p of Some t \<Rightarrow> Forwarded t | None \<Rightarrow> BadGateway ''{\"error\":\"admin api proxy unavailable\"}'')
      | FromDashboard a \<Rightarrow> Dashboard a (webui_headers a))"

section \<open>Retention of the history\<close>

datatype prune_event = PruneTick int | PruneStop

text \<open>The goroutine that prunes the history every hour until the context ends; a failure is only logged.\<close>

fun prune_loop :: "int \<Rightarrow> prune_event list \<Rightarrow> store \<Rightarrow> store" where
  "prune_loop days [] s = s"
| "prune_loop days (PruneStop # evs) s = s"
| "prune_loop days (PruneTick now # evs) s = prune_loop days evs (snd (PruneSendLogs now days s))"

text \<open>The times at which it prunes.\<close>

fun prune_times :: "prune_event list \<Rightarrow> int list" where
  "prune_times [] = []"
| "prune_times (PruneStop # evs) = []"
| "prune_times (PruneTick now # evs) = now # prune_times evs"

definition kept_at :: "int \<Rightarrow> sends_row \<Rightarrow> int \<Rightarrow> bool" where
  "kept_at days r now \<longleftrightarrow> (now - days * 86400000000000) div 1000000 \<le> s_queued_at r"

lemma PruneSendLogs_core: "same_core s (snd (PruneSendLogs now days s))"
  using sql_log_same_core(3) by (fastforce simp: PruneSendLogs_def Let_def split: prod.splits sum.splits)

lemma PruneSendLogs_log:
  assumes "0 < days" and "faults s = []"
  shows "sends_log (snd (PruneSendLogs now days s)) = filter (\<lambda>r. kept_at days r now) (sends_log s) \<and> faults (snd (PruneSendLogs now days s)) = []"
  using assms by (simp add: PruneSendLogs_def Let_def sql_no_fault del_log_def UnixMilli_def kept_at_def not_less)


text \<open>A history with an old and a recent row, pruned once, two days after the epoch, with a window of one day.\<close>

definition demo_log_row :: "string \<Rightarrow> int \<Rightarrow> sends_row" where
  "demo_log_row i t = \<lparr>s_id = i, s_sender = ''a@x'', s_to = [''b@y''], s_subject = [], s_status = StatusQueued, s_attempts = 0, s_size = 2,
     s_truncated = False, s_last_error = [], s_html = [], s_text = [], s_raw = ''hi'', s_queued_at = t, s_updated_at = t\<rparr>"


section \<open>Waiting and shutting down\<close>

datatype main_event = ServeErr "unit res" | SignalReceived

datatype main_action = CancelWorker | ShutdownAPI | ShutdownPanel | ShutdownSMTP | WarnDead int

text \<open>
  The end of \<open>run\<close>: a server that failed ends the program at once; a signal, or the SMTP server ending
  without an error, shuts the parts down in order and reports the dead letters.
\<close>

definition run_end :: "process \<Rightarrow> main_event \<Rightarrow> int \<Rightarrow> store \<Rightarrow> unit res \<times> main_action list \<times> store" where
  "run_end p ev now s =
     (case ev of
        ServeErr (Inl err) \<Rightarrow> (Inl err, [CancelWorker], s)
      | _ \<Rightarrow>
          (let acts = [CancelWorker] @ (if p_api p \<noteq> None then [ShutdownAPI] else []) @
                 (if p_panel p \<noteq> None then [ShutdownPanel] else []) @ [ShutdownSMTP]
           in case Stats now s of
               (Inr st, s1) \<Rightarrow> (Inr (), acts @ (if Dead st > 0 then [WarnDead (Dead st)] else []), s1)
             | (Inl err, s1) \<Rightarrow> (Inr (), acts, s1)))"

text \<open>The program exits with code 0 exactly when no server failed, and then the SMTP server has been shut down, after the API and the panel.\<close>

lemma run_end_exit:
  assumes "run_end p ev now s = (r, acts, s1)"
  shows "(snd (main r) = 0 \<longleftrightarrow> (\<nexists>err. ev = ServeErr (Inl err))) \<and>
    (snd (main r) = 0 \<longrightarrow> ShutdownSMTP \<in> set acts \<and> (p_api p \<noteq> None \<longrightarrow> ShutdownAPI \<in> set acts)) \<and> (\<exists>fs. s1 = s\<lparr>faults := fs\<rparr>)"
proof -
  have "\<exists>fs. s = s\<lparr>faults := fs\<rparr>" by (rule exI [of _ "faults s"]) simp
  moreover have "\<exists>fs. s2 = s\<lparr>faults := fs\<rparr>" if "Stats now s = (x, s2)" for x s2 using Stats_reads that by blast
  ultimately show ?thesis using assms
    by (auto simp: run_end_def main_def Let_def split: main_event.splits sum.splits prod.splits)
qed

text \<open>
  A signal ends the SMTP server: cancelling the context and calling \<open>Shutdown\<close> closes a listener that is set, and from there
  the accept loop returns; what it reports to the main program is no error.
\<close>

lemma signal_stops_server:
  assumes "server_start A srv l0" and "(server_step A srv)\<^sup>*\<^sup>* l0 l" and "lc_serve l = Accepting"
  shows "returns srv (Shutdown (l\<lparr>lc_ctx := True\<rparr>)) \<and> isClosed (Shutdown (l\<lparr>lc_ctx := True\<rparr>))"
proof -
  have inv: "lifecycle_inv l" using lcs.reachable_inv [OF assms(1,2)] .
  then have "isClosed (Shutdown (l\<lparr>lc_ctx := True\<rparr>))" using assms(3) by (auto simp: lifecycle_inv_def lifecycle_ops)
  moreover have "lifecycle_inv (Shutdown (l\<lparr>lc_ctx := True\<rparr>))" using inv assms(3) by (auto simp: lifecycle_inv_def lifecycle_ops)
  ultimately show ?thesis using closed_returns by (simp add: isClosed_def)
qed

end
