(* ===== verification/Submission.thy ===== *)
theory Submission
  imports Whole_System Smtpd_IO_Laws
begin

text \<open>
  What the server does for a client that keeps to the protocol: the dialogue that submits a message, command
  by command, and its outcome. The safety properties say what the server never accepts; this one says
  that it accepts what it should.
\<close>

section \<open>A command line\<close>

text \<open>A line that fits the buffer of the reader in one piece.\<close>

definition short_line :: "string \<Rightarrow> bool" where
  "short_line l \<longleftrightarrow> clean l \<and> length l + 2 \<le> 4096"

lemma readLine_short:
  assumes "short_line l"
  shows "readLine (bytes_in (l @ crlf) @ rest) = (Inr l, rest)"
proof -
  have cl: "clean l" and len: "length (l @ [CR]) < bufSize" using assms by (simp_all add: short_line_def bufSize_def)
  have slice: "ReadSlice (bytes_in (l @ crlf) @ rest) bufSize = ((l @ crlf, SliceNil), rest)"
    using ReadSlice_line [of "l @ [CR]" bufSize rest] cl len by (simp add: clean_def)
  have "readRaw maxCommandLine (bytes_in (l @ crlf) @ rest) = (Inr (l @ crlf), rest)"
    unfolding readRaw_def by (subst readRaw_loop.simps) (use slice len in \<open>simp add: maxCommandLine_def bufSize_def\<close>)
  then show ?thesis using TrimRight_crlf [OF cl] by (simp add: readLine_def)
qed

lemma serve_step_line:
  assumes "short_line l" and "l \<noteq> []" and "nc_in c = bytes_in (l @ crlf) @ rest"
  shows "serve_step srv c = handle srv (fst (splitCommand l)) (snd (splitCommand l)) (c\<lparr>nc_in := rest\<rparr>)"
  using assms(2) readLine_short [OF assms(1), of rest] by (simp add: serve_step_def read_line_def assms(3))

lemma find_first_index:
  assumes "n < length s" and "P (s ! n)" and "\<And>i. i < n \<Longrightarrow> \<not> P (s ! i)"
  shows "find (\<lambda>i. P (s ! i)) [0..<length s] = Some n"
  unfolding find_Some_iff using assms by (intro exI [of _ n]) simp

text \<open>A verb and an argument, without blanks at their ends.\<close>

lemma splitCommand_words:
  assumes "v \<noteq> []" and "list_all (\<lambda>c. \<not> is_space c) v" and "a \<noteq> []" and "\<not> is_space (hd a)" and "\<not> is_space (last a)"
  shows "splitCommand (v @ '' '' @ a) = (v, a)"
proof -
  let ?l = "v @ '' '' @ a"
  have "TrimLeft ?l '' '' = ?l" using assms(1,2) by (cases v) (auto simp: TrimLeft_def trim_left_def is_space_def)
  moreover have "TrimRight ?l '' '' = ?l"
    unfolding TrimRight_def using assms(3,5) by (intro trim_right_id) (auto simp: is_space_def)
  moreover have "IndexAnySpace ?l = Some (length v)"
    unfolding IndexAnySpace_def using assms(2)
    by (intro find_first_index [where P = "\<lambda>c. c = CHR '' '' \<or> c = TAB"]) (auto simp: nth_append list_all_length is_space_def)
  moreover have "TrimSpace a = a"
    using assms(3-5) by (cases a) (auto simp: TrimSpace_def trim_left_def intro!: trim_right_id)
  ultimately show ?thesis by (simp add: splitCommand_def)
qed

lemma splitCommand_word: "v \<noteq> [] \<Longrightarrow> list_all (\<lambda>c. \<not> is_space c) v \<Longrightarrow> splitCommand v = (v, [])"
proof -
  assume v: "v \<noteq> []" "list_all (\<lambda>c. \<not> is_space c) v"
  have "TrimLeft v '' '' = v" using v by (cases v) (auto simp: TrimLeft_def trim_left_def is_space_def)
  moreover have "TrimRight v '' '' = v"
    unfolding TrimRight_def using v by (intro trim_right_id) (auto simp: is_space_def list_all_iff)
  moreover have "IndexAnySpace v = None" using v(2) by (auto simp: IndexAnySpace_def find_None_iff list_all_length is_space_def)
  ultimately show ?thesis by (simp add: splitCommand_def)
qed

section \<open>The commands of a submission\<close>

text \<open>An address that reads the same after the normalisation of the server.\<close>

definition plain_addr :: "string \<Rightarrow> bool" where
  "plain_addr a \<longleftrightarrow> validEnvelopeAddr a \<and> ToLower a = a \<and> list_all (\<lambda>c. \<not> is_space c) a \<and> length a \<le> 1000"

lemma plain_addr_facts:
  assumes "plain_addr a"
  shows "a \<noteq> []" "CHR ''>'' \<notin> set a" "TrimSpace a = a" "norm_addr a = a" "clean a"
proof -
  have v: "validEnvelopeAddr a" and low: "ToLower a = a" and ns: "list_all (\<lambda>c. \<not> is_space c) a" using assms by (auto simp: plain_addr_def)
  show "a \<noteq> []" using v by (auto simp: validEnvelopeAddr_def LastIndexByte_def)
  show "CHR ''>'' \<notin> set a" using v by (auto simp: validEnvelopeAddr_def ContainsAny_def list_ex_iff split: option.splits if_splits)
  show t: "TrimSpace a = a" using TrimSpace_free [OF ns] .
  then show "norm_addr a = a" using low by (simp add: norm_addr_def)
  show "clean a" using ns by (auto simp: clean_def list_all_iff is_space_def)
qed

lemma splitEnvelope_path:
  assumes "plain_addr a"
  shows "splitEnvelope (TrimSpace (''<'' @ a @ ''>'')) = (a, [])"
proof -
  have ns: "list_all (\<lambda>c. \<not> is_space c) (''<'' @ a @ ''>'')" using assms by (simp add: plain_addr_def is_space_def)
  have ix: "CHR ''>'' \<notin> set u \<Longrightarrow> IndexByte (u @ ''>'') CHR ''>'' = Some (length u)" for u by (induction u) auto
  have "IndexByte (''<'' @ a @ ''>'') CHR ''>'' = Some (Suc (length a))"
    using ix [of "''<'' @ a"] plain_addr_facts(2) [OF assms] by simp
  then show ?thesis using TrimSpace_free [OF ns] by (simp add: splitEnvelope_def HasPrefix_def Let_def)
qed

lemma ToUpper_append: "ToUpper (s @ t) = ToUpper s @ ToUpper t"
  by (simp add: ToUpper_def)

lemma handleMail_ok:
  assumes "plain_addr f" and "user c = Some u" and "AllowsFrom u f"
  shows "handleMail srv (''FROM:<'' @ f @ ''>'') c = reply 250 ''2.1.0 Ok'' (c\<lparr>sender := f, rcpts := []\<rparr>)"
proof -
  have up: "HasPrefix (ToUpper (''FROM:<'' @ f @ ''>'')) ''FROM:''"
    unfolding ToUpper_append by (simp add: HasPrefix_def ToUpper_def upper_char_def)
  have "paramSize [] = 0" by (simp add: paramSize_def ToUpper_def)
  moreover have "ToLower f = f" "validEnvelopeAddr f" using assms(1) by (simp_all add: plain_addr_def)
  ultimately show ?thesis
    using assms(2,3) up splitEnvelope_path [OF assms(1)] plain_addr_facts(3) [OF assms(1)] by (simp add: handleMail_def)
qed

lemma handleRcpt_ok:
  assumes "plain_addr a" and "sender c \<noteq> []" and "int (length (rcpts c)) < MaxRecipients (cfg srv)"
  shows "handleRcpt srv (''TO:<'' @ a @ ''>'') c = reply 250 ''2.1.5 Ok'' (c\<lparr>rcpts := rcpts c @ [a]\<rparr>)"
proof -
  have up: "HasPrefix (ToUpper (''TO:<'' @ a @ ''>'')) ''TO:''"
    unfolding ToUpper_append by (simp add: HasPrefix_def ToUpper_def upper_char_def)
  moreover have "ToLower a = a" "validEnvelopeAddr a" using assms(1) by (simp_all add: plain_addr_def)
  ultimately show ?thesis
    using assms(2,3) splitEnvelope_path [OF assms(1)] plain_addr_facts(3) [OF assms(1)] by (simp add: handleRcpt_def)
qed

section \<open>The dialogue\<close>

lemma serve_loop_turn: "serve_step srv c = (False, c1) \<Longrightarrow> serve_loop srv c = serve_loop srv c1"
  by (subst serve_loop.simps) simp

lemma serve_loop_stop: "serve_step srv c = (True, c1) \<Longrightarrow> serve_loop srv c = c1"
  by (subst serve_loop.simps) simp

lemma verbs: "ToUpper ''AUTH'' = ''AUTH''" "ToUpper ''MAIL'' = ''MAIL''" "ToUpper ''RCPT'' = ''RCPT''" "ToUpper ''DATA'' = ''DATA''" "ToUpper ''QUIT'' = ''QUIT''"
  by code_simp+

lemma command_line:
  assumes "short_line (v @ '' '' @ a)" and "v \<noteq> []" "list_all (\<lambda>c. \<not> is_space c) v" "a \<noteq> []" "\<not> is_space (hd a)" "\<not> is_space (last a)"
    and "nc_in c = bytes_in ((v @ '' '' @ a) @ crlf) @ rest"
  shows "serve_step srv c = handle srv v a (c\<lparr>nc_in := rest\<rparr>)"
  using serve_step_line [OF assms(1) _ assms(7)] splitCommand_words [OF assms(2-6)] assms(2) by simp

lemma mail_turn:
  assumes "plain_addr f" and "user c = Some u" and "AllowsFrom u f" and "nc_in c = bytes_in ((''MAIL FROM:<'' @ f @ ''>'') @ crlf) @ rest"
  shows "serve_loop srv c = serve_loop srv (reply 250 ''2.1.0 Ok'' (c\<lparr>nc_in := rest, sender := f, rcpts := []\<rparr>))"
proof -
  have "short_line (''MAIL'' @ '' '' @ (''FROM:<'' @ f @ ''>''))"
    using assms(1) plain_addr_facts(5) [OF assms(1)] by (simp add: short_line_def clean_def plain_addr_def)
  then have "serve_step srv c = handle srv ''MAIL'' (''FROM:<'' @ f @ ''>'') (c\<lparr>nc_in := rest\<rparr>)"
    by (rule command_line) (use assms(4) in \<open>simp_all add: is_space_def\<close>)
  then show ?thesis
    using handleMail_ok [of f "c\<lparr>nc_in := rest\<rparr>" u srv] assms(1-3) by (intro serve_loop_turn) (simp add: handle_def verbs Let_def)
qed

lemma rcpt_turn:
  assumes "plain_addr a" and "sender c \<noteq> []" and "int (length (rcpts c)) < MaxRecipients (cfg srv)"
    and "nc_in c = bytes_in ((''RCPT TO:<'' @ a @ ''>'') @ crlf) @ rest"
  shows "serve_loop srv c = serve_loop srv (reply 250 ''2.1.5 Ok'' (c\<lparr>nc_in := rest, rcpts := rcpts c @ [a]\<rparr>))"
proof -
  have "short_line (''RCPT'' @ '' '' @ (''TO:<'' @ a @ ''>''))"
    using assms(1) plain_addr_facts(5) [OF assms(1)] by (simp add: short_line_def clean_def plain_addr_def)
  then have "serve_step srv c = handle srv ''RCPT'' (''TO:<'' @ a @ ''>'') (c\<lparr>nc_in := rest\<rparr>)"
    by (rule command_line) (use assms(4) in \<open>simp_all add: is_space_def\<close>)
  then show ?thesis
    using handleRcpt_ok [of a "c\<lparr>nc_in := rest\<rparr>" srv] assms(1-3) by (intro serve_loop_turn) (simp add: handle_def verbs Let_def)
qed

definition rcpt_lines :: "string list \<Rightarrow> string" where
  "rcpt_lines ts = concat (map (\<lambda>a. (''RCPT TO:<'' @ a @ ''>'') @ crlf) ts)"

text \<open>The recipients, one after another.\<close>

lemma rcpt_turns:
  assumes "list_all plain_addr ts" and "sender c \<noteq> []" and "int (length (rcpts c) + length ts) \<le> MaxRecipients (cfg srv)"
    and "nc_in c = bytes_in (rcpt_lines ts) @ rest"
  shows "serve_loop srv c = serve_loop srv (c\<lparr>nc_in := rest, rcpts := rcpts c @ ts, nc_out := nc_out c @ replicate (length ts) ''250 2.1.5 Ok''\<rparr>)"
  using assms
proof (induction ts arbitrary: c)
  case Nil
  then show ?case by (auto simp: rcpt_lines_def)
next
  case (Cons a ts)
  let ?c = "reply 250 ''2.1.5 Ok'' (c\<lparr>nc_in := bytes_in (rcpt_lines ts) @ rest, rcpts := rcpts c @ [a]\<rparr>)"
  have "serve_loop srv c = serve_loop srv ?c"
    using Cons.prems by (intro rcpt_turn) (simp_all add: rcpt_lines_def)
  also have "\<dots> = serve_loop srv (?c\<lparr>nc_in := rest, rcpts := rcpts ?c @ ts, nc_out := nc_out ?c @ replicate (length ts) ''250 2.1.5 Ok''\<rparr>)"
    using Cons.prems by (intro Cons.IH) (simp_all add: reply_def)
  finally show ?case by (simp add: reply_def data_codes)
qed

lemma quit_turn:
  assumes "nc_in c = bytes_in (''QUIT'' @ crlf) @ rest"
  shows "serve_loop srv c = reply 221 ''2.0.0 Bye'' (c\<lparr>nc_in := rest\<rparr>)"
proof -
  have "serve_step srv c = handle srv ''QUIT'' [] (c\<lparr>nc_in := rest\<rparr>)"
    using serve_step_line [of "''QUIT''" c rest srv] assms splitCommand_word [of "''QUIT''"] by (simp add: short_line_def clean_def is_space_def)
  then show ?thesis by (intro serve_loop_stop) (simp add: handle_def verbs Let_def)
qed

lemma data_turn:
  assumes "nc_in c = bytes_in (''DATA'' @ crlf) @ rest"
  shows "serve_loop srv c = serve_loop srv (handleData srv (c\<lparr>nc_in := rest\<rparr>))"
proof -
  have "serve_step srv c = handle srv ''DATA'' [] (c\<lparr>nc_in := rest\<rparr>)"
    using serve_step_line [of "''DATA''" c rest srv] assms splitCommand_word [of "''DATA''"] by (simp add: short_line_def clean_def is_space_def)
  then show ?thesis by (intro serve_loop_turn) (simp add: handle_def verbs Let_def)
qed

text \<open>Logging in with a known account and its password.\<close>

definition credentials :: "string \<Rightarrow> string \<Rightarrow> string" where
  "credentials login pw = EncodeToString (NUL # login @ NUL # pw)"

lemma length_EncodeToString: "length (EncodeToString s) = 4 * ((length s + 2) div 3)"
proof (induction s rule: EncodeToString.induct)
  case (4 x y z r)
  have "(length r + 5) div 3 = Suc ((length r + 2) div 3)" by presburger
  then show ?case using 4 by (simp add: Let_def add.commute)
qed (simp_all add: Let_def)

lemma short_credentials: "length login + length pw \<le> 3000 \<Longrightarrow> short_line (''AUTH PLAIN '' @ credentials login pw)"
proof -
  assume len: "length login + length pw \<le> 3000"
  have "clean (credentials login pw)" using EncodeToString_no_space by (force simp: clean_def credentials_def is_space_def)
  moreover have "length (credentials login pw) \<le> 4004" using len by (simp add: credentials_def length_EncodeToString)
  ultimately show ?thesis by (simp add: short_line_def clean_def)
qed

lemma auth_turn:
  assumes "user c = None" and "authAllowed srv c" and "NUL \<notin> set login" and "NUL \<notin> set pw"
    and len: "length login + length pw \<le> 3000" and "nc_in c = bytes_in ((''AUTH PLAIN '' @ credentials login pw) @ crlf) @ rest"
    and acct: "fst (GetAccount login (db c)) = Inr (Some u)" "VerifyPassword (bcr srv) (PasswordHash u) pw"
  shows "serve_loop srv c = serve_loop srv (auth_ok (clock srv (ticks c)) u (looked_up (c\<lparr>nc_in := rest\<rparr>)))"
proof -
  let ?b = "credentials login pw"
  have b: "?b \<noteq> []" by (simp add: credentials_def)
  then have "\<not> is_space (last ?b)" using EncodeToString_no_space [of "last ?b"] last_in_set [of ?b] unfolding credentials_def by blast
  note b = b this
  have "serve_step srv c = handle srv ''AUTH'' (''PLAIN '' @ ?b) (c\<lparr>nc_in := rest\<rparr>)"
    by (rule command_line) (use short_credentials [OF len] assms(6) b in \<open>simp_all add: is_space_def\<close>)
  moreover have "authAllowed srv (c\<lparr>nc_in := rest\<rparr>)" using assms(2) by (simp add: authAllowed_def)
  ultimately have "serve_step srv c = (False, tryAuthenticate srv login pw (c\<lparr>nc_in := rest\<rparr>))"
    using handleAuth_plain_roundtrip [of "c\<lparr>nc_in := rest\<rparr>" srv login pw] assms(1,3,4) by (simp add: handle_def verbs Let_def credentials_def)
  then show ?thesis using acct by (subst serve_loop_turn) (simp_all add: tryAuthenticate_eq)
qed

lemma EnqueueWithID_fresh:
  "faults s = [] \<Longrightarrow> i \<notin> q_id ` set (queue_messages s) \<Longrightarrow> to \<noteq> [] \<Longrightarrow> \<exists>s1. EnqueueWithID t i sd to data s = (Inr i, s1)"
  by (auto simp: EnqueueWithID_def sql_no_fault insert_queue_def new_row_def)

text \<open>\<open>DATA\<close> for a client that is ready, when no statement fails and the identifier is new.\<close>

lemma handleData_stores:
  assumes "user c \<noteq> None" "sender c \<noteq> []" "rcpts c \<noteq> []" and "faults (db c) = []"
    and "data_id srv c \<notin> q_id ` set (queue_messages (db c))"
    and "nc_in c = bytes_in (send_lines ls @ ''.'' @ crlf) @ rest" and "list_all clean ls" and "sent_size ls + 2 \<le> MaxMessageSize (cfg srv)"
  shows "data_stored srv c (handleData srv c) (concat (map (\<lambda>l. l @ [LF]) ls)) \<and> nc_in (handleData srv c) = rest"
proof -
  let ?data = "concat (map (\<lambda>l. l @ [LF]) ls)"
  define c1 where "c1 = (reply 354 ''End data with <CR><LF>.<CR><LF>'' c)\<lparr>nc_in := rest\<rparr>"
  have rd: "readData (MaxMessageSize (cfg srv)) (nc_in c) = (Inr (?data, False), rest)"
    using readData_loop_lines [of ls 0 "MaxMessageSize (cfg srv)" "[]" rest] assms(6-8) by (simp add: readData_def list_all_iff)
  have i: "data_id srv c1 = data_id srv c" by (simp add: c1_def data_id_def reply_def)
  let ?d = "db (data_recorded srv c1 ?data)"
  have "same_core (db c) ?d" "faults ?d = []"
    using recorder_same_core(1) faults_Add [of "db c"] assms(4) by (simp_all add: data_recorded_def c1_def reply_def)
  moreover from this(1) have "data_id srv c1 \<notin> q_id ` set (queue_messages ?d)" using assms(5) i by (simp add: same_core_def)
  moreover have "rcpts c1 \<noteq> []" using assms(3) by (simp add: c1_def reply_def)
  ultimately obtain s where q: "data_queued srv c1 ?data = (Inr (data_id srv c1), s)"
    unfolding data_queued_def using EnqueueWithID_fresh by blast
  have eq: "handleData srv c = data_ok (clock srv (ticks c1)) (data_id srv c1) ((data_recorded srv c1 ?data)\<lparr>db := s\<rparr>)"
    using handleData_eq [OF assms(1-3) c1_def rd] q by simp
  have "nc_in (handleData srv c) = rest"
    by (simp add: eq data_ok_def reset_def reply_def add_counter_now_def data_recorded_def c1_def)
  then show ?thesis using data_after_read [OF c1_def rd q] eq by simp
qed

section \<open>A whole submission\<close>

definition submission :: "string \<Rightarrow> string \<Rightarrow> string \<Rightarrow> string list \<Rightarrow> string list \<Rightarrow> string" where
  "submission login pw f ts ls =
     ''AUTH PLAIN '' @ credentials login pw @ crlf @ ''MAIL FROM:<'' @ f @ ''>'' @ crlf @ rcpt_lines ts @
     ''DATA'' @ crlf @ send_lines ls @ ''.'' @ crlf @ ''QUIT'' @ crlf"

text \<open>A client that may log in, with a message that the server may take.\<close>

definition may_submit :: "server \<Rightarrow> session \<Rightarrow> account \<Rightarrow> string \<Rightarrow> string \<Rightarrow> bool" where
  "may_submit srv c u login pw \<longleftrightarrow> user c = None \<and> authAllowed srv c \<and> faults (db c) = [] \<and> NUL \<notin> set login \<and> NUL \<notin> set pw \<and>
     length login + length pw \<le> 3000 \<and> fst (GetAccount login (db c)) = Inr (Some u) \<and>
     VerifyPassword (bcr srv) (PasswordHash u) pw"

definition good_mail :: "server \<Rightarrow> account \<Rightarrow> string \<Rightarrow> string list \<Rightarrow> string list \<Rightarrow> bool" where
  "good_mail srv u f ts ls \<longleftrightarrow> plain_addr f \<and> AllowsFrom u f \<and> ts \<noteq> [] \<and> list_all plain_addr ts \<and> int (length ts) \<le> MaxRecipients (cfg srv) \<and>
     list_all clean ls \<and> sent_size ls + 2 \<le> MaxMessageSize (cfg srv)"

lemma login_state:
  assumes "faults (db c) = []" and "c2 = auth_ok t u (looked_up c)"
  shows "user c2 = Some u" "faults (db c2) = []" "queue_messages (db c2) = queue_messages (db c)" "ticks c2 = ticks c + 1"
    "nc_out c2 = nc_out c @ [''235 2.7.0 Authentication successful'']" "helo c2 = helo c" "remote c2 = remote c" "nc_in c2 = nc_in c"
proof -
  have code: "Itoa 235 = ''235''" by code_simp
  show "user c2 = Some u" "ticks c2 = ticks c + 1" "nc_out c2 = nc_out c @ [''235 2.7.0 Authentication successful'']" "helo c2 = helo c"
      "remote c2 = remote c" "nc_in c2 = nc_in c"
    by (simp_all add: assms(2) auth_ok_def reply_def add_counter_now_def reset_def looked_up_def code)
  have "db c2 = snd (AddCounter (now_ms t) ''auth_success'' 1 (db c))"
    using assms(1) by (simp add: assms(2) auth_ok_def reply_def add_counter_now_def reset_def)
  then show "faults (db c2) = []" "queue_messages (db c2) = queue_messages (db c)"
    using faults_AddCounter [OF assms(1)] AddCounter_frame by simp_all
qed

lemma mail_accepted:
  assumes "user c = Some u" and "faults (db c) = []" and "data_id srv c \<notin> q_id ` set (queue_messages (db c))" and "good_mail srv u f ts ls"
    and "nc_in c = bytes_in (''MAIL FROM:<'' @ f @ ''>'' @ crlf @ rcpt_lines ts @ ''DATA'' @ crlf @ send_lines ls @ ''.'' @ crlf @ ''QUIT'' @ crlf) @ rest"
  shows "nc_out (serve_loop srv c) = nc_out c @ [''250 2.1.0 Ok''] @ replicate (length ts) ''250 2.1.5 Ok'' @
      [''354 End data with <CR><LF>.<CR><LF>'', ''250 2.0.0 Ok: queued as '' @ data_id srv c, ''221 2.0.0 Bye''] \<and>
    queue_messages (db (serve_loop srv c)) = queue_messages (db c) @
      [new_row (now_ms (clock srv (ticks c))) (data_id srv c) f ts (data_raw srv (c\<lparr>rcpts := ts\<rparr>) (concat (map (\<lambda>l. l @ [LF]) ls)))]"
proof -
  let ?quit = "bytes_in (''QUIT'' @ crlf) @ rest"
  let ?text = "bytes_in (send_lines ls @ ''.'' @ crlf) @ ?quit"
  let ?data = "bytes_in (''DATA'' @ crlf) @ ?text"
  have good: "plain_addr f" "AllowsFrom u f" "ts \<noteq> []" "list_all plain_addr ts" "int (length ts) \<le> MaxRecipients (cfg srv)"
      "list_all clean ls" "sent_size ls + 2 \<le> MaxMessageSize (cfg srv)"
    using assms(4) by (simp_all add: good_mail_def)
  have code: "Itoa 221 = ''221''" by code_simp
  define c1 where "c1 = reply 250 ''2.1.0 Ok'' (c\<lparr>nc_in := bytes_in (rcpt_lines ts) @ ?data, sender := f, rcpts := []\<rparr>)"
  define c2 where "c2 = c1\<lparr>nc_in := ?data, rcpts := rcpts c1 @ ts, nc_out := nc_out c1 @ replicate (length ts) ''250 2.1.5 Ok''\<rparr>"
  define c3 where "c3 = c2\<lparr>nc_in := ?text\<rparr>"
  have "serve_loop srv c = serve_loop srv c1" unfolding c1_def by (rule mail_turn [OF good(1) assms(1) good(2)]) (simp add: assms(5))
  also have "\<dots> = serve_loop srv c2"
    unfolding c2_def using good plain_addr_facts(1) [OF good(1)] by (intro rcpt_turns) (simp_all add: c1_def reply_def)
  also have "\<dots> = serve_loop srv (handleData srv c3)" unfolding c3_def by (intro data_turn) (simp add: c2_def)
  finally have run: "serve_loop srv c = serve_loop srv (handleData srv c3)" .
  have c3: "user c3 = Some u" "sender c3 = f" "rcpts c3 = ts" "db c3 = db c" "ticks c3 = ticks c" "nc_in c3 = ?text"
      "nc_out c3 = nc_out c @ [''250 2.1.0 Ok''] @ replicate (length ts) ''250 2.1.5 Ok''"
    by (simp_all add: c3_def c2_def c1_def reply_def data_codes assms(1))
  have ids: "data_id srv c3 = data_id srv c" "data_raw srv c3 d = data_raw srv (c\<lparr>rcpts := ts\<rparr>) d" for d
    by (simp_all add: data_id_def data_raw_def receivedHeader_def c3_def c2_def c1_def reply_def)
  have st: "data_stored srv c3 (handleData srv c3) (concat (map (\<lambda>l. l @ [LF]) ls))" "nc_in (handleData srv c3) = ?quit"
    using handleData_stores [of c3 srv ls ?quit] c3 ids(1) assms(2,3) good plain_addr_facts(1) [OF good(1)] by auto
  have "serve_loop srv c = reply 221 ''2.0.0 Bye'' ((handleData srv c3)\<lparr>nc_in := rest\<rparr>)" unfolding run using st(2) by (intro quit_turn) simp
  then show ?thesis using st(1) c3 ids by (simp add: data_stored_def reply_def code)
qed

text \<open>
  C5. A client that keeps to the protocol gets its message accepted. On a connection where authentication is
  allowed, a client that logs in with the password of an account, names a sender of that account and at most the
  allowed number of recipients and sends a text within the size limit, is answered positively at every command; its
  message is then in the queue, with that envelope and that text behind the Received header; and the connection is closed.
\<close>

theorem submission_accepted:
  assumes "implicit_tls srv c0 = (True, c)" and "may_submit srv c u login pw" and "good_mail srv u f ts ls"
    and "nc_in c = bytes_in (submission login pw f ts ls) @ rest"
    and "t = clock srv (ticks c + 1)" and "i = NewID (id_stamp t) (id_rand t)" and "i \<notin> q_id ` set (queue_messages (db c))"
  shows "nc_out (serveConn srv c0) = nc_out c @ [''220 '' @ Hostname (cfg srv) @ '' ESMTP Carteiro'', ''235 2.7.0 Authentication successful'', ''250 2.1.0 Ok''] @
      replicate (length ts) ''250 2.1.5 Ok'' @
      [''354 End data with <CR><LF>.<CR><LF>'', ''250 2.0.0 Ok: queued as '' @ i, ''221 2.0.0 Bye''] \<and>
    queue_messages (db (serveConn srv c0)) = queue_messages (db c) @
      [new_row (now_ms t) i f ts (receivedHeader srv t i (c\<lparr>rcpts := ts\<rparr>) @ concat (map (\<lambda>l. l @ [LF]) ls))]"
proof -
  have code: "Itoa 220 = ''220''" by code_simp
  let ?mail = "bytes_in (''MAIL FROM:<'' @ f @ ''>'' @ crlf @ rcpt_lines ts @ ''DATA'' @ crlf @ send_lines ls @ ''.'' @ crlf @ ''QUIT'' @ crlf) @ rest"
  define c1 where "c1 = greet srv c"
  define c2 where "c2 = auth_ok (clock srv (ticks c1)) u (looked_up (c1\<lparr>nc_in := ?mail\<rparr>))"
  have c1: "user c1 = None" "authAllowed srv c1" "db c1 = db c" "ticks c1 = ticks c" "helo c1 = helo c" "remote c1 = remote c"
      "nc_in c1 = bytes_in ((''AUTH PLAIN '' @ credentials login pw) @ crlf) @ ?mail"
      "nc_out c1 = nc_out c @ [''220 '' @ Hostname (cfg srv) @ '' ESMTP Carteiro'']"
    using assms(2,4) by (simp_all add: c1_def greet_def reply_def may_submit_def authAllowed_def submission_def code)
  have ms: "NUL \<notin> set login" "NUL \<notin> set pw" "length login + length pw \<le> 3000" "fst (GetAccount login (db c)) = Inr (Some u)"
      "VerifyPassword (bcr srv) (PasswordHash u) pw"
    using assms(2) by (simp_all add: may_submit_def)
  have nf: "faults (db (c1\<lparr>nc_in := ?mail\<rparr>)) = []" using assms(2) c1(3) by (simp add: may_submit_def)
  note s2 = login_state [OF nf c2_def]
  have "serveConn srv c0 = serve_loop srv c1" using assms(1) by (simp add: serveConn_def c1_def)
  also have "\<dots> = serve_loop srv c2"
    unfolding c2_def by (rule auth_turn [OF c1(1,2) ms(1-3) c1(7)]) (simp_all only: c1(3) ms(4,5))
  finally have run: "serveConn srv c0 = serve_loop srv c2" .
  have ids: "clock srv (ticks c2) = t" "data_id srv c2 = i" "data_raw srv (c2\<lparr>rcpts := ts\<rparr>) d = receivedHeader srv t i (c\<lparr>rcpts := ts\<rparr>) @ d" for d
    using s2(4,6,7) c1(4-6) assms(5,6) by (simp_all add: data_id_def data_raw_def receivedHeader_def)
  show ?thesis
    using mail_accepted [OF s2(1,2) _ assms(3), of rest] s2(3,5,8) c1(3,8) assms(7) unfolding run ids by simp
qed

definition demo_client :: session where
  "demo_client = new_session (TCPAddr ''127.0.0.1'' True) (bytes_in (submission ''a@x'' ''p'' ''a@x'' [''b@y'', ''c@z''] [''hi'', ''.dot''])) []
     (demo_db\<lparr>queue_messages := []\<rparr>) no_counts 0"

lemma submission_accepted_witness:
  "\<exists>raw. map q_to (queue_messages (db (serveConn demo_server demo_client))) = [[''b@y'', ''c@z'']] \<and>
     map q_data (queue_messages (db (serveConn demo_server demo_client))) = [raw @ ''hi'' @ [LF] @ ''.dot'' @ [LF]] \<and>
     last (nc_out (serveConn demo_server demo_client)) = ''221 2.0.0 Bye''"
proof -
  have tls: "implicit_tls demo_server demo_client = (True, demo_client)" by (simp add: implicit_tls_def demo_server_def)
  have store: "db demo_client = demo_db\<lparr>queue_messages := []\<rparr>" by (simp add: demo_client_def new_session_def)
  have "fst (GetAccount ''a@x'' (demo_db\<lparr>queue_messages := []\<rparr>)) = Inr (Some demo_account)" by code_simp
  then have acc: "fst (GetAccount ''a@x'' (db demo_client)) = Inr (Some demo_account)" "VerifyPassword (bcr demo_server) (PasswordHash demo_account) ''p''"
    unfolding store by (assumption, code_simp)
  have may: "may_submit demo_server demo_client demo_account ''a@x'' ''p''"
    using acc by (simp add: may_submit_def) (simp add: demo_client_def new_session_def authAllowed_def isLoopback_def demo_db_def new_store_def)
  have "plain_addr ''a@x''" "plain_addr ''b@y''" "plain_addr ''c@z''" "AllowsFrom demo_account ''a@x''" by code_simp+
  then have good: "good_mail demo_server demo_account ''a@x'' [''b@y'', ''c@z''] [''hi'', ''.dot'']"
    by (simp add: good_mail_def clean_def sent_size_def stuff_def HasPrefix_def demo_server_def defaults_def)
  have inp: "nc_in demo_client = bytes_in (submission ''a@x'' ''p'' ''a@x'' [''b@y'', ''c@z''] [''hi'', ''.dot'']) @ []"
    and q: "queue_messages (db demo_client) = []"
    by (simp_all add: demo_client_def new_session_def)
  show ?thesis using submission_accepted [OF tls may good inp refl refl] q by (auto simp: new_row_def)
qed

end
