(* ===== verification/Spec2Isabelle.thy ===== *)
theory Spec2Isabelle
  imports Queue_Ops Store_Laws Msg_Laws Recorder Dkim Config_Laws Smtpd_IO_Laws Smtpd_Props Logmask_Laws Startup_Laws Whole_System Program Submission
begin

text \<open>
  A verification development for Carteiro, an SMTP relay in Go: clients submit mail over an
  authenticated SMTP session, the program keeps it in a queue in a database (SQLite or MySQL), signs it
  with DKIM and delivers it to the mail exchangers of its recipients, with retries and dead letters.
  An HTTP API and a web panel administer accounts, keys and the queue.

  \<^bold>\<open>The parts and how they interact.\<close> The main program (\<open>cmd/carteiro/main.go\<close>) loads the configuration, opens the
  store, seeds accounts and DKIM keys into it, and starts the SMTP server, the deliverer, the API and the
  panel. They share the store and nothing else: a session appends to the queue and wakes the deliverer
  through the channel of the store; the deliverer leases due messages, delivers them group by group and
  removes, reschedules or dead-letters them; the API edits accounts and keys, requeues dead messages and
  can compose a message; all of them write the history that the panel shows, and the lifetime counters.

  \<^bold>\<open>Which theory models what.\<close>

  \<^item> \<open>Go_Prelude\<close>: strings, integers and errors of Go's standard library, and the lemmas on them.
  \<^item> \<open>Store_Base\<close>, \<open>Store_Queue\<close>, \<open>Json\<close>, \<open>Store_Upsert\<close>, \<open>Store_Accounts\<close>, \<open>Store_Tables\<close>: \<open>internal/storage\<close>. The tables of
    \<open>schema.go\<close> are the fields of the record \<open>store\<close>; each SQL statement is one atomic effect run by \<open>sql\<close>, which
    lets the environment (\<open>faults\<close>) make any statement fail. Operations are state-passing functions with the
    names of the methods. \<open>Queue_Laws\<close>, \<open>Queue_Ops\<close> and \<open>Store_Laws\<close> hold their properties: leases exclude other
    workers, every operation refines an abstract life cycle of a message, expired leases are handed out
    again, dead letters are bounded; the tables behave as finite maps (locales \<open>keyed_table\<close>, \<open>upserting\<close>).
  \<^item> \<open>Base64\<close>, \<open>Msg\<close>, \<open>Msg_Laws\<close>, \<open>Recorder\<close>: \<open>internal/sends\<close>. Messages are built and parsed, and recorded in the
    history. Decoding inverts the quoted-printable encoder, and parsing a built message gives its headers.
  \<^item> \<open>Dkim\<close>: \<open>internal/dkim\<close>, over a record \<open>cryptolib\<close> for the cryptographic libraries.
  \<^item> \<open>Config\<close>, \<open>Config_Laws\<close>: \<open>internal/config\<close>. \<open>Load\<close> is the sequence of the code's steps; what it returns satisfies
    every documented constraint.
  \<^item> \<open>Smtpd_IO\<close>, \<open>Smtpd_IO_Laws\<close>: the buffered reading of lines and of message data in \<open>internal/smtpd/session.go\<close>.
  \<^item> \<open>Smtpd_Session\<close>, \<open>Smtpd_Laws\<close>, \<open>Smtpd_Props\<close>: the session and its command handlers; a step relation for
    connections served side by side; the invariant that makes the server no open relay; the meaning of
    the replies to AUTH and DATA. A policy on rows that only narrows is kept by every step (locales \<open>row_policy\<close>,
    \<open>submission_policy\<close>).
  \<^item> \<open>Smtpd_Server\<close>: \<open>internal/smtpd/server.go\<close>. The record \<open>lifecycle\<close> holds the fields of \<open>Server\<close> and the program points of
    its goroutines. Whatever the server does are steps of the world of connections, which its wait group
    counts; a closed server admits nobody else, and its accept loop returns.
  \<^item> \<open>Submission\<close>: what the server does for a client that keeps to the protocol. The dialogue that submits a message is
    followed command by command, down to the buffered reads, to the positive replies and the stored row.
  \<^item> \<open>Relay\<close>, \<open>Relay_Laws\<close>, \<open>Relay_Store\<close>, \<open>Relay_Props\<close>: \<open>internal/relay/deliver.go\<close>. No recipient is lost or served
    twice by an attempt, the row of the message afterwards is determined on every outcome, other messages
    are untouched, and an attempt ends after one transaction per domain (locales \<open>group_delivery\<close>,
    \<open>logged_delivery\<close>, \<open>loop_invariant\<close>, \<open>delivery_invariant\<close>, \<open>core_invariant\<close>, \<open>mail_policy\<close>).
  \<^item> \<open>Relay_Life\<close>: one message over all its attempts and all runs of the worker. Nobody is sent to by two
    transactions, every recipient is accounted for at any time, and the message leaves the queue after its last attempt.
  \<^item> \<open>Dnscheck\<close>: \<open>internal/dnscheck\<close>, the diagnostics of a sending domain, and when they pass.
  \<^item> \<open>Api\<close>, \<open>Api_Laws\<close>, \<open>Api_Props\<close>: \<open>internal/api/api.go\<close> and \<open>openapi.go\<close>: routing, the token and every handler. A property
    of the store that the operations keep is kept by every request (locales \<open>api_upkeep\<close>, \<open>api_invariant\<close>, \<open>side_tables\<close>); nothing can be
    changed without the token; composed messages obey the limits; created accounts and keys take effect.
  \<^item> \<open>Logmask\<close>, \<open>Logmask_Laws\<close>: \<open>internal/logmask\<close>, with the regular expression as the matcher it denotes.
  \<^item> \<open>Startup\<close>, \<open>Startup_Laws\<close>: \<open>main.go\<close> up to the assembled parts, with \<open>internal/metrics\<close>, \<open>internal/api/panel.go\<close> and
    \<open>internal/webui\<close>; after a start the declared accounts and keys are in place.
  \<^item> \<open>Program\<close>: the rest of \<open>main.go\<close>: flags, the report of the seeding, retention, waiting for a signal or a failing server,
    and the shutdown; how the HTTP servers begin and end; the proxy and the headers of the panel.
  \<^item> \<open>Whole_System\<close> and this theory: submission, delivery and the API over one store; what the acknowledgement of a
    message promises; the text of a message on its way through the program.

  \<^bold>\<open>Loops and bounds.\<close> No definition uses fuel. The reading loops end because they consume input, the
  session loop because every turn consumes input or a handshake, the delivery loop because every turn
  without a retry error removes at least one recipient; each has its measure. The accept loop, which need not end,
  is a step relation, and \<open>returns\<close> says that it ends in every schedule; the loops of the worker and of the retention
  are functions of the events they receive. Where the width of an
  integer matters (the shift in \<open>backoff\<close>) it is a 64-bit word; counters, sizes and times are unbounded integers,
  far from the limits of \<open>int64\<close> in practice.

  \<^bold>\<open>What stands for the outside.\<close> Libraries and services that are not part of the program are arguments: bcrypt,
  PEM and key parsing, signatures, MIME and YAML decoding, JSON decoding of request bodies, DNS, dialling
  and the SMTP peer, the operating system, the clock and random bytes. What a theorem needs of them is a
  named hypothesis (\<open>bcrypt_ok\<close>, \<open>qencode_ok\<close>, \<open>dns_lookups\<close>) with an instance in its witness.

  \<^bold>\<open>Not modelled.\<close> Writing log lines, except those of the seeding and of a shutdown; the passing of time in deadlines and
  timeouts, whose expiry is an item of the input of a connection or a step of the server; the SQL engine below
  its statements and transactions; HTTP below the multiplexer (its parsing, redirects of unclean paths, the
  headers of the API); static files. Interleaving is at the level of whole turns: one command of a session, one
  message of a batch, one API request; two of them never overlap inside the model. The life of a message is that
  under one worker process; two processes on one database can overlap on a message, because \<open>Persist\<close> gives up
  its lease. Strings are bytes with ASCII case and white space, which is what Go's functions do on ASCII text.
\<close>

section \<open>The whole system\<close>

text \<open>
  C1. The system is no open relay. However connections, deliveries and requests to the administrative API
  interleave, \<open>POST /send\<close> and changes of accounts included, whatever clients send, whatever the network
  answers and whichever statements fail: every message that a mail exchanger has accepted from the
  program had an envelope sender that an account which existed may use, and every address of its
  envelope has an at-sign.
\<close>

theorem system_no_open_relay:
  assumes "system_start A srv x" and "(system_step A srv d api)\<^sup>*\<^sup>* x (w, n, lg)" and "e \<in> set lg"
  shows "(\<exists>u\<in>A. AllowsFrom u (sm_from e)) \<and> list_all (\<lambda>a. Contains a ''@'') (sm_from e # sm_rcpts e)"
  using sysinv.reachable_inv [OF assms(1,2)] assms(3) by (auto simp: system_inv_def list_all_iff mail_ok_def)

text \<open>A store with one row and a batch that delivers the row.\<close>

definition demo_system :: system where
  "demo_system = (demo_world, 0, [])"

lemma demo_system_run:
  "system_start {demo_account} demo_server demo_system"
  "\<exists>w n. (system_step {demo_account} demo_server demo_relay demo_api)\<^sup>*\<^sup>* demo_system (w, n, [\<lparr>sm_host = ''y'', sm_from = ''a@x'', sm_rcpts = [''b@y''], sm_body = ''hi'' @ crlf\<rparr>])"
proof -
  show "system_start {demo_account} demo_server demo_system"
    using demo_fresh authorised_sendable by (auto simp: system_start_def demo_system_def fresh_world_def rows_ok_def list_all_iff)
  have "system_step {demo_account} demo_server demo_relay demo_api demo_system
     (after_batch demo_system (processBatch demo_relay (\<lambda>ms. ms) (as_dstate demo_system)))"
    by (rule sys_batch) simp
  moreover have "mx_log (processBatch demo_relay (\<lambda>ms. ms) (as_dstate demo_system)) =
      [\<lparr>sm_host = ''y'', sm_from = ''a@x'', sm_rcpts = [''b@y''], sm_body = ''hi'' @ crlf\<rparr>]"
    by code_simp
  ultimately show "\<exists>w n. (system_step {demo_account} demo_server demo_relay demo_api)\<^sup>*\<^sup>* demo_system
      (w, n, [\<lparr>sm_host = ''y'', sm_from = ''a@x'', sm_rcpts = [''b@y''], sm_body = ''hi'' @ crlf\<rparr>])"
    by (auto simp: after_batch_def demo_system_def)
qed

lemma system_no_open_relay_witness:
  "\<exists>w n lg e. (system_step {demo_account} demo_server demo_relay demo_api)\<^sup>*\<^sup>* demo_system (w, n, lg) \<and> e \<in> set lg \<and>
     sm_from e = ''a@x'' \<and> AllowsFrom demo_account (sm_from e)"
proof -
  obtain w n where run: "(system_step {demo_account} demo_server demo_relay demo_api)\<^sup>*\<^sup>* demo_system
      (w, n, [\<lparr>sm_host = ''y'', sm_from = ''a@x'', sm_rcpts = [''b@y''], sm_body = ''hi'' @ crlf\<rparr>])"
    using demo_system_run(2) by blast
  from system_no_open_relay [OF demo_system_run(1) run] run show ?thesis by fastforce
qed

section \<open>What an acknowledgement promises\<close>


text \<open>A session whose message is acknowledged, and the one batch that a deliverer with one attempt needs.\<close>

definition demo_ready :: session where
  "demo_ready = (new_session (TCPAddr ''127.0.0.1'' True) (bytes_in (''hi'' @ crlf @ ''.'' @ crlf)) [] (new_store ''sqlite'' ''w'') no_counts 0)
     \<lparr>user := Some demo_account, sender := ''a@x'', rcpts := [''b@y'']\<rparr>"

definition demo_after_data :: dstate where
  "demo_after_data = demo_dstate\<lparr>d_db := db (handleData demo_server demo_ready)\<rparr>"


section \<open>The text from the client to the mail exchanger\<close>

definition clean_header :: "server \<Rightarrow> tick \<Rightarrow> string \<Rightarrow> session \<Rightarrow> bool" where
  "clean_header srv t i c \<longleftrightarrow> clean (if helo c = [] then remoteIP (remote c) else helo c) \<and> clean (Hostname (cfg srv)) \<and>
     clean i \<and> list_all clean (rcpts c) \<and> clean (date_text t)"

definition header_lines_of :: "server \<Rightarrow> tick \<Rightarrow> string \<Rightarrow> session \<Rightarrow> string list" where
  "header_lines_of srv t i c =
     (''Received: from '' @ (if helo c = [] then remoteIP (remote c) else helo c) @ '' by '' @ Hostname (cfg srv) @ '' with ESMTPSA id '' @ i) #
     map (\<lambda>to. [TAB] @ ''for <'' @ to @ ''>'') (rcpts c) @ [[TAB] @ ''; '' @ date_text t]"

lemma receivedHeader_lines: "receivedHeader srv t i c = concat (map (\<lambda>l. l @ crlf) (header_lines_of srv t i c))"
proof -
  have shift: "concat (map (\<lambda>to. crlf @ [TAB] @ ''for <'' @ to @ ''>'') ts) @ crlf @ [TAB] @ s =
      crlf @ concat (map (\<lambda>to. ([TAB] @ ''for <'' @ to @ ''>'') @ crlf) ts) @ [TAB] @ s" for ts s
    by (induction ts) simp_all
  show ?thesis
    using shift [of "rcpts c" "''; '' @ date_text t @ crlf"] by (simp add: receivedHeader_def header_lines_of_def Let_def comp_def)
qed

lemma clean_header_lines: "clean_header srv t i c \<Longrightarrow> list_all clean (header_lines_of srv t i c)"
  by (auto simp: clean_header_def header_lines_of_def list_all_iff clean_def)

text \<open>
  C11. The message text survives the way through the program: for a client that sends the lines of a
  message as RFC 5321 says, within the size limit, what \<open>DATA\<close> stores and the deliverer prepares is the
  Received header followed by exactly those lines, all ended by CRLF, with dots restored.
\<close>

theorem text_preserved:
  assumes "list_all clean ls" and "sent_size ls + 2 \<le> MaxMessageSize (cfg srv)"
    and "clean_header srv (clock srv (ticks c)) (data_id srv c) c"
  shows "\<exists>data. readData (MaxMessageSize (cfg srv)) (bytes_in (send_lines ls @ ''.'' @ crlf) @ rest) = (Inr (data, False), rest) \<and>
     normalizeCRLF (data_raw srv c data) =
       receivedHeader srv (clock srv (ticks c)) (data_id srv c) c @ concat (map (\<lambda>l. l @ crlf) ls)"
proof -
  let ?h = "header_lines_of srv (clock srv (ticks c)) (data_id srv c) c"
  let ?data = "concat (map (\<lambda>l. l @ [LF]) ls)"
  let ?ls = "map (\<lambda>l. (l, True)) ?h @ map (\<lambda>l. (l, False)) ls"
  have rd: "readData (MaxMessageSize (cfg srv)) (bytes_in (send_lines ls @ ''.'' @ crlf) @ rest) = (Inr (?data, False), rest)"
    using readData_loop_lines [of ls 0 "MaxMessageSize (cfg srv)" "[]" rest] assms(1,2) by (simp add: readData_def list_all_iff)
  have "data_raw srv c ?data = concat (map ended ?ls)"
    by (simp add: data_raw_def receivedHeader_lines ended_def comp_def)
  moreover have "list_all plain_line ?ls" "?ls \<noteq> []"
    using assms(1) clean_header_lines [OF assms(3)] by (auto simp: list_all_iff plain_line_def clean_def header_lines_of_def)
  ultimately have "normalizeCRLF (data_raw srv c ?data) = concat (map (\<lambda>x. fst x @ crlf) ?ls)"
    using normalize_lines by metis
  then have "normalizeCRLF (data_raw srv c ?data) = receivedHeader srv (clock srv (ticks c)) (data_id srv c) c @ concat (map (\<lambda>l. l @ crlf) ls)"
    by (simp add: receivedHeader_lines comp_def)
  with rd show ?thesis by blast
qed

lemma text_preserved_witness:
  "\<exists>data. readData 26214400 (bytes_in (send_lines [''hi'', ''.dot''] @ ''.'' @ crlf) @ []) = (Inr (data, False), []) \<and>
     normalizeCRLF (data_raw demo_server (new_session (OtherAddr ''z'') [] [] demo_db no_counts 0) data) =
       receivedHeader demo_server (clock demo_server 0) ''s-01'' (new_session (OtherAddr ''z'') [] [] demo_db no_counts 0) @
       ''hi'' @ crlf @ ''.dot'' @ crlf"
proof -
  let ?c = "new_session (OtherAddr ''z'') [] [] demo_db no_counts 0"
  have i: "data_id demo_server ?c = ''s-01''" by code_simp
  have m: "MaxMessageSize (cfg demo_server) = 26214400" by (simp add: demo_server_def defaults_def)
  have z: "remoteIP (OtherAddr ''z'') = ''z''" by code_simp
  have "clean_header demo_server (clock demo_server (ticks ?c)) ''s-01'' ?c"
    by (simp add: clean_header_def new_session_def z clean_def) (simp add: demo_server_def)
  then show ?thesis
    using text_preserved [of "[''hi'', ''.dot'']" demo_server ?c "[]", unfolded i m]
    by (simp add: clean_def sent_size_def stuff_def HasPrefix_def new_session_def)
qed

end
